theory Spec2Isabelle
  imports Complex_Main "HOL-Library.Word" "HOL-Library.Code_Target_Numeral"
begin

unbundle bit_operations_syntax

section \<open>Bytes and buffers\<close>

type_synonym byte = "8 word"
type_synonym bytes = "byte list"

text \<open>
  Errors thrown by the code.  \<open>Error msg\<close> is a JavaScript \<open>new Error(msg)\<close> (also the
  one thrown by \<open>util.assertEq\<close>, whose message starts with \<open>msg\<close>); \<open>TypeError\<close> is a
  method call on \<open>null\<close>; \<open>RangeError\<close> is an out-of-range \<open>writeUInt32BE\<close>;
  \<open>Secp256k1Error\<close> and \<open>CipherError\<close> are throws of the secp256k1 and crypto libraries,
  \<open>CodecError\<close> is a throw of the discovery packet codec.
\<close>

datatype error = Error string | TypeError | RangeError | Secp256k1Error | CipherError | CodecError

text \<open>\<open>Buffer.prototype.slice(start, end)\<close>: negative offsets count from the end, both
  offsets are clamped to the buffer, and an end before the start gives the empty buffer.\<close>

definition js_index :: "nat \<Rightarrow> int \<Rightarrow> nat" where
  "js_index len i = (if i < 0 then nat (max 0 (int len + i)) else min (nat i) len)"

definition slice :: "int \<Rightarrow> int \<Rightarrow> 'a list \<Rightarrow> 'a list" where
  "slice s e xs =
     (let a = js_index (length xs) s; b = js_index (length xs) e
      in take (b - a) (drop a xs))"

definition slice_from :: "int \<Rightarrow> 'a list \<Rightarrow> 'a list" where
  "slice_from s xs = drop (js_index (length xs) s) xs"

text \<open>Big-endian bytes of a number: \<open>be_bytes k n\<close> is the \<open>k\<close> low bytes of \<open>n\<close>.\<close>

fun be_bytes :: "nat \<Rightarrow> nat \<Rightarrow> bytes" where
  "be_bytes 0 n = []"
| "be_bytes (Suc k) n = be_bytes k (n div 256) @ [of_nat (n mod 256)]"

text \<open>\<open>tmp.writeUInt32BE(counter)\<close> on a 4-byte buffer: throws when the value does not
  fit 32 bits.\<close>

definition writeUInt32BE :: "nat \<Rightarrow> error + bytes" where
  "writeUInt32BE v = (if v < 2 ^ 32 then Inr (be_bytes 4 v) else Inl RangeError)"

section \<open>Library primitives\<close>

text \<open>
  The primitives of the \<open>crypto\<close>, \<open>keccak\<close> and \<open>secp256k1\<close> libraries are parameters of
  the model.  The secp256k1 functions throw on invalid input, so they return an option.
  \<open>aes_ctr_keystream key iv i\<close> is byte \<open>i\<close> of the AES-CTR keystream for \<open>key\<close> and \<open>iv\<close>.
\<close>

record crypto =
  sha256 :: "bytes \<Rightarrow> bytes"
  keccak :: "bytes \<Rightarrow> bytes"
  hmac_sha256 :: "bytes \<Rightarrow> bytes \<Rightarrow> bytes"
  aes_ctr_keystream :: "bytes \<Rightarrow> bytes \<Rightarrow> nat \<Rightarrow> byte"
  aes256_ecb :: "bytes \<Rightarrow> bytes \<Rightarrow> bytes"
  privateKeyVerify :: "bytes \<Rightarrow> bool"
  publicKeyCreate :: "bytes \<Rightarrow> bytes option"
  ecdhUnsafe :: "bytes \<Rightarrow> bytes \<Rightarrow> bytes option"
  sign :: "bytes \<Rightarrow> bytes \<Rightarrow> (bytes \<times> byte) option"
  recover :: "bytes \<Rightarrow> bytes \<Rightarrow> byte \<Rightarrow> bytes option"

section \<open>ecies.js: ecdhX and concatKDF\<close>

definition ecdhX :: "crypto \<Rightarrow> bytes option \<Rightarrow> bytes \<Rightarrow> error + bytes" where
  "ecdhX c publicKey privateKey =
     (case publicKey of
        None \<Rightarrow> Inl TypeError
      | Some pk \<Rightarrow>
          (case ecdhUnsafe c pk privateKey of
             None \<Rightarrow> Inl Secp256k1Error
           | Some p \<Rightarrow> Inr (slice_from 1 p)))"

text \<open>
  The loop of \<open>concatKDF\<close>: \<open>reps\<close> is the quotient \<open>((keyLength + 7) * 8) / (64 * 8)\<close>, a
  JavaScript number and not an integer (the division by a power of two is exact), and the
  loop runs while \<open>counter <= reps\<close>.
\<close>

function concatKDF_loop :: "crypto \<Rightarrow> bytes \<Rightarrow> rat \<Rightarrow> nat \<Rightarrow> bytes list \<Rightarrow> error + bytes list" where
  "concatKDF_loop c keyMaterial reps counter buffers =
     (if of_nat counter \<le> reps then
        (case writeUInt32BE (counter + 1) of
           Inl e \<Rightarrow> Inl e
         | Inr tmp \<Rightarrow>
             concatKDF_loop c keyMaterial reps (counter + 1)
               (buffers @ [sha256 c (tmp @ keyMaterial)]))
      else Inr buffers)"
  by pat_completeness auto
termination
  by (relation "measure (\<lambda>(c, k, r, counter, b). 2 ^ 32 - counter)")
     (auto simp: writeUInt32BE_def split: if_splits)

definition concatKDF :: "crypto \<Rightarrow> bytes \<Rightarrow> nat \<Rightarrow> error + bytes" where
  "concatKDF c keyMaterial keyLength =
     (let SHA256BlockSize = 64;
          reps = of_nat ((keyLength + 7) * 8) / of_nat (SHA256BlockSize * 8)
      in case concatKDF_loop c keyMaterial reps 0 [] of
           Inl e \<Rightarrow> Inl e
         | Inr buffers \<Rightarrow> Inr (slice 0 (int keyLength) (concat buffers)))"


declare concatKDF_loop.simps [simp del]

section \<open>Helpers of the repository's util module and of ethereumjs-util\<close>

text \<open>Modelled from the spec: \<open>util.keccak256(...parts)\<close> (the util module is not among the
  sources) hashes the concatenation of its parts; the output is 32 bytes for Keccak-256.\<close>

definition keccak256 :: "crypto \<Rightarrow> bytes list \<Rightarrow> bytes" where
  "keccak256 c parts = keccak c (concat parts)"

text \<open>Modelled from the spec: \<open>util.xor(a, b)\<close> returns the bytewise XOR of two buffers of
  the same length (on different lengths the model stops at the shorter one).\<close>

definition xor_bytes :: "bytes \<Rightarrow> bytes \<Rightarrow> bytes" where
  "xor_bytes a b = map2 (XOR) a b"

text \<open>Modelled from the spec: a node id is the 64-byte uncompressed public key with its
  \<open>0x04\<close> prefix stripped; \<open>util.pk2id\<close> strips the prefix and \<open>util.id2pk\<close> puts it back.\<close>

definition pk2id :: "bytes \<Rightarrow> bytes" where
  "pk2id pk = slice_from 1 pk"

definition id2pk :: "bytes \<Rightarrow> bytes" where
  "id2pk ident = [0x04] @ ident"

text \<open>Modelled from the spec: \<open>util.zfill(buffer, size, leftpad)\<close> pads a buffer with zero
  bytes up to \<open>size\<close>, on the left by default and on the right when \<open>leftpad\<close> is false; a
  buffer that is already long enough is returned as it is.\<close>

definition zfill :: "bytes \<Rightarrow> nat \<Rightarrow> bool \<Rightarrow> bytes" where
  "zfill buffer sz leftpad =
     (if length buffer \<ge> sz then buffer
      else let pad = replicate (sz - length buffer) 0
           in if leftpad then pad @ buffer else buffer @ pad)"

text \<open>Modelled from the spec: \<open>util.assertEq(expected, actual, msg)\<close> throws an error
  starting with \<open>msg\<close> when the two values differ.\<close>

definition assertEq :: "'a \<Rightarrow> 'a \<Rightarrow> string \<Rightarrow> error + unit" where
  "assertEq expected actual msg = (if expected = actual then Inr () else Inl (Error msg))"

text \<open>\<open>intToBuffer\<close> and \<open>bufferToInt\<close> of ethereumjs-util: the minimal big-endian bytes
  of a number (one zero byte for 0), and the number a big-endian buffer stands for.\<close>

fun intToBuffer :: "nat \<Rightarrow> bytes" where
  "intToBuffer n = (if n < 256 then [of_nat n] else intToBuffer (n div 256) @ [of_nat (n mod 256)])"

declare intToBuffer.simps [simp del]

definition bufferToInt :: "bytes \<Rightarrow> nat" where
  "bufferToInt buf = foldl (\<lambda>acc b. acc * 256 + unat b) 0 buf"

text \<open>\<open>rlp.encode([ 0, 0 ])\<close>: a list of two empty strings.\<close>

definition rlp_encode_0_0 :: bytes where
  "rlp_encode_0_0 = [0xc2, 0x80, 0x80]"

section \<open>AES-CTR cipher objects\<close>

text \<open>
  A cipher object of \<open>crypto.createCipheriv\<close> / \<open>crypto.createDecipheriv\<close> in CTR mode:
  its key, its IV and the number of keystream bytes consumed so far.  Creation throws
  when the key or the IV has the wrong length; \<open>update\<close> XORs the data with the next
  keystream bytes, which is the same operation for a cipher and for a decipher.
\<close>

record cipher =
  ckey :: bytes
  civ :: bytes
  cpos :: nat

definition createCipheriv :: "nat \<Rightarrow> bytes \<Rightarrow> bytes \<Rightarrow> error + cipher" where
  "createCipheriv keylen key iv =
     (if length key = keylen \<and> length iv = 16
      then Inr \<lparr>ckey = key, civ = iv, cpos = 0\<rparr>
      else Inl CipherError)"

definition createDecipheriv :: "nat \<Rightarrow> bytes \<Rightarrow> bytes \<Rightarrow> error + cipher" where
  "createDecipheriv keylen key iv = createCipheriv keylen key iv"

definition cipher_update :: "crypto \<Rightarrow> cipher \<Rightarrow> bytes \<Rightarrow> bytes \<times> cipher" where
  "cipher_update c ci data =
     (map2 (XOR) data (map (aes_ctr_keystream c (ckey ci) (civ ci)) [cpos ci ..< cpos ci + length data]),
      ci\<lparr>cpos := cpos ci + length data\<rparr>)"

section \<open>The MAC chain\<close>

text \<open>
  Modelled from the spec: the MAC class (\<open>./mac\<close> is not among the sources) is a Keccak-256
  absorber seeded with the 32-byte \<open>macSecret\<close>.  The state of the absorber is given by the
  bytes absorbed so far; \<open>digest\<close> returns the first 16 bytes of the hash of these bytes
  and does not finalize.  \<open>updateHeader\<close> absorbs
  \<open>AES-256-ECB(macSecret, digest) XOR header\<close>; \<open>updateBody\<close> absorbs the body and then
  \<open>AES-256-ECB(macSecret, digest) XOR digest\<close>.
\<close>

record mac =
  secret :: bytes
  absorbed :: bytes

definition MAC_new :: "bytes \<Rightarrow> mac" where
  "MAC_new s = \<lparr>secret = s, absorbed = []\<rparr>"

definition MAC_update :: "mac \<Rightarrow> bytes \<Rightarrow> mac" where
  "MAC_update m data = m\<lparr>absorbed := absorbed m @ data\<rparr>"

definition MAC_digest :: "crypto \<Rightarrow> mac \<Rightarrow> bytes" where
  "MAC_digest c m = slice 0 16 (keccak c (absorbed m))"

definition MAC_updateHeader :: "crypto \<Rightarrow> mac \<Rightarrow> bytes \<Rightarrow> mac" where
  "MAC_updateHeader c m data =
     (let aesed = aes256_ecb c (secret m) (MAC_digest c m)
      in MAC_update m (xor_bytes aesed data))"

definition MAC_updateBody :: "crypto \<Rightarrow> mac \<Rightarrow> bytes \<Rightarrow> mac" where
  "MAC_updateBody c m data =
     (let m1 = MAC_update m data;
          prev = MAC_digest c m1;
          aesed = aes256_ecb c (secret m) prev
      in MAC_update m1 (xor_bytes aesed prev))"

section \<open>ecies.js: the ECIES class\<close>

text \<open>
  The fields of an ECIES object; a field that starts as \<open>null\<close> is an option.  The random
  values drawn by the code are arguments of the functions that draw them: the bytes of
  \<open>crypto.randomBytes\<close>, and the key of \<open>util.genPrivateKey\<close>, a random private key on
  secp256k1 (one that \<open>privateKeyVerify\<close> accepts).
\<close>

record ecies =
  privateKey :: bytes
  publicKey :: bytes
  remotePublicKey :: "bytes option"
  nonce :: bytes
  remoteNonce :: "bytes option"
  initMsg :: "bytes option"
  remoteInitMsg :: "bytes option"
  ingressAes :: "cipher option"
  egressAes :: "cipher option"
  ingressMac :: "mac option"
  egressMac :: "mac option"
  ephemeralPrivateKey :: bytes
  ephemeralPublicKey :: bytes
  remoteEphemeralPublicKey :: "bytes option"
  ephemeralSharedSecret :: "bytes option"
  bodySize :: "nat option"

text \<open>The constructor; \<open>rnd_nonce\<close> is \<open>crypto.randomBytes(32)\<close> and \<open>rnd_key\<close> is
  \<open>util.genPrivateKey()\<close>.\<close>

definition ECIES_new :: "crypto \<Rightarrow> bytes \<Rightarrow> bytes \<Rightarrow> bytes option \<Rightarrow> bytes \<Rightarrow> bytes \<Rightarrow> error + ecies" where
  "ECIES_new c privKey ident remoteId rnd_nonce rnd_key =
     (case publicKeyCreate c rnd_key of
        None \<Rightarrow> Inl Secp256k1Error
      | Some ephPub \<Rightarrow>
          Inr \<lparr>privateKey = privKey,
               publicKey = id2pk ident,
               remotePublicKey = (case remoteId of None \<Rightarrow> None | Some r \<Rightarrow> Some (id2pk r)),
               nonce = rnd_nonce,
               remoteNonce = None,
               initMsg = None,
               remoteInitMsg = None,
               ingressAes = None,
               egressAes = None,
               ingressMac = None,
               egressMac = None,
               ephemeralPrivateKey = rnd_key,
               ephemeralPublicKey = ephPub,
               remoteEphemeralPublicKey = None,
               ephemeralSharedSecret = None,
               bodySize = None\<rparr>)"

text \<open>\<open>_encryptMessage\<close>; \<open>rnd_key\<close> is \<open>util.genPrivateKey()\<close> and \<open>rnd_IV\<close> is
  \<open>crypto.randomBytes(16)\<close>.  The object is not modified.\<close>

definition encryptMessage :: "crypto \<Rightarrow> ecies \<Rightarrow> bytes \<Rightarrow> bytes \<Rightarrow> bytes \<Rightarrow> error + bytes" where
  "encryptMessage c st rnd_key rnd_IV data =
     (case ecdhX c (remotePublicKey st) rnd_key of
        Inl e \<Rightarrow> Inl e
      | Inr x \<Rightarrow>
     (case concatKDF c x 32 of
        Inl e \<Rightarrow> Inl e
      | Inr key \<Rightarrow>
     (let ekey = slice 0 16 key;
          mkey = sha256 c (slice 16 32 key)
      in case createCipheriv 16 ekey rnd_IV of
        Inl e \<Rightarrow> Inl e
      | Inr ciph \<Rightarrow>
     (let encryptedData = fst (cipher_update c ciph data);
          dataIV = rnd_IV @ encryptedData;
          tag = hmac_sha256 c mkey dataIV
      in case publicKeyCreate c rnd_key of
        None \<Rightarrow> Inl Secp256k1Error
      | Some pubKey \<Rightarrow> Inr (pubKey @ dataIV @ tag)))))"

text \<open>\<open>_decryptMessage\<close>.  The object is not modified.\<close>

definition decryptMessage :: "crypto \<Rightarrow> ecies \<Rightarrow> bytes \<Rightarrow> error + bytes" where
  "decryptMessage c st data =
     (let pubKey = slice 0 65 data;
          dataIV = slice 65 (- 32) data;
          tag = slice_from (- 32) data
      in case ecdhX c (Some pubKey) (privateKey st) of
        Inl e \<Rightarrow> Inl e
      | Inr x \<Rightarrow>
     (case concatKDF c x 32 of
        Inl e \<Rightarrow> Inl e
      | Inr key \<Rightarrow>
     (let ekey = slice 0 16 key;
          mkey = sha256 c (slice 16 32 key);
          tag' = hmac_sha256 c mkey dataIV
      in case assertEq tag' tag ''should have valid tag'' of
        Inl e \<Rightarrow> Inl e
      | Inr _ \<Rightarrow>
     (let IV = slice 0 16 dataIV;
          encryptedData = slice_from 16 dataIV
      in case createDecipheriv 16 ekey IV of
        Inl e \<Rightarrow> Inl e
      | Inr decipher \<Rightarrow> Inr (fst (cipher_update c decipher encryptedData))))))"

text \<open>The secrets that \<open>_setupFrame\<close> derives as local constants:
  \<open>(sharedSecret, aesSecret, macSecret)\<close>.\<close>

definition frameSecrets :: "crypto \<Rightarrow> ecies \<Rightarrow> bool \<Rightarrow> error + (bytes \<times> bytes \<times> bytes)" where
  "frameSecrets c st incoming =
     (case remoteNonce st of
        None \<Rightarrow> Inl TypeError
      | Some rn \<Rightarrow>
     (let nonceMaterial = (if incoming then nonce st @ rn else rn @ nonce st);
          hNonce = keccak256 c [nonceMaterial]
      in case ephemeralSharedSecret st of
        None \<Rightarrow> Inl TypeError
      | Some ess \<Rightarrow>
     (let sharedSecret = keccak256 c [ess, hNonce];
          aesSecret = keccak256 c [ess, sharedSecret];
          macSecret = keccak256 c [ess, aesSecret]
      in Inr (sharedSecret, aesSecret, macSecret))))"

definition setupFrame :: "crypto \<Rightarrow> ecies \<Rightarrow> bytes option \<Rightarrow> bool \<Rightarrow> (error + unit) \<times> ecies" where
  "setupFrame c st remoteData incoming =
     (case frameSecrets c st incoming of
        Inl e \<Rightarrow> (Inl e, st)
      | Inr (sharedSecret, aesSecret, macSecret) \<Rightarrow>
     (let IV = replicate 16 0
      in case createDecipheriv 32 aesSecret IV of
        Inl e \<Rightarrow> (Inl e, st)
      | Inr aes \<Rightarrow>
     (let st1 = st\<lparr>ingressAes := Some aes, egressAes := Some aes,
                    ingressMac := Some (MAC_new macSecret)\<rparr>
      in case remoteData of
        None \<Rightarrow> (Inl TypeError, st1)
      | Some rd \<Rightarrow>
     (let st2 = st1\<lparr>ingressMac :=
                       Some (MAC_update (MAC_new macSecret) (xor_bytes macSecret (nonce st1) @ rd)),
                     egressMac := Some (MAC_new macSecret)\<rparr>
      in case remoteNonce st2 of
        None \<Rightarrow> (Inl TypeError, st2)
      | Some rn \<Rightarrow>
     (case initMsg st2 of
        None \<Rightarrow> (Inl TypeError, st2)
      | Some im \<Rightarrow>
          (Inr (), st2\<lparr>egressMac :=
                         Some (MAC_update (MAC_new macSecret) (xor_bytes macSecret rn @ im))\<rparr>))))))"

definition createAuth :: "crypto \<Rightarrow> ecies \<Rightarrow> bytes \<Rightarrow> bytes \<Rightarrow> (error + bytes) \<times> ecies" where
  "createAuth c st rnd_key rnd_IV =
     (case ecdhX c (remotePublicKey st) (privateKey st) of
        Inl e \<Rightarrow> (Inl e, st)
      | Inr x \<Rightarrow>
     (case sign c (xor_bytes x (nonce st)) (ephemeralPrivateKey st) of
        None \<Rightarrow> (Inl Secp256k1Error, st)
      | Some (signature, recovery) \<Rightarrow>
     (let data = signature @ [recovery] @ keccak256 c [pk2id (ephemeralPublicKey st)]
                   @ pk2id (publicKey st) @ nonce st @ [0x00]
      in case encryptMessage c st rnd_key rnd_IV data of
        Inl e \<Rightarrow> (Inl e, st)
      | Inr msg \<Rightarrow> (Inr msg, st\<lparr>initMsg := Some msg\<rparr>))))"

definition parseAuth :: "crypto \<Rightarrow> ecies \<Rightarrow> bytes \<Rightarrow> (error + unit) \<times> ecies" where
  "parseAuth c st data =
     (let st1 = st\<lparr>remoteInitMsg := Some data\<rparr>
      in case decryptMessage c st1 data of
        Inl e \<Rightarrow> (Inl e, st1)
      | Inr decypted \<Rightarrow>
     (case assertEq (length decypted) 194 ''invalid packet length'' of
        Inl e \<Rightarrow> (Inl e, st1)
      | Inr _ \<Rightarrow>
     (let signature = slice 0 64 decypted;
          recoveryId = decypted ! 64;
          heid = slice 65 97 decypted;
          st2 = st1\<lparr>remotePublicKey := Some (id2pk (slice 97 161 decypted))\<rparr>;
          rn = slice 161 193 decypted;
          st3 = st2\<lparr>remoteNonce := Some rn\<rparr>
      in case assertEq (decypted ! 193) 0 ''invalid postfix'' of
        Inl e \<Rightarrow> (Inl e, st3)
      | Inr _ \<Rightarrow>
     (case ecdhX c (remotePublicKey st3) (privateKey st3) of
        Inl e \<Rightarrow> (Inl e, st3)
      | Inr x \<Rightarrow>
     (case recover c (xor_bytes x rn) signature recoveryId of
        None \<Rightarrow> (Inl Secp256k1Error, st3)
      | Some rpk \<Rightarrow>
     (let st4 = st3\<lparr>remoteEphemeralPublicKey := Some rpk\<rparr>
      in case ecdhX c (Some rpk) (ephemeralPrivateKey st4) of
        Inl e \<Rightarrow> (Inl e, st4)
      | Inr ess \<Rightarrow>
     (let st5 = st4\<lparr>ephemeralSharedSecret := Some ess\<rparr>;
          heid' = keccak256 c [pk2id rpk]
      in case assertEq heid' heid ''the hash of the ephemeral key should match'' of
        Inl e \<Rightarrow> (Inl e, st5)
      | Inr _ \<Rightarrow> (Inr (), st5))))))))"

definition createAck :: "crypto \<Rightarrow> ecies \<Rightarrow> bytes \<Rightarrow> bytes \<Rightarrow> (error + bytes) \<times> ecies" where
  "createAck c st rnd_key rnd_IV =
     (let data = pk2id (ephemeralPublicKey st) @ nonce st @ [0x00]
      in case encryptMessage c st rnd_key rnd_IV data of
        Inl e \<Rightarrow> (Inl e, st)
      | Inr msg \<Rightarrow>
     (let st1 = st\<lparr>initMsg := Some msg\<rparr>
      in case setupFrame c st1 (remoteInitMsg st1) True of
        (Inl e, st2) \<Rightarrow> (Inl e, st2)
      | (Inr _, st2) \<Rightarrow> (Inr msg, st2)))"

definition parseAck :: "crypto \<Rightarrow> ecies \<Rightarrow> bytes \<Rightarrow> (error + unit) \<times> ecies" where
  "parseAck c st data =
     (case decryptMessage c st data of
        Inl e \<Rightarrow> (Inl e, st)
      | Inr decypted \<Rightarrow>
     (case assertEq (length decypted) 97 ''invalid packet length'' of
        Inl e \<Rightarrow> (Inl e, st)
      | Inr _ \<Rightarrow>
     (let rpk = id2pk (slice 0 64 decypted);
          st1 = st\<lparr>remoteEphemeralPublicKey := Some rpk\<rparr>;
          st2 = st1\<lparr>remoteNonce := Some (slice 64 96 decypted)\<rparr>
      in case assertEq (decypted ! 96) 0 ''invalid postfix'' of
        Inl e \<Rightarrow> (Inl e, st2)
      | Inr _ \<Rightarrow>
     (case ecdhX c (remoteEphemeralPublicKey st2) (ephemeralPrivateKey st2) of
        Inl e \<Rightarrow> (Inl e, st2)
      | Inr ess \<Rightarrow>
          setupFrame c (st2\<lparr>ephemeralSharedSecret := Some ess\<rparr>) (Some data) False))))"

definition createHeader :: "crypto \<Rightarrow> ecies \<Rightarrow> nat \<Rightarrow> (error + bytes) \<times> ecies" where
  "createHeader c st sz =
     (let sz' = zfill (intToBuffer sz) 3 True;
          header = sz' @ rlp_encode_0_0;
          header1 = zfill header 16 False
      in case egressAes st of
        None \<Rightarrow> (Inl TypeError, st)
      | Some aes \<Rightarrow>
     (let (header2, aes') = cipher_update c aes header1;
          st1 = st\<lparr>egressAes := Some aes'\<rparr>
      in case egressMac st1 of
        None \<Rightarrow> (Inl TypeError, st1)
      | Some m \<Rightarrow>
     (let m' = MAC_updateHeader c m header2;
          tag = MAC_digest c m'
      in (Inr (header2 @ tag), st1\<lparr>egressMac := Some m'\<rparr>))))"

definition parseHeader :: "crypto \<Rightarrow> ecies \<Rightarrow> bytes \<Rightarrow> (error + nat) \<times> ecies" where
  "parseHeader c st data =
     (let header = slice 0 16 data;
          mac = slice 16 32 data
      in case ingressMac st of
        None \<Rightarrow> (Inl TypeError, st)
      | Some m \<Rightarrow>
     (let m' = MAC_updateHeader c m header;
          st1 = st\<lparr>ingressMac := Some m'\<rparr>;
          mac' = MAC_digest c m'
      in case assertEq mac' mac ''Invalid MAC'' of
        Inl e \<Rightarrow> (Inl e, st1)
      | Inr _ \<Rightarrow>
     (case ingressAes st1 of
        None \<Rightarrow> (Inl TypeError, st1)
      | Some aes \<Rightarrow>
     (let (header1, aes') = cipher_update c aes header;
          st2 = st1\<lparr>ingressAes := Some aes'\<rparr>;
          st3 = st2\<lparr>bodySize := Some (bufferToInt (slice 0 3 header1))\<rparr>
      in (Inr (bufferToInt (slice 0 3 header1)), st3)))))"

definition createBody :: "crypto \<Rightarrow> ecies \<Rightarrow> bytes \<Rightarrow> (error + bytes) \<times> ecies" where
  "createBody c st data =
     (let data1 = zfill data (((length data + 15) div 16) * 16) False
      in case egressAes st of
        None \<Rightarrow> (Inl TypeError, st)
      | Some aes \<Rightarrow>
     (let (encryptedData, aes') = cipher_update c aes data1;
          st1 = st\<lparr>egressAes := Some aes'\<rparr>
      in case egressMac st1 of
        None \<Rightarrow> (Inl TypeError, st1)
      | Some m \<Rightarrow>
     (let m' = MAC_updateBody c m encryptedData;
          tag = MAC_digest c m'
      in (Inr (encryptedData @ tag), st1\<lparr>egressMac := Some m'\<rparr>))))"

definition parseBody :: "crypto \<Rightarrow> ecies \<Rightarrow> bytes \<Rightarrow> (error + bytes) \<times> ecies" where
  "parseBody c st data =
     (case bodySize st of
        None \<Rightarrow> (Inl (Error ''need to parse header first''), st)
      | Some sz \<Rightarrow>
     (let body = slice 0 (- 16) data;
          mac = slice_from (- 16) data
      in case ingressMac st of
        None \<Rightarrow> (Inl TypeError, st)
      | Some m \<Rightarrow>
     (let m' = MAC_updateBody c m body;
          st1 = st\<lparr>ingressMac := Some m'\<rparr>;
          mac' = MAC_digest c m'
      in case assertEq mac' mac ''Invalid MAC'' of
        Inl e \<Rightarrow> (Inl e, st1)
      | Inr _ \<Rightarrow>
     (let st2 = st1\<lparr>bodySize := None\<rparr>
      in case ingressAes st2 of
        None \<Rightarrow> (Inl TypeError, st2)
      | Some aes \<Rightarrow>
     (let (plain, aes') = cipher_update c aes body
      in (Inr (slice 0 (int sz) plain), st2\<lparr>ingressAes := Some aes'\<rparr>))))))"

section \<open>The discovery server\<close>

subsection \<open>Data\<close>

text \<open>A peer or endpoint object: \<open>id\<close> (absent on a plain endpoint), \<open>address\<close>,
  \<open>udpPort\<close> and \<open>tcpPort\<close> (a number or \<open>null\<close>).\<close>

record peer =
  peer_id :: "bytes option"
  address :: string
  udpPort :: "nat option"
  tcpPort :: "nat option"

text \<open>A peer of the routing table, \<open>{id, endpoint}\<close>.\<close>

record dpt_peer =
  dpt_id :: bytes
  dpt_endpoint :: peer

text \<open>The \<open>typename\<close> and \<open>data\<close> of a discovery message, as given to \<open>message.encode\<close>
  and returned by \<open>message.decode\<close>: ping \<open>{version, from, to}\<close>, pong \<open>{to, hash}\<close>,
  findneighbours \<open>{id}\<close> and neighbours \<open>{peers}\<close>.\<close>

datatype msgdata =
    Ping nat peer peer
  | Pong peer bytes
  | FindNeighbours bytes
  | Neighbours "dpt_peer list"

record info =
  info_data :: msgdata
  info_publicKey :: bytes

text \<open>The \<open>rinfo\<close> of a received datagram.\<close>

record rinfo =
  rinfo_address :: string
  rinfo_port :: nat

text \<open>
  Modelled from the spec: the packet codec \<open>message.encode(typename, data, privateKey)\<close> /
  \<open>message.decode(msg)\<close> (\<open>./message\<close> is not among the sources) produces a datagram whose
  first 32 bytes are its hash, and decodes a datagram into its typename, data and the
  sender's public key recovered from the signature.  Both throw on input they cannot
  handle, which is \<open>None\<close> here.  The codec is a parameter of the model, together with the
  routing table \<open>dpt\<close> that the server consults through \<open>getPeer\<close> (\<open>null\<close> is \<open>None\<close>) and
  \<open>getClosestPeers\<close>.
\<close>

record env =
  encode :: "msgdata \<Rightarrow> bytes \<Rightarrow> bytes option"
  decode :: "bytes \<Rightarrow> info option"
  getPeer :: "bytes \<Rightarrow> dpt_peer option"
  getClosestPeers :: "bytes \<Rightarrow> dpt_peer list"

text \<open>A promise made by \<open>createDeferred\<close>: pending, resolved with a peer descriptor, or
  rejected with an error.  Promises are named by their position in the list of all
  promises created so far.\<close>

datatype promise = Pending | Resolved peer | Rejected error

text \<open>An entry of the pending-request map: \<open>{peer, deferred, timeoutId}\<close>.\<close>

record request =
  req_peer :: peer
  req_deferred :: nat
  req_timeoutId :: nat

text \<open>The callbacks given to \<open>setTimeout\<close>: the timeout arm of \<open>ping\<close> (with the \<open>rkey\<close>,
  \<open>deferred\<close> and \<open>peer\<close> it closes over) and the delayed \<open>peers\<close> event of \<open>_handler\<close>.\<close>

datatype timer_action =
    PingTimeout string nat peer
  | EmitPeers "peer list"

record timer =
  timer_id :: nat
  due :: nat
  action :: timer_action

text \<open>The events that the server emits itself: \<open>error\<close> and \<open>peers\<close> (the \<open>listening\<close> and
  \<open>close\<close> events only forward those of the socket).\<close>

datatype event = ErrorEvent error | PeersEvent "peer list"

definition is_peers_event :: "event \<Rightarrow> bool" where
  "is_peers_event ev = (case ev of PeersEvent _ \<Rightarrow> True | ErrorEvent _ \<Rightarrow> False)"

text \<open>
  The server object together with the part of the runtime it acts on: the clock (in
  milliseconds), the armed timers, the promises, the datagrams handed to \<open>socket.send\<close> and
  the events emitted.  \<open>socket\<close> is false when \<open>this._socket\<close> is \<open>null\<close>.  The dedup cache
  is the list of its entries \<open>(key, value, time of insertion)\<close>, most recently used first.
\<close>

record server =
  srv_privateKey :: bytes
  srv_timeout :: nat
  srv_endpoint :: peer
  requests :: "string \<Rightarrow> request option"
  requestsCache :: "(string \<times> nat \<times> nat) list"
  socket :: bool
  now :: nat
  timers :: "timer list"
  next_timer :: nat
  promises :: "promise list"
  sent :: "(bytes \<times> nat \<times> string) list"
  events :: "event list"

subsection \<open>Constants\<close>

definition VERSION :: nat where
  "VERSION = 0x04"

definition DEFAULT_CACHE_max :: nat where
  "DEFAULT_CACHE_max = 1000"

definition DEFAULT_CACHE_maxAge :: nat where
  "DEFAULT_CACHE_maxAge = 1000"

definition DEFAULT_ENDPOINT :: peer where
  "DEFAULT_ENDPOINT = \<lparr>peer_id = None, address = ''0.0.0.0'', udpPort = None, tcpPort = None\<rparr>"

definition DEFAULT_TIMEOUT :: nat where
  "DEFAULT_TIMEOUT = 10000"

subsection \<open>Strings\<close>

text \<open>The decimal digits of a number, as a template string prints it, and the hexadecimal
  digits of a buffer, as \<open>toString('hex')\<close> prints it.\<close>

definition digit_char :: "nat \<Rightarrow> char" where
  "digit_char d = ''0123456789abcdef'' ! d"

fun show_nat :: "nat \<Rightarrow> string" where
  "show_nat n = (if n < 10 then [digit_char n] else show_nat (n div 10) @ [digit_char (n mod 10)])"

declare show_nat.simps [simp del]

definition show_port :: "nat option \<Rightarrow> string" where
  "show_port p = (case p of None \<Rightarrow> ''null'' | Some n \<Rightarrow> show_nat n)"

definition toHex :: "bytes \<Rightarrow> string" where
  "toHex buf = concat (map (\<lambda>b. [digit_char (unat b div 16), digit_char (unat b mod 16)]) buf)"

subsection \<open>The LRU cache with a maximum age\<close>

text \<open>
  The \<open>lru-cache\<close> object built with \<open>DEFAULT_CACHE_OPTS\<close> (\<open>max: 1000\<close>, \<open>maxAge: 1 s\<close>,
  \<open>stale: false\<close>).  \<open>get\<close> on an entry older than \<open>maxAge\<close> deletes it and returns
  \<open>undefined\<close>; on a live entry it returns the value and makes the entry the most recently
  used.  \<open>set\<close> puts the entry first, stamped with the current time, and drops the least
  recently used entries beyond \<open>max\<close>.
\<close>

definition LRU_get :: "(string \<times> nat \<times> nat) list \<Rightarrow> nat \<Rightarrow> string \<Rightarrow> nat option \<times> (string \<times> nat \<times> nat) list" where
  "LRU_get cache t k =
     (case find (\<lambda>e. fst e = k) cache of
        None \<Rightarrow> (None, cache)
      | Some (_, v, created) \<Rightarrow>
          if t - created > DEFAULT_CACHE_maxAge
          then (None, filter (\<lambda>e. fst e \<noteq> k) cache)
          else (Some v, (k, v, created) # filter (\<lambda>e. fst e \<noteq> k) cache))"

definition LRU_set :: "(string \<times> nat \<times> nat) list \<Rightarrow> nat \<Rightarrow> string \<Rightarrow> nat \<Rightarrow> (string \<times> nat \<times> nat) list" where
  "LRU_set cache t k v = take DEFAULT_CACHE_max ((k, v, t) # filter (\<lambda>e. fst e \<noteq> k) cache)"

subsection \<open>Timers and promises\<close>

text \<open>\<open>setTimeout(callback, delay)\<close> arms a timer that is due \<open>delay\<close> milliseconds from
  now and returns its id.\<close>

definition setTimeout :: "server \<Rightarrow> timer_action \<Rightarrow> nat \<Rightarrow> nat \<times> server" where
  "setTimeout s a delay =
     (next_timer s,
      s\<lparr>timers := timers s @ [\<lparr>timer_id = next_timer s, due = now s + delay, action = a\<rparr>],
        next_timer := next_timer s + 1\<rparr>)"

definition createDeferred :: "server \<Rightarrow> nat \<times> server" where
  "createDeferred s = (length (promises s), s\<lparr>promises := promises s @ [Pending]\<rparr>)"

text \<open>Settling a promise has an effect only while it is pending.\<close>

definition settle :: "promise list \<Rightarrow> nat \<Rightarrow> promise \<Rightarrow> promise list" where
  "settle ps d outcome = (if d < length ps \<and> ps ! d = Pending then ps[d := outcome] else ps)"

definition resolve :: "server \<Rightarrow> nat \<Rightarrow> peer \<Rightarrow> server" where
  "resolve s d v = s\<lparr>promises := settle (promises s) d (Resolved v)\<rparr>"

definition reject :: "server \<Rightarrow> nat \<Rightarrow> error \<Rightarrow> server" where
  "reject s d e = s\<lparr>promises := settle (promises s) d (Rejected e)\<rparr>"

definition emit :: "server \<Rightarrow> event \<Rightarrow> server" where
  "emit s ev = s\<lparr>events := events s @ [ev]\<rparr>"

subsection \<open>The Server class\<close>

text \<open>The constructor, for the options \<open>{timeout, endpoint}\<close> (a missing option takes its
  default), at time \<open>t\<close>.\<close>

definition Server_new :: "bytes \<Rightarrow> nat option \<Rightarrow> peer option \<Rightarrow> nat \<Rightarrow> server" where
  "Server_new privKey opt_timeout opt_endpoint t =
     \<lparr>srv_privateKey = privKey,
      srv_timeout = (case opt_timeout of None \<Rightarrow> DEFAULT_TIMEOUT | Some x \<Rightarrow> if x = 0 then DEFAULT_TIMEOUT else x),
      srv_endpoint = (case opt_endpoint of None \<Rightarrow> DEFAULT_ENDPOINT | Some e \<Rightarrow> e),
      requests = (\<lambda>_. None),
      requestsCache = [],
      socket = True,
      now = t,
      timers = [],
      next_timer = 0,
      promises = [],
      sent = [],
      events = []\<rparr>"

definition isAliveCheck :: "server \<Rightarrow> error + unit" where
  "isAliveCheck s = (if socket s then Inr () else Inl (Error ''Server already destroyed''))"

definition destroy :: "server \<Rightarrow> (error + unit) \<times> server" where
  "destroy s =
     (case isAliveCheck s of
        Inl e \<Rightarrow> (Inl e, s)
      | Inr _ \<Rightarrow> (Inr (), s\<lparr>socket := False\<rparr>))"

text \<open>\<open>socket.send(msg, 0, msg.length, port, address)\<close>: throws on a closed socket and on a
  port outside 1..65535 (\<open>null\<close> counts as 0); otherwise the datagram goes out.\<close>

definition socket_send :: "server \<Rightarrow> bytes \<Rightarrow> nat option \<Rightarrow> string \<Rightarrow> (error + unit) \<times> server" where
  "socket_send s msg port addr =
     (if \<not> socket s then (Inl TypeError, s)
      else case port of
        None \<Rightarrow> (Inl RangeError, s)
      | Some p \<Rightarrow>
          if p = 0 \<or> p > 65535 then (Inl RangeError, s)
          else (Inr (), s\<lparr>sent := sent s @ [(msg, p, addr)]\<rparr>))"

text \<open>\<open>_send\<close>; \<open>CodecError\<close> is a throw of \<open>message.encode\<close> or \<open>message.decode\<close>.\<close>

definition send :: "env \<Rightarrow> server \<Rightarrow> peer \<Rightarrow> msgdata \<Rightarrow> (error + bytes) \<times> server" where
  "send env s p data =
     (case encode env data (srv_privateKey s) of
        None \<Rightarrow> (Inl CodecError, s)
      | Some msg \<Rightarrow>
     (case socket_send s msg (udpPort p) (address p) of
        (Inl e, s1) \<Rightarrow> (Inl e, s1)
      | (Inr _, s1) \<Rightarrow> (Inr (slice 0 32 msg), s1)))"

definition rckey_of :: "peer \<Rightarrow> string" where
  "rckey_of p = address p @ '':'' @ show_port (udpPort p)"

text \<open>\<open>ping\<close>: the result is the promise whose outcome the caller awaits, or the error
  with which the call rejects at once.\<close>

definition ping :: "env \<Rightarrow> server \<Rightarrow> peer \<Rightarrow> (error + nat) \<times> server" where
  "ping env s p =
     (case isAliveCheck s of
        Inl e \<Rightarrow> (Inl e, s)
      | Inr _ \<Rightarrow>
     (let rckey = rckey_of p;
          (cached, cache1) = LRU_get (requestsCache s) (now s) rckey;
          s1 = s\<lparr>requestsCache := cache1\<rparr>
      in case cached of
        Some d \<Rightarrow> (Inr d, s1)
      | None \<Rightarrow>
     (case send env s1 p (Ping VERSION (srv_endpoint s1) p) of
        (Inl e, s2) \<Rightarrow> (Inl e, s2)
      | (Inr hash, s2) \<Rightarrow>
     (let (deferred, s3) = createDeferred s2;
          rkey = toHex hash;
          (timeoutId, s4) = setTimeout s3 (PingTimeout rkey deferred p) (srv_timeout s3);
          s5 = s4\<lparr>requests := (requests s4)
                    (rkey := Some \<lparr>req_peer = p, req_deferred = deferred, req_timeoutId = timeoutId\<rparr>)\<rparr>;
          s6 = s5\<lparr>requestsCache := LRU_set (requestsCache s5) (now s5) rckey deferred\<rparr>
      in (Inr deferred, s6)))))"

definition findneighbours :: "env \<Rightarrow> server \<Rightarrow> peer \<Rightarrow> bytes \<Rightarrow> (error + unit) \<times> server" where
  "findneighbours env s p ident =
     (case isAliveCheck s of
        Inl e \<Rightarrow> (Inl e, s)
      | Inr _ \<Rightarrow>
     (case send env s p (FindNeighbours ident) of
        (Inl e, s1) \<Rightarrow> (Inl e, s1)
      | (Inr _, s1) \<Rightarrow> (Inr (), s1)))"

text \<open>The peer object that \<open>Object.assign(rinfo, { id: peerId, udpPort: rinfo.port })\<close>
  makes of the \<open>rinfo\<close>; it has no \<open>tcpPort\<close>.\<close>

definition rinfo_peer :: "rinfo \<Rightarrow> bytes \<Rightarrow> peer" where
  "rinfo_peer r peerId =
     \<lparr>peer_id = Some peerId, address = rinfo_address r, udpPort = Some (rinfo_port r), tcpPort = None\<rparr>"

text \<open>The first part of \<open>_handler\<close>: a ping of a sender that the routing table does not
  know, with a \<open>from.udpPort\<close> that is not \<open>null\<close>, arms the delayed \<open>peers\<close> event.\<close>

definition handler_add_peer :: "env \<Rightarrow> server \<Rightarrow> info \<Rightarrow> bytes \<Rightarrow> server" where
  "handler_add_peer env s dec peerId =
     (case info_data dec of
        Ping v from to \<Rightarrow>
          if getPeer env peerId = None \<and> udpPort from \<noteq> None
          then snd (setTimeout s (EmitPeers [from]) 100)
          else s
      | _ \<Rightarrow> s)"

definition handler :: "env \<Rightarrow> server \<Rightarrow> bytes \<Rightarrow> rinfo \<Rightarrow> (error + unit) \<times> server" where
  "handler env s msg r =
     (case decode env msg of
        None \<Rightarrow> (Inl CodecError, s)
      | Some dec \<Rightarrow>
     (let peerId = pk2id (info_publicKey dec);
          s1 = handler_add_peer env s dec peerId
      in case info_data dec of
        Ping v from to \<Rightarrow>
          (case send env s1 (rinfo_peer r peerId)
                  (Pong \<lparr>peer_id = None, address = rinfo_address r,
                          udpPort = Some (rinfo_port r), tcpPort = tcpPort from\<rparr>
                        (slice 0 32 msg)) of
             (Inl e, s2) \<Rightarrow> (Inl e, s2)
           | (Inr _, s2) \<Rightarrow> (Inr (), s2))
      | Pong to hash \<Rightarrow>
          (let rkey = toHex hash
           in case requests s1 rkey of
                Some request \<Rightarrow>
                  (let s2 = s1\<lparr>requests := (requests s1)(rkey := None)\<rparr>
                   in (Inr (),
                       resolve s2 (req_deferred request)
                         \<lparr>peer_id = Some peerId,
                          address = address (req_peer request),
                          udpPort = udpPort (req_peer request),
                          tcpPort = tcpPort (req_peer request)\<rparr>))
              | None \<Rightarrow> (Inr (), s1))
      | FindNeighbours ident \<Rightarrow>
          (case send env s1 (rinfo_peer r peerId) (Neighbours (getClosestPeers env ident)) of
             (Inl e, s2) \<Rightarrow> (Inl e, s2)
           | (Inr _, s2) \<Rightarrow> (Inr (), s2))
      | Neighbours ps \<Rightarrow>
          (Inr (), emit s1 (PeersEvent (map dpt_endpoint ps)))))"

text \<open>The \<open>message\<close> listener of the socket: an error thrown by \<open>_handler\<close> becomes an
  \<open>error\<close> event.\<close>

definition on_message :: "env \<Rightarrow> server \<Rightarrow> bytes \<Rightarrow> rinfo \<Rightarrow> server" where
  "on_message env s msg r =
     (case handler env s msg r of
        (Inl e, s1) \<Rightarrow> emit s1 (ErrorEvent e)
      | (Inr _, s1) \<Rightarrow> s1)"

text \<open>Running the callback of a timer, which removes the timer.  The timeout arm of
  \<open>ping\<close> deletes the request under its \<open>rkey\<close> and rejects its deferred.\<close>

definition run_timer :: "server \<Rightarrow> timer \<Rightarrow> server" where
  "run_timer s t =
     (let s1 = s\<lparr>timers := filter (\<lambda>t'. t' \<noteq> t) (timers s)\<rparr>
      in case action t of
           PingTimeout rkey deferred p \<Rightarrow>
             reject (s1\<lparr>requests := (requests s1)(rkey := None)\<rparr>) deferred
               (Error (''Timeout error: ping '' @ address p @ '':'' @ show_port (udpPort p)))
         | EmitPeers ps \<Rightarrow> emit s1 (PeersEvent ps))"

subsection \<open>The event loop\<close>

text \<open>
  What can happen to a server: time passes; a timer that is due fires; the socket delivers
  a datagram to the \<open>message\<close> listener; the owner calls \<open>ping\<close>, \<open>findneighbours\<close> or
  \<open>destroy\<close>.  A timer never fires before it is due.  The listener stays on the socket
  that \<open>createSocket\<close> supplied and \<open>_handler\<close> does not check that the server is alive, so
  a datagram may also reach a destroyed server.
\<close>

inductive step :: "env \<Rightarrow> server \<Rightarrow> server \<Rightarrow> bool" for env :: env where
  step_tick: "step env s (s\<lparr>now := now s + d\<rparr>)"
| step_timer: "t \<in> set (timers s) \<Longrightarrow> due t \<le> now s \<Longrightarrow> step env s (run_timer s t)"
| step_message: "step env s (on_message env s msg r)"
| step_ping: "step env s (snd (ping env s p))"
| step_findneighbours: "step env s (snd (findneighbours env s p ident))"
| step_destroy: "step env s (snd (destroy s))"

text \<open>
  The same happenings as actions, and the run of a list of them: \<open>Fire t\<close> runs the timer
  \<open>t\<close> if it is armed and due and does nothing otherwise.
\<close>

datatype action =
    Wait nat
  | Fire timer
  | Deliver bytes rinfo
  | CallPing peer
  | CallFindNeighbours peer bytes
  | CallDestroy

fun perform :: "env \<Rightarrow> server \<Rightarrow> action \<Rightarrow> server" where
  "perform env s (Wait d) = s\<lparr>now := now s + d\<rparr>"
| "perform env s (Fire t) = (if t \<in> set (timers s) \<and> due t \<le> now s then run_timer s t else s)"
| "perform env s (Deliver msg r) = on_message env s msg r"
| "perform env s (CallPing p) = snd (ping env s p)"
| "perform env s (CallFindNeighbours p ident) = snd (findneighbours env s p ident)"
| "perform env s CallDestroy = snd (destroy s)"

definition run :: "env \<Rightarrow> server \<Rightarrow> action list \<Rightarrow> server" where
  "run env s acts = foldl (perform env) s acts"

section \<open>Notions used by the properties\<close>

subsection \<open>Assumptions on the library primitives\<close>

text \<open>SHA-256, Keccak-256 and HMAC-SHA-256 give 32 bytes.\<close>

definition digest_lengths :: "crypto \<Rightarrow> bool" where
  "digest_lengths c \<longleftrightarrow>
     (\<forall>x. length (sha256 c x) = 32) \<and>
     (\<forall>x. length (keccak c x) = 32) \<and>
     (\<forall>k x. length (hmac_sha256 c k x) = 32)"

text \<open>
  The facts about secp256k1 that the handshake rests on, for private keys accepted by
  \<open>privateKeyVerify\<close>: the uncompressed public key has 65 bytes and starts with \<open>0x04\<close>;
  ECDH gives both parties the same 33-byte compressed point; a signature of a 32-byte
  message has 64 bytes and the signer's public key is recovered from it.
\<close>

definition secp256k1_laws :: "crypto \<Rightarrow> bool" where
  "secp256k1_laws c \<longleftrightarrow>
     (\<forall>k. privateKeyVerify c k \<longrightarrow>
        (\<exists>p. publicKeyCreate c k = Some p \<and> length p = 65 \<and> hd p = 0x04)) \<and>
     (\<forall>a b pa pb. privateKeyVerify c a \<and> privateKeyVerify c b \<and>
        publicKeyCreate c a = Some pa \<and> publicKeyCreate c b = Some pb \<longrightarrow>
        (\<exists>z. length z = 33 \<and> ecdhUnsafe c pa b = Some z \<and> ecdhUnsafe c pb a = Some z)) \<and>
     (\<forall>k m. privateKeyVerify c k \<and> length m = 32 \<longrightarrow>
        (\<exists>sg r. sign c m k = Some (sg, r) \<and> length sg = 64 \<and>
           recover c m sg r = publicKeyCreate c k))"

subsection \<open>Two connected ECIES objects\<close>

text \<open>The receiver's ingress state is the sender's egress state.\<close>

definition mirrored :: "ecies \<Rightarrow> ecies \<Rightarrow> bool" where
  "mirrored sender receiver \<longleftrightarrow>
     egressAes sender \<noteq> None \<and> egressMac sender \<noteq> None \<and>
     ingressAes receiver = egressAes sender \<and> ingressMac receiver = egressMac sender"

text \<open>The handshake over an in-memory channel: the initiator's auth goes to the
  responder, the responder's ack goes back.\<close>

definition handshake :: "crypto \<Rightarrow> ecies \<Rightarrow> ecies \<Rightarrow> bytes \<Rightarrow> bytes \<Rightarrow> bytes \<Rightarrow> bytes \<Rightarrow> error + (ecies \<times> ecies)" where
  "handshake c initiator responder rnd_key1 rnd_IV1 rnd_key2 rnd_IV2 =
     (case createAuth c initiator rnd_key1 rnd_IV1 of
        (Inl e, _) \<Rightarrow> Inl e
      | (Inr auth, i1) \<Rightarrow>
     (case parseAuth c responder auth of
        (Inl e, _) \<Rightarrow> Inl e
      | (Inr _, r1) \<Rightarrow>
     (case createAck c r1 rnd_key2 rnd_IV2 of
        (Inl e, _) \<Rightarrow> Inl e
      | (Inr ack, r2) \<Rightarrow>
     (case parseAck c i1 ack of
        (Inl e, _) \<Rightarrow> Inl e
      | (Inr _, i2) \<Rightarrow> Inr (i2, r2)))))"

text \<open>Writing a frame (header, then body) and reading one.\<close>

definition sendFrame :: "crypto \<Rightarrow> ecies \<Rightarrow> bytes \<Rightarrow> (error + bytes \<times> bytes) \<times> ecies" where
  "sendFrame c st data =
     (case createHeader c st (length data) of
        (Inl e, st1) \<Rightarrow> (Inl e, st1)
      | (Inr hdr, st1) \<Rightarrow>
     (case createBody c st1 data of
        (Inl e, st2) \<Rightarrow> (Inl e, st2)
      | (Inr bdy, st2) \<Rightarrow> (Inr (hdr, bdy), st2)))"

definition recvFrame :: "crypto \<Rightarrow> ecies \<Rightarrow> bytes \<times> bytes \<Rightarrow> (error + bytes) \<times> ecies" where
  "recvFrame c st frame =
     (case parseHeader c st (fst frame) of
        (Inl e, st1) \<Rightarrow> (Inl e, st1)
      | (Inr _, st1) \<Rightarrow> parseBody c st1 (snd frame))"

subsection \<open>Pings in a run\<close>

text \<open>
  The log of the \<open>ping\<close> calls of a run: for each call the peer, what the call returned and
  the number of datagrams it handed to the socket.
\<close>

fun ping_log :: "env \<Rightarrow> server \<Rightarrow> action list \<Rightarrow> (peer \<times> (error + nat) \<times> nat) list" where
  "ping_log env s [] = []"
| "ping_log env s (a # acts) =
     (case a of
        CallPing q \<Rightarrow>
          [(q, fst (ping env s q), length (sent (snd (ping env s q))) - length (sent s))]
      | _ \<Rightarrow> [])
     @ ping_log env (perform env s a) acts"

text \<open>The time that an action takes, and whether an action is a \<open>ping\<close> of an endpoint with
  another key than \<open>k\<close>.\<close>

fun wait_of :: "action \<Rightarrow> nat" where
  "wait_of (Wait d) = d"
| "wait_of _ = 0"

fun is_ping_of_other :: "string \<Rightarrow> action \<Rightarrow> bool" where
  "is_ping_of_other k (CallPing q) = (rckey_of q \<noteq> k)"
| "is_ping_of_other k _ = False"

text \<open>The number of entries of the dedup cache that were used more recently than the
  entry for the key \<open>k\<close>.\<close>

definition cache_rank :: "string \<Rightarrow> (string \<times> nat \<times> nat) list \<Rightarrow> nat" where
  "cache_rank k cache = length (takeWhile (\<lambda>e. fst e \<noteq> k) cache)"

subsection \<open>A small instance\<close>

text \<open>
  An instance of the primitives that satisfies the assumptions above (it has none of the
  security of the real ones): digests pad or cut their input to 32 bytes, a public key
  repeats the private key, ECDH is the XOR of the two private keys and a signature
  carries the key.
\<close>

definition toy_crypto :: crypto where
  "toy_crypto =
     \<lparr>sha256 = (\<lambda>x. take 32 (x @ replicate 32 0)),
      keccak = (\<lambda>x. take 32 (x @ replicate 32 0)),
      hmac_sha256 = (\<lambda>k x. take 32 (x @ replicate 32 0)),
      aes_ctr_keystream = (\<lambda>k iv i. of_nat i),
      aes256_ecb = (\<lambda>k b. b),
      privateKeyVerify = (\<lambda>k. length k = 32),
      publicKeyCreate = (\<lambda>k. if length k = 32 then Some (0x04 # k @ k) else None),
      ecdhUnsafe = (\<lambda>p k. if length p = 65 \<and> length k = 32
                            then Some (0x02 # xor_bytes (take 32 (drop 1 p)) k) else None),
      sign = (\<lambda>m k. if length m = 32 \<and> length k = 32 then Some (k @ m, 0) else None),
      recover = (\<lambda>m sg r. if length sg = 64 then Some (0x04 # take 32 sg @ take 32 sg) else None)\<rparr>"

text \<open>Example peers, datagrams and collaborators: every encoded datagram is 32 bytes
  \<open>0x01\<close> followed by one byte, \<open>[0x01]\<close> decodes to a ping and \<open>[0x02]\<close> to the pong that
  echoes the hash of an encoded datagram; the routing table is empty.\<close>

definition ex_peer :: peer where
  "ex_peer = \<lparr>peer_id = None, address = ''127.0.0.1'', udpPort = Some 30303, tcpPort = Some 30303\<rparr>"

definition ex_from :: peer where
  "ex_from = \<lparr>peer_id = None, address = ''10.0.0.1'', udpPort = Some 30301, tcpPort = None\<rparr>"

definition ex_from_null :: peer where
  "ex_from_null = \<lparr>peer_id = None, address = ''10.0.0.1'', udpPort = None, tcpPort = None\<rparr>"

definition ex_rinfo :: rinfo where
  "ex_rinfo = \<lparr>rinfo_address = ''10.0.0.1'', rinfo_port = 30301\<rparr>"

definition ex_pk :: bytes where
  "ex_pk = 0x04 # replicate 64 0x07"

definition ex_env :: env where
  "ex_env =
     \<lparr>encode = (\<lambda>d k. Some (replicate 32 0x01 @ [0x00])),
      decode = (\<lambda>msg.
         if msg = [0x01] then Some \<lparr>info_data = Ping 4 ex_from ex_peer, info_publicKey = ex_pk\<rparr>
         else if msg = [0x02] then Some \<lparr>info_data = Pong ex_peer (replicate 32 0x01), info_publicKey = ex_pk\<rparr>
         else if msg = [0x03] then Some \<lparr>info_data = Ping 4 ex_from_null ex_peer, info_publicKey = ex_pk\<rparr>
         else None),
      getPeer = (\<lambda>i. None),
      getClosestPeers = (\<lambda>i. [])\<rparr>"

definition ex_server :: server where
  "ex_server = Server_new (replicate 32 0x01) None None 0"

text \<open>An ECIES object in the state that a handshake leaves, with both directions keyed
  alike, so that it can read what it writes.\<close>

definition ex_ecies :: ecies where
  "ex_ecies =
     \<lparr>privateKey = replicate 32 0x01,
      publicKey = 0x04 # replicate 64 0x01,
      remotePublicKey = Some (0x04 # replicate 64 0x02),
      nonce = replicate 32 0x03,
      remoteNonce = Some (replicate 32 0x04),
      initMsg = Some [],
      remoteInitMsg = Some [],
      ingressAes = Some \<lparr>ckey = replicate 32 0x00, civ = replicate 16 0x00, cpos = 0\<rparr>,
      egressAes = Some \<lparr>ckey = replicate 32 0x00, civ = replicate 16 0x00, cpos = 0\<rparr>,
      ingressMac = Some \<lparr>secret = replicate 32 0x00, absorbed = []\<rparr>,
      egressMac = Some \<lparr>secret = replicate 32 0x00, absorbed = []\<rparr>,
      ephemeralPrivateKey = replicate 32 0x05,
      ephemeralPublicKey = 0x04 # replicate 64 0x05,
      remoteEphemeralPublicKey = Some (0x04 # replicate 64 0x06),
      ephemeralSharedSecret = Some (replicate 32 0x03),
      bodySize = None\<rparr>"

text \<open>The example server after a \<open>ping\<close> of the example peer, and after a \<open>destroy\<close>
  that follows it.\<close>

definition ex_pinged :: server where
  "ex_pinged = snd (ping ex_env ex_server ex_peer)"

definition ex_destroyed :: server where
  "ex_destroyed = snd (destroy ex_pinged)"


text \<open>The same environment with a codec whose \<open>encode\<close> throws.\<close>

definition ex_env_failing :: env where
  "ex_env_failing = ex_env\<lparr>encode := (\<lambda>d k. None)\<rparr>"

text \<open>A thousand other endpoints.\<close>

definition ex_other :: "nat \<Rightarrow> peer" where
  "ex_other i = \<lparr>peer_id = None, address = ''10.0.0.2'', udpPort = Some i, tcpPort = None\<rparr>"

definition ex_others :: "peer list" where
  "ex_others = map ex_other [1 ..< 1001]"

text \<open>The two ECIES objects of an example handshake, and the pair of them after it.\<close>

definition ex_initiator :: ecies where
  "ex_initiator =
     projr (ECIES_new toy_crypto (replicate 32 0x01)
              (pk2id (0x04 # replicate 32 0x01 @ replicate 32 0x01))
              (Some (pk2id (0x04 # replicate 32 0x02 @ replicate 32 0x02)))
              (replicate 32 0x03) (replicate 32 0x05))"

definition ex_responder :: ecies where
  "ex_responder =
     projr (ECIES_new toy_crypto (replicate 32 0x02)
              (pk2id (0x04 # replicate 32 0x02 @ replicate 32 0x02))
              None (replicate 32 0x04) (replicate 32 0x06))"

definition ex_established :: "ecies \<times> ecies" where
  "ex_established =
     projr (handshake toy_crypto ex_initiator ex_responder
              (replicate 32 0x07) (replicate 16 0x08) (replicate 32 0x09) (replicate 16 0x0a))"

section \<open>Lemmas\<close>

subsection \<open>Buffers\<close>


lemma slice_0_take: "slice 0 (int n) xs = take n xs"
  by (simp add: slice_def js_index_def Let_def min_def)

lemma slice_nonneg: "slice (int a) (int b) xs = take (b - a) (drop a xs)"
  by (auto simp add: slice_def js_index_def Let_def min_def)

lemma slice_from_nonneg: "slice_from (int a) xs = drop a xs"
  by (simp add: slice_from_def js_index_def min_def)

lemma nat_max_diff: "nat (max 0 (int a - int b)) = a - b"
  by (simp add: max_def nat_diff_distrib)

lemma slice_0_neg: "n > 0 \<Longrightarrow> slice 0 (- int n) xs = take (length xs - n) xs"
  by (auto simp add: slice_def js_index_def Let_def nat_max_diff)

lemma slice_from_neg: "n > 0 \<Longrightarrow> slice_from (- int n) xs = drop (length xs - n) xs"
  by (auto simp add: slice_from_def js_index_def nat_max_diff)

lemma slice_pos_neg: "n > 0 \<Longrightarrow> slice (int a) (- int n) xs = take (length xs - n - a) (drop a xs)"
  by (auto simp add: slice_def js_index_def Let_def min_def nat_max_diff)

lemma xor_bytes_cancel: "length ks \<ge> length d \<Longrightarrow> map2 (XOR) (map2 (XOR) d ks) ks = d"
proof (induction d arbitrary: ks)
  case Nil then show ?case by simp
next
  case (Cons x d)
  then show ?case by (cases ks) (auto simp: xor.assoc)
qed

lemma cipher_update_length: "length (fst (cipher_update c a d)) = length d"
  by (simp add: cipher_update_def)

lemma cipher_update_snd: "snd (cipher_update c a d) = a\<lparr>cpos := cpos a + length d\<rparr>"
  by (simp add: cipher_update_def)

lemma cipher_update_inverse:
  "fst (cipher_update c a (fst (cipher_update c a d))) = d"
  by (simp add: cipher_update_def xor_bytes_cancel)

lemma bufferToInt_append: "bufferToInt (xs @ [b]) = bufferToInt xs * 256 + unat b"
  by (simp add: bufferToInt_def)

lemma bufferToInt_be_bytes: "bufferToInt (be_bytes k n) = n mod 256 ^ k"
proof (induction k arbitrary: n)
  case 0 then show ?case by (simp add: bufferToInt_def)
next
  case (Suc k)
  have "unat (of_nat (n mod 256) :: byte) = n mod 256"
    by (simp add: unat_of_nat)
  then show ?case
    by (simp add: bufferToInt_append Suc mod_mult2_eq)
qed

lemma length_be_bytes: "length (be_bytes k n) = k"
  by (induction k arbitrary: n) auto

lemma be_bytes_0: "be_bytes k 0 = replicate k 0"
  by (induction k) (auto simp: replicate_append_same)

lemma be_bytes_intToBuffer:
  "be_bytes (length (intToBuffer n) + j) n = replicate j 0 @ intToBuffer n"
proof (induction n rule: intToBuffer.induct)
  case (1 n)
  show ?case
  proof (cases "n < 256")
    case True
    then show ?thesis by (simp add: be_bytes_0 intToBuffer.simps [of n])
  next
    case False
    have "intToBuffer n = intToBuffer (n div 256) @ [of_nat (n mod 256)]"
      using False by (subst intToBuffer.simps) simp
    then show ?thesis using 1 [OF False] by simp
  qed
qed

lemma length_intToBuffer: "n < 256 ^ Suc k \<Longrightarrow> length (intToBuffer n) \<le> Suc k"
proof (induction k arbitrary: n)
  case 0
  then show ?case by (simp add: intToBuffer.simps [of n])
next
  case (Suc k)
  show ?case
  proof (cases "n < 256")
    case True
    then show ?thesis by (simp add: intToBuffer.simps [of n])
  next
    case False
    have "n div 256 < 256 ^ Suc k" using Suc.prems by (simp add: less_mult_imp_div_less)
    then have "length (intToBuffer (n div 256)) \<le> Suc k" by (rule Suc.IH)
    moreover have "intToBuffer n = intToBuffer (n div 256) @ [of_nat (n mod 256)]"
      using False by (subst intToBuffer.simps) simp
    ultimately show ?thesis by simp
  qed
qed

lemma intToBuffer_be: 
  assumes "n < 256 ^ Suc k" 
  shows "zfill (intToBuffer n) (Suc k) True = be_bytes (Suc k) n"
proof -
  have le: "length (intToBuffer n) \<le> Suc k" using assms by (rule length_intToBuffer)
  have "be_bytes (length (intToBuffer n) + (Suc k - length (intToBuffer n))) n
        = replicate (Suc k - length (intToBuffer n)) 0 @ intToBuffer n"
    by (rule be_bytes_intToBuffer)
  then have "be_bytes (Suc k) n = replicate (Suc k - length (intToBuffer n)) 0 @ intToBuffer n"
    using le by simp
  then show ?thesis using le by (auto simp: zfill_def Let_def)
qed

lemma header_size_roundtrip:
  assumes "n < 2 ^ 24"
  shows "bufferToInt (take 3 (zfill (zfill (intToBuffer n) 3 True @ rlp_encode_0_0) 16 False)) = n"
proof -
  have "n < 256 ^ Suc 2" using assms by simp
  then have a: "zfill (intToBuffer n) (Suc 2) True = be_bytes (Suc 2) n" by (rule intToBuffer_be)
  have t: "(3::nat) = Suc 2" by simp
  have "take 3 (zfill (be_bytes 3 n @ rlp_encode_0_0) 16 False) = be_bytes 3 n"
    by (simp add: zfill_def Let_def length_be_bytes)
  then show ?thesis using a assms by (simp add: t [symmetric] bufferToInt_be_bytes)
qed


lemma length_MAC_digest: "length (keccak c (absorbed m)) \<ge> 16 \<Longrightarrow> length (MAC_digest c m) = 16"
  using slice_0_take [of 16 "keccak c (absorbed m)"] by (simp add: MAC_digest_def)

lemma slice_0_16_append: "length h = 16 \<Longrightarrow> slice 0 16 (h @ t) = h"
  using slice_0_take [of 16 "h @ t"] by simp

lemma slice_16_32_append: "length h = 16 \<Longrightarrow> length t = 16 \<Longrightarrow> slice 16 32 (h @ t) = t"
  using slice_nonneg [of 16 32 "h @ t"] by simp

lemma slice_0_m16_append: "length t = 16 \<Longrightarrow> slice 0 (- 16) (b @ t) = b"
  using slice_0_neg [of 16 "b @ t"] by simp

lemma slice_from_m16_append: "length t = 16 \<Longrightarrow> slice_from (- 16) (b @ t) = t"
  using slice_from_neg [of 16 "b @ t"] by simp

lemma header_roundtrip:
  assumes k: "\<forall>x. length (keccak c x) = 32"
      and m: "mirrored S R"
      and n: "n < 2 ^ 24"
  shows "\<exists>hdr S1 R1. createHeader c S n = (Inr hdr, S1) \<and> length hdr = 32 \<and>
           parseHeader c R hdr = (Inr n, R1) \<and> bodySize R1 = Some n \<and> mirrored S1 R1
           \<and> ingressAes S1 = ingressAes S \<and> ingressMac S1 = ingressMac S
           \<and> egressAes R1 = egressAes R \<and> egressMac R1 = egressMac R"
proof -
  from m obtain a mc where a: "egressAes S = Some a" "ingressAes R = Some a"
    and mc: "egressMac S = Some mc" "ingressMac R = Some mc"
    by (auto simp: mirrored_def)
  define h0 where "h0 = zfill (zfill (intToBuffer n) 3 True @ rlp_encode_0_0) 16 False"
  define h1 where "h1 = fst (cipher_update c a h0)"
  define a' where "a' = snd (cipher_update c a h0)"
  define m' where "m' = MAC_updateHeader c mc h1"
  define tag where "tag = MAC_digest c m'"
  have l0: "length h0 = 16"
    using intToBuffer_be [of n 2] n
    by (simp add: h0_def zfill_def [of _ 16] Let_def length_be_bytes rlp_encode_0_0_def numeral_3_eq_3)
  have l1: "length h1 = 16" by (simp add: h1_def cipher_update_length l0)
  have lt: "length tag = 16" by (simp add: tag_def length_MAC_digest k)
  have cu: "cipher_update c a h0 = (h1, a')" by (simp add: h1_def a'_def)
  have a'_eq: "a' = a\<lparr>cpos := cpos a + 16\<rparr>" by (simp add: a'_def cipher_update_snd l0)
  have cu2: "cipher_update c a h1 = (h0, a')"
    using cipher_update_inverse [of c a h0] cipher_update_snd [of c a h1]
    by (simp add: h1_def [symmetric] l1 a'_eq prod_eq_iff)
  have sz: "bufferToInt (slice 0 3 h0) = n"
    using header_size_roundtrip [OF n] slice_0_take [of 3 h0] by (simp add: h0_def)
  have ch: "createHeader c S n = (Inr (h1 @ tag), S\<lparr>egressAes := Some a', egressMac := Some m'\<rparr>)"
    by (simp add: createHeader_def Let_def a mc cu h0_def [symmetric] m'_def tag_def)
  have ph: "parseHeader c R (h1 @ tag) = (Inr n, R\<lparr>ingressMac := Some m', ingressAes := Some a', bodySize := Some n\<rparr>)"
    by (simp add: parseHeader_def Let_def a mc slice_0_16_append l1 lt slice_16_32_append
          m'_def [symmetric] tag_def [symmetric] assertEq_def cu2 sz)
  show ?thesis
    using ch ph by (simp add: mirrored_def l1 lt)
qed

lemma body_roundtrip:
  assumes k: "\<forall>x. length (keccak c x) = 32"
      and m: "mirrored S R"
      and b: "bodySize R = Some (length data)"
  shows "\<exists>bdy S1 R1. createBody c S data = (Inr bdy, S1) \<and>
           length bdy = ((length data + 15) div 16) * 16 + 16 \<and>
           parseBody c R bdy = (Inr data, R1) \<and> bodySize R1 = None \<and> mirrored S1 R1
           \<and> ingressAes S1 = ingressAes S \<and> ingressMac S1 = ingressMac S
           \<and> egressAes R1 = egressAes R \<and> egressMac R1 = egressMac R"
proof -
  from m obtain a mc where a: "egressAes S = Some a" "ingressAes R = Some a"
    and mc: "egressMac S = Some mc" "ingressMac R = Some mc"
    by (auto simp: mirrored_def)
  define d0 where "d0 = zfill data (((length data + 15) div 16) * 16) False"
  define d1 where "d1 = fst (cipher_update c a d0)"
  define a' where "a' = snd (cipher_update c a d0)"
  define m' where "m' = MAC_updateBody c mc d1"
  define tag where "tag = MAC_digest c m'"
  have le: "length data \<le> ((length data + 15) div 16) * 16" by arith
  have l0: "length d0 = ((length data + 15) div 16) * 16"
    using le by (auto simp: d0_def zfill_def Let_def)
  have tk: "take (length data) d0 = data"
    by (auto simp: d0_def zfill_def Let_def)
  have l1: "length d1 = length d0" by (simp add: d1_def cipher_update_length)
  have lt: "length tag = 16" by (simp add: tag_def length_MAC_digest k)
  have cu: "cipher_update c a d0 = (d1, a')" by (simp add: d1_def a'_def)
  have a'_eq: "a' = a\<lparr>cpos := cpos a + length d0\<rparr>" by (simp add: a'_def cipher_update_snd)
  have cu2: "cipher_update c a d1 = (d0, a')"
    using cipher_update_inverse [of c a d0] cipher_update_snd [of c a d1]
    by (simp add: d1_def [symmetric] l1 a'_eq prod_eq_iff)
  have cb: "createBody c S data = (Inr (d1 @ tag), S\<lparr>egressAes := Some a', egressMac := Some m'\<rparr>)"
    by (simp add: createBody_def Let_def a mc cu d0_def [symmetric] m'_def tag_def)
  have pb: "parseBody c R (d1 @ tag) = (Inr data, R\<lparr>ingressMac := Some m', bodySize := None, ingressAes := Some a'\<rparr>)"
    by (simp add: parseBody_def Let_def a mc b slice_0_m16_append lt slice_from_m16_append
          m'_def [symmetric] tag_def [symmetric] assertEq_def cu2 slice_0_take tk)
  show ?thesis
    using cb pb by (simp add: mirrored_def l1 lt l0)
qed

lemma be_bytes_4:
  "be_bytes 4 n = [of_nat (n div 256 div 256 div 256 mod 256), of_nat (n div 256 div 256 mod 256),
                   of_nat (n div 256 mod 256), of_nat (n mod 256)]"
proof -
  have "(4::nat) = Suc (Suc (Suc (Suc 0)))" by simp
  then show ?thesis by (simp only: be_bytes.simps append.simps)
qed

lemma writeUInt32BE_1: "writeUInt32BE (Suc 0) = Inr [0, 0, 0, 1]"
  by (simp add: writeUInt32BE_def be_bytes_4)

lemma concatKDF_loop_32:
  "concatKDF_loop c Z (of_nat ((32 + 7) * 8) / of_nat (64 * 8)) 0 [] = Inr [sha256 c ([0, 0, 0, 1] @ Z)]"
  by (simp add: concatKDF_loop.simps [of c Z _ 0] concatKDF_loop.simps [of c Z _ "Suc 0"] writeUInt32BE_1)

lemma concatKDF_32: "concatKDF c Z 32 = Inr (take 32 (sha256 c ([0, 0, 0, 1] @ Z)))"
  unfolding concatKDF_def Let_def
  by (simp only: concatKDF_loop_32 sum.case slice_0_take concat.simps append_Nil2)

subsection \<open>The small instance\<close>

lemma toy_keccak_length: "length (keccak toy_crypto x) = 32"
  by (simp add: toy_crypto_def)

lemma toy_sha256_length: "length (sha256 toy_crypto x) = 32"
  by (simp add: toy_crypto_def)

lemma mirrored_ex_ecies: "mirrored ex_ecies ex_ecies"
  by (simp add: mirrored_def ex_ecies_def)

subsection \<open>The key derivation function\<close>

text \<open>
  Claim C6.  For every input \<open>Z\<close> (in particular every 32-byte one, and 32 zero bytes),
  \<open>concatKDF(Z, 32)\<close> is \<open>SHA256(0x00000001 || Z)\<close>: for a key length of 32 the loop makes
  exactly one SHA-256 round, with the counter 1 written big-endian before the key material,
  and the result is cut to 32 bytes, which is the whole SHA-256 digest.
\<close>

theorem concatKDF_one_round:
  "concatKDF_loop c Z (of_nat ((32 + 7) * 8) / of_nat (64 * 8)) 0 [] = Inr [sha256 c ([0, 0, 0, 1] @ Z)]
   \<and> concatKDF c Z 32 = Inr (take 32 (sha256 c ([0, 0, 0, 1] @ Z)))
   \<and> (length (sha256 c ([0, 0, 0, 1] @ Z)) = 32 \<longrightarrow>
        concatKDF c Z 32 = Inr (sha256 c ([0, 0, 0, 1] @ Z)))"
  by (simp only: concatKDF_loop_32 concatKDF_32) simp

theorem concatKDF_one_round_witness:
  "length (sha256 toy_crypto ([0, 0, 0, 1] @ replicate 32 0)) = 32
   \<and> concatKDF toy_crypto (replicate 32 0) 32 = Inr (sha256 toy_crypto ([0, 0, 0, 1] @ replicate 32 0))"
  using concatKDF_one_round [of toy_crypto "replicate 32 0"] toy_sha256_length
  by blast

subsection \<open>Frames\<close>

text \<open>
  Claim C2.  For every \<open>data\<close> of at most \<open>2^24 - 1\<close> bytes (the empty one and those whose
  length is a multiple of 16 included, where the body gets no padding) and every mirrored
  pair of frame states, \<open>parseHeader\<close> of the output of \<open>createHeader(data.length)\<close> returns
  \<open>data.length\<close>, and \<open>parseBody\<close> of the output of \<open>createBody(data)\<close> returns exactly
  \<open>data\<close>; the two states are mirrored again afterwards.
\<close>

theorem frame_roundtrip:
  assumes "\<forall>x. length (keccak c x) = 32"
      and "mirrored S R"
      and "length data < 2 ^ 24"
  shows "\<exists>hdr S1 R1 bdy S2 R2.
           createHeader c S (length data) = (Inr hdr, S1) \<and>
           parseHeader c R hdr = (Inr (length data), R1) \<and>
           createBody c S1 data = (Inr bdy, S2) \<and>
           length bdy = ((length data + 15) div 16) * 16 + 16 \<and>
           (16 dvd length data \<longrightarrow> length bdy = length data + 16) \<and>
           parseBody c R1 bdy = (Inr data, R2) \<and>
           mirrored S2 R2"
proof -
  from header_roundtrip [OF assms]
  obtain hdr S1 R1 where h: "createHeader c S (length data) = (Inr hdr, S1)"
    "parseHeader c R hdr = (Inr (length data), R1)" "bodySize R1 = Some (length data)"
    "mirrored S1 R1"
    by blast
  from body_roundtrip [OF assms(1) h(4) h(3)]
  obtain bdy S2 R2 where b: "createBody c S1 data = (Inr bdy, S2)"
    "length bdy = ((length data + 15) div 16) * 16 + 16"
    "parseBody c R1 bdy = (Inr data, R2)" "mirrored S2 R2"
    by blast
  have "16 dvd length data \<longrightarrow> length bdy = length data + 16"
    using b(2) by (auto simp: dvd_def)
  with h b show ?thesis by blast
qed

theorem frame_roundtrip_witness:
  "(\<forall>x. length (keccak toy_crypto x) = 32) \<and> mirrored ex_ecies ex_ecies \<and>
   length ([1, 2, 3] :: bytes) < 2 ^ 24 \<and>
   (\<exists>hdr S1 R1 bdy S2 R2.
      createHeader toy_crypto ex_ecies (length ([1, 2, 3] :: bytes)) = (Inr hdr, S1) \<and>
      parseHeader toy_crypto ex_ecies hdr = (Inr 3, R1) \<and>
      createBody toy_crypto S1 [1, 2, 3] = (Inr bdy, S2) \<and>
      length bdy = 32 \<and>
      parseBody toy_crypto R1 bdy = (Inr [1, 2, 3], R2))"
proof -
  have k: "\<forall>x. length (keccak toy_crypto x) = 32" by (simp add: toy_keccak_length)
  have l: "length ([1, 2, 3] :: bytes) < 2 ^ 24" by simp
  from frame_roundtrip [OF k mirrored_ex_ecies l] k mirrored_ex_ecies l
  show ?thesis by auto
qed

lemma parseBody_no_header:
  "bodySize st = None \<Longrightarrow> parseBody c st d = (Inl (Error ''need to parse header first''), st)"
  by (simp add: parseBody_def)

lemma parseBody_ok_clears:
  "parseBody c st d = (Inr x, st') \<Longrightarrow> bodySize st' = None"
  by (auto simp: parseBody_def Let_def assertEq_def split: option.splits if_splits prod.splits)

lemma parseHeader_fail_bodySize:
  "parseHeader c st h = (Inl e, st') \<Longrightarrow> bodySize st' = bodySize st"
  by (auto simp: parseHeader_def Let_def assertEq_def split: option.splits if_splits prod.splits)

lemma parseBody_fail_bodySize_None:
  "bodySize st = None \<Longrightarrow> bodySize (snd (parseBody c st d)) = None"
  by (simp add: parseBody_no_header)

text \<open>
  Claim C9, as the code has it.  \<open>parseBody\<close> fails when no header has been parsed since
  the last body read (the pending body size is \<open>null\<close>), and every successful \<open>parseBody\<close>
  clears the pending body size, which a failing \<open>parseHeader\<close> leaves as it is.  So a
  \<open>parseBody\<close> call that follows a successful \<open>parseBody\<close>, with no successful \<open>parseHeader\<close>
  between them, always fails.  (A \<open>parseBody\<close> that failed on the MAC leaves the pending
  body size set, and the call after it is not refused for a missing header.)
\<close>

theorem parseBody_needs_header:
  "(bodySize st = None \<longrightarrow>
      parseBody c st d = (Inl (Error ''need to parse header first''), st))
   \<and> (\<forall>x st'. parseBody c st d = (Inr x, st') \<longrightarrow>
        bodySize st' = None \<and>
        parseBody c st' d' = (Inl (Error ''need to parse header first''), st') \<and>
        (\<forall>h e st''. parseHeader c st' h = (Inl e, st'') \<longrightarrow>
           parseBody c st'' d' = (Inl (Error ''need to parse header first''), st'')))"
  using parseBody_no_header parseBody_ok_clears parseHeader_fail_bodySize
  by metis

lemma ex_parseBody_ok:
  "parseBody toy_crypto (ex_ecies\<lparr>bodySize := Some 2\<rparr>) (replicate 32 0x05)
     = (Inr [5, 4], ex_ecies\<lparr>ingressMac := Some \<lparr>secret = replicate 32 0x00, absorbed = replicate 16 5 @ replicate 16 0\<rparr>,
           bodySize := None,
           ingressAes := Some \<lparr>ckey = replicate 32 0x00, civ = replicate 16 0x00, cpos = 16\<rparr>\<rparr>)"
  by code_simp


theorem parseBody_needs_header_witness:
  "bodySize ex_ecies = None
   \<and> parseBody toy_crypto ex_ecies [] = (Inl (Error ''need to parse header first''), ex_ecies)
   \<and> (\<exists>st'. parseBody toy_crypto (ex_ecies\<lparr>bodySize := Some 2\<rparr>) (replicate 32 0x05) = (Inr [5, 4], st')
         \<and> bodySize st' = None
         \<and> parseBody toy_crypto st' (replicate 32 0x05) = (Inl (Error ''need to parse header first''), st'))"
proof -
  have n: "bodySize ex_ecies = None" by (simp add: ex_ecies_def)
  from parseBody_needs_header [of ex_ecies toy_crypto "[]" "[]"] n
  have a: "parseBody toy_crypto ex_ecies [] = (Inl (Error ''need to parse header first''), ex_ecies)"
    by blast
  from parseBody_needs_header [of "ex_ecies\<lparr>bodySize := Some 2\<rparr>" toy_crypto "replicate 32 0x05" "replicate 32 0x05"]
    ex_parseBody_ok
  have "\<exists>st'. parseBody toy_crypto (ex_ecies\<lparr>bodySize := Some 2\<rparr>) (replicate 32 0x05) = (Inr [5, 4], st')
         \<and> bodySize st' = None
         \<and> parseBody toy_crypto st' (replicate 32 0x05) = (Inl (Error ''need to parse header first''), st')"
    by blast
  with n a show ?thesis by blast
qed

text \<open>After a \<open>parseBody\<close> that failed on the MAC the pending body size is still set, and a
  second \<open>parseBody\<close> whose tag fits the MAC chain is accepted: this holds for every
  instance of the primitives with a 32-byte Keccak digest.\<close>

lemma parseBody_after_invalid_mac:
  assumes k: "\<forall>x. length (keccak c x) = 32"
      and st: "bodySize st = Some n" "ingressMac st = Some m" "ingressAes st = Some a"
  shows "\<exists>d1 st1 d2 x st2.
           parseBody c st d1 = (Inl (Error ''Invalid MAC''), st1) \<and>
           parseBody c st1 d2 = (Inr x, st2)"
proof -
  define m1 where "m1 = MAC_updateBody c m []"
  define good where "good = MAC_digest c m1"
  define bad where "bad = map (\<lambda>b. b + 1) good"
  define m2 where "m2 = MAC_updateBody c m1 []"
  define tag2 where "tag2 = MAC_digest c m2"
  have lg: "length good = 16" by (simp add: good_def length_MAC_digest k)
  have lb: "length bad = 16" by (simp add: bad_def lg)
  have l2: "length tag2 = 16" by (simp add: tag2_def length_MAC_digest k)
  have ne: "good \<noteq> bad"
  proof
    assume "good = bad"
    then have "hd good = hd bad" by simp
    moreover have "good \<noteq> []" using lg by auto
    ultimately show False by (cases good) (simp_all add: bad_def)
  qed
  have b1: "slice 0 (- 16) bad = []" using slice_0_m16_append [of bad "[]"] lb by simp
  have t1: "slice_from (- 16) bad = bad" using slice_from_m16_append [of bad "[]"] lb by simp
  have b2: "slice 0 (- 16) tag2 = []" using slice_0_m16_append [of tag2 "[]"] l2 by simp
  have t2: "slice_from (- 16) tag2 = tag2" using slice_from_m16_append [of tag2 "[]"] l2 by simp
  have p1: "parseBody c st bad = (Inl (Error ''Invalid MAC''), st\<lparr>ingressMac := Some m1\<rparr>)"
    using ne by (simp add: parseBody_def st Let_def b1 t1 m1_def [symmetric] good_def [symmetric] assertEq_def)
  have p2: "\<exists>x st2. parseBody c (st\<lparr>ingressMac := Some m1\<rparr>) tag2 = (Inr x, st2)"
    by (simp add: parseBody_def st Let_def b2 t2 m2_def [symmetric] tag2_def [symmetric] assertEq_def
        split: prod.splits)
  from p1 p2 show ?thesis by blast
qed

text \<open>The claim as stated fails: with a pending body size of 2, a first \<open>parseBody\<close> fails
  on the MAC and a second \<open>parseBody\<close>, with no \<open>parseHeader\<close> between them, returns a body.\<close>

theorem second_parseBody_succeeds:
  "bodySize (ex_ecies\<lparr>bodySize := Some 2\<rparr>) = Some 2 \<and>
   fst (parseBody toy_crypto (ex_ecies\<lparr>bodySize := Some 2\<rparr>) (replicate 16 0x05 @ replicate 16 0x09))
     = Inl (Error ''Invalid MAC'') \<and>
   fst (parseBody toy_crypto
          (snd (parseBody toy_crypto (ex_ecies\<lparr>bodySize := Some 2\<rparr>) (replicate 16 0x05 @ replicate 16 0x09)))
          (replicate 16 0x07 @ replicate 16 0x05))
     = Inr [7, 6]"
  by (intro conjI) code_simp+

lemma parseHeader_mismatch_throws:
  assumes "ingressMac st = Some m"
      and "MAC_digest c (MAC_updateHeader c m (slice 0 16 d)) \<noteq> slice 16 32 d"
  shows "parseHeader c st d =
           (Inl (Error ''Invalid MAC''), st\<lparr>ingressMac := Some (MAC_updateHeader c m (slice 0 16 d))\<rparr>)"
  using assms by (simp add: parseHeader_def Let_def assertEq_def)

lemma parseBody_mismatch_throws:
  assumes "bodySize st = Some n" and "ingressMac st = Some m"
      and "MAC_digest c (MAC_updateBody c m (slice 0 (- 16) d)) \<noteq> slice_from (- 16) d"
  shows "parseBody c st d =
           (Inl (Error ''Invalid MAC''), st\<lparr>ingressMac := Some (MAC_updateBody c m (slice 0 (- 16) d))\<rparr>)"
  using assms by (simp add: parseBody_def Let_def assertEq_def)

lemma parseHeader_invalid_mac:
  "parseHeader c st d = (Inl (Error ''Invalid MAC''), st') \<Longrightarrow>
     \<exists>m. ingressMac st = Some m \<and>
         MAC_digest c (MAC_updateHeader c m (slice 0 16 d)) \<noteq> slice 16 32 d \<and>
         st' = st\<lparr>ingressMac := Some (MAC_updateHeader c m (slice 0 16 d))\<rparr>"
  by (auto simp: parseHeader_def Let_def assertEq_def split: option.splits if_splits prod.splits)

lemma parseBody_invalid_mac:
  "parseBody c st d = (Inl (Error ''Invalid MAC''), st') \<Longrightarrow>
     \<exists>m. ingressMac st = Some m \<and>
         MAC_digest c (MAC_updateBody c m (slice 0 (- 16) d)) \<noteq> slice_from (- 16) d \<and>
         st' = st\<lparr>ingressMac := Some (MAC_updateBody c m (slice 0 (- 16) d))\<rparr>"
  by (auto simp: parseBody_def Let_def assertEq_def split: option.splits if_splits prod.splits)

text \<open>
  Claim C10.  In \<open>parseHeader\<close> and in \<open>parseBody\<close> (on an object that has its ingress MAC
  and, for \<open>parseBody\<close>, a pending body size), when the tag computed by the ingress MAC
  differs from the tag received, the function throws \<open>Invalid MAC\<close> before
  \<open>ingressAes.update\<close> is called and before the pending body size is modified: the object is
  as before the call, except that the ingress MAC has absorbed the offending ciphertext.
  The error \<open>Invalid MAC\<close> arises in no other way.
\<close>

theorem invalid_mac_frame_effect:
  "(\<forall>m. ingressMac st = Some m \<and>
        MAC_digest c (MAC_updateHeader c m (slice 0 16 d)) \<noteq> slice 16 32 d \<longrightarrow>
      parseHeader c st d =
        (Inl (Error ''Invalid MAC''), st\<lparr>ingressMac := Some (MAC_updateHeader c m (slice 0 16 d))\<rparr>) \<and>
      ingressAes (snd (parseHeader c st d)) = ingressAes st \<and>
      bodySize (snd (parseHeader c st d)) = bodySize st)
   \<and> (\<forall>m n. bodySize st = Some n \<and> ingressMac st = Some m \<and>
        MAC_digest c (MAC_updateBody c m (slice 0 (- 16) d)) \<noteq> slice_from (- 16) d \<longrightarrow>
      parseBody c st d =
        (Inl (Error ''Invalid MAC''), st\<lparr>ingressMac := Some (MAC_updateBody c m (slice 0 (- 16) d))\<rparr>) \<and>
      ingressAes (snd (parseBody c st d)) = ingressAes st \<and>
      bodySize (snd (parseBody c st d)) = bodySize st)
   \<and> (\<forall>st'. parseHeader c st d = (Inl (Error ''Invalid MAC''), st') \<longrightarrow>
      (\<exists>m. ingressMac st = Some m \<and>
           MAC_digest c (MAC_updateHeader c m (slice 0 16 d)) \<noteq> slice 16 32 d \<and>
           st' = st\<lparr>ingressMac := Some (MAC_updateHeader c m (slice 0 16 d))\<rparr>) \<and>
      ingressAes st' = ingressAes st \<and> bodySize st' = bodySize st)
   \<and> (\<forall>st'. parseBody c st d = (Inl (Error ''Invalid MAC''), st') \<longrightarrow>
      (\<exists>m. ingressMac st = Some m \<and>
           MAC_digest c (MAC_updateBody c m (slice 0 (- 16) d)) \<noteq> slice_from (- 16) d \<and>
           st' = st\<lparr>ingressMac := Some (MAC_updateBody c m (slice 0 (- 16) d))\<rparr>) \<and>
      ingressAes st' = ingressAes st \<and> bodySize st' = bodySize st)"
proof (intro conjI allI impI)
  fix m
  assume a: "ingressMac st = Some m \<and>
        MAC_digest c (MAC_updateHeader c m (slice 0 16 d)) \<noteq> slice 16 32 d"
  then have p: "parseHeader c st d =
        (Inl (Error ''Invalid MAC''), st\<lparr>ingressMac := Some (MAC_updateHeader c m (slice 0 16 d))\<rparr>)"
    by (simp add: parseHeader_mismatch_throws)
  show "parseHeader c st d =
        (Inl (Error ''Invalid MAC''), st\<lparr>ingressMac := Some (MAC_updateHeader c m (slice 0 16 d))\<rparr>)"
    by (rule p)
  show "ingressAes (snd (parseHeader c st d)) = ingressAes st"
    and "bodySize (snd (parseHeader c st d)) = bodySize st"
    by (simp_all add: p)
next
  fix m n
  assume a: "bodySize st = Some n \<and> ingressMac st = Some m \<and>
        MAC_digest c (MAC_updateBody c m (slice 0 (- 16) d)) \<noteq> slice_from (- 16) d"
  then have p: "parseBody c st d =
        (Inl (Error ''Invalid MAC''), st\<lparr>ingressMac := Some (MAC_updateBody c m (slice 0 (- 16) d))\<rparr>)"
    by (simp add: parseBody_mismatch_throws)
  show "parseBody c st d =
        (Inl (Error ''Invalid MAC''), st\<lparr>ingressMac := Some (MAC_updateBody c m (slice 0 (- 16) d))\<rparr>)"
    by (rule p)
  show "ingressAes (snd (parseBody c st d)) = ingressAes st"
    and "bodySize (snd (parseBody c st d)) = bodySize st"
    by (simp_all add: p)
next
  fix st' assume a: "parseHeader c st d = (Inl (Error ''Invalid MAC''), st')"
  from parseHeader_invalid_mac [OF a]
  show "\<exists>m. ingressMac st = Some m \<and>
           MAC_digest c (MAC_updateHeader c m (slice 0 16 d)) \<noteq> slice 16 32 d \<and>
           st' = st\<lparr>ingressMac := Some (MAC_updateHeader c m (slice 0 16 d))\<rparr>"
    and "ingressAes st' = ingressAes st" and "bodySize st' = bodySize st"
    by auto
next
  fix st' assume a: "parseBody c st d = (Inl (Error ''Invalid MAC''), st')"
  from parseBody_invalid_mac [OF a]
  show "\<exists>m. ingressMac st = Some m \<and>
           MAC_digest c (MAC_updateBody c m (slice 0 (- 16) d)) \<noteq> slice_from (- 16) d \<and>
           st' = st\<lparr>ingressMac := Some (MAC_updateBody c m (slice 0 (- 16) d))\<rparr>"
    and "ingressAes st' = ingressAes st" and "bodySize st' = bodySize st"
    by auto
qed

lemma ex_header_mismatch:
  "ingressMac ex_ecies = Some \<lparr>secret = replicate 32 0x00, absorbed = []\<rparr>"
  "MAC_digest toy_crypto (MAC_updateHeader toy_crypto \<lparr>secret = replicate 32 0x00, absorbed = []\<rparr>
      (slice 0 16 (replicate 16 0x05 @ replicate 16 0x09)))
     \<noteq> slice 16 32 (replicate 16 0x05 @ replicate 16 0x09)"
  "MAC_updateHeader toy_crypto \<lparr>secret = replicate 32 0x00, absorbed = []\<rparr>
      (slice 0 16 (replicate 16 0x05 @ replicate 16 0x09))
     = \<lparr>secret = replicate 32 0x00, absorbed = replicate 16 0x05\<rparr>"
  by code_simp+

lemma ex_body_mismatch:
  "bodySize (ex_ecies\<lparr>bodySize := Some 2\<rparr>) = Some 2"
  "ingressMac (ex_ecies\<lparr>bodySize := Some 2\<rparr>) = Some \<lparr>secret = replicate 32 0x00, absorbed = []\<rparr>"
  "MAC_digest toy_crypto (MAC_updateBody toy_crypto \<lparr>secret = replicate 32 0x00, absorbed = []\<rparr>
      (slice 0 (- 16) (replicate 16 0x05 @ replicate 16 0x09)))
     \<noteq> slice_from (- 16) (replicate 16 0x05 @ replicate 16 0x09)"
  "MAC_updateBody toy_crypto \<lparr>secret = replicate 32 0x00, absorbed = []\<rparr>
      (slice 0 (- 16) (replicate 16 0x05 @ replicate 16 0x09))
     = \<lparr>secret = replicate 32 0x00, absorbed = replicate 16 0x05 @ replicate 16 0x00\<rparr>"
  by code_simp+

theorem invalid_mac_frame_effect_witness:
  "ingressMac ex_ecies = Some \<lparr>secret = replicate 32 0x00, absorbed = []\<rparr> \<and>
   MAC_digest toy_crypto (MAC_updateHeader toy_crypto \<lparr>secret = replicate 32 0x00, absorbed = []\<rparr>
      (slice 0 16 (replicate 16 0x05 @ replicate 16 0x09)))
     \<noteq> slice 16 32 (replicate 16 0x05 @ replicate 16 0x09) \<and>
   parseHeader toy_crypto ex_ecies (replicate 16 0x05 @ replicate 16 0x09)
     = (Inl (Error ''Invalid MAC''),
        ex_ecies\<lparr>ingressMac := Some \<lparr>secret = replicate 32 0x00, absorbed = replicate 16 0x05\<rparr>\<rparr>) \<and>
   bodySize (ex_ecies\<lparr>bodySize := Some 2\<rparr>) = Some 2 \<and>
   MAC_digest toy_crypto (MAC_updateBody toy_crypto \<lparr>secret = replicate 32 0x00, absorbed = []\<rparr>
      (slice 0 (- 16) (replicate 16 0x05 @ replicate 16 0x09)))
     \<noteq> slice_from (- 16) (replicate 16 0x05 @ replicate 16 0x09) \<and>
   parseBody toy_crypto (ex_ecies\<lparr>bodySize := Some 2\<rparr>) (replicate 16 0x05 @ replicate 16 0x09)
     = (Inl (Error ''Invalid MAC''),
        ex_ecies\<lparr>bodySize := Some 2,
                 ingressMac := Some \<lparr>secret = replicate 32 0x00,
                                      absorbed = replicate 16 0x05 @ replicate 16 0x00\<rparr>\<rparr>) \<and>
   bodySize (snd (parseBody toy_crypto (ex_ecies\<lparr>bodySize := Some 2\<rparr>)
                    (replicate 16 0x05 @ replicate 16 0x09))) = Some 2"
proof -
  note t = invalid_mac_frame_effect [of "ex_ecies" toy_crypto "replicate 16 0x05 @ replicate 16 0x09"]
  from t ex_header_mismatch(1,2)
  have h: "parseHeader toy_crypto ex_ecies (replicate 16 0x05 @ replicate 16 0x09)
     = (Inl (Error ''Invalid MAC''),
        ex_ecies\<lparr>ingressMac := Some (MAC_updateHeader toy_crypto \<lparr>secret = replicate 32 0x00, absorbed = []\<rparr>
      (slice 0 16 (replicate 16 0x05 @ replicate 16 0x09)))\<rparr>)"
    by blast
  note u = invalid_mac_frame_effect [of "ex_ecies\<lparr>bodySize := Some 2\<rparr>" toy_crypto "replicate 16 0x05 @ replicate 16 0x09"]
  from u ex_body_mismatch(1,2,3)
  have b: "parseBody toy_crypto (ex_ecies\<lparr>bodySize := Some 2\<rparr>) (replicate 16 0x05 @ replicate 16 0x09)
     = (Inl (Error ''Invalid MAC''),
        ex_ecies\<lparr>bodySize := Some 2, ingressMac := Some (MAC_updateBody toy_crypto \<lparr>secret = replicate 32 0x00, absorbed = []\<rparr>
      (slice 0 (- 16) (replicate 16 0x05 @ replicate 16 0x09)))\<rparr>)"
    and b2: "bodySize (snd (parseBody toy_crypto (ex_ecies\<lparr>bodySize := Some 2\<rparr>)
                    (replicate 16 0x05 @ replicate 16 0x09))) = bodySize (ex_ecies\<lparr>bodySize := Some 2\<rparr>)"
    by blast+
  show ?thesis
    using h b b2 ex_header_mismatch ex_body_mismatch
    by (simp only: simp_thms)
qed

subsection \<open>ECIES messages\<close>

lemma slice_16_32: "slice 16 32 xs = take 16 (drop 16 xs)"
  using slice_nonneg [of 16 32 xs] by simp

lemma slice_0_16: "slice 0 16 xs = take 16 xs"
  using slice_0_take [of 16 xs] by simp

lemma slice_0_65_append: "length p = 65 \<Longrightarrow> slice 0 65 (p @ t) = p"
  using slice_0_take [of 65 "p @ t"] by simp

lemma slice_65_m32_append:
  "length p = 65 \<Longrightarrow> length t = 32 \<Longrightarrow> slice 65 (- 32) (p @ d @ t) = d"
  using slice_pos_neg [of 32 65 "p @ d @ t"] by simp

lemma slice_from_m32_append: "length t = 32 \<Longrightarrow> slice_from (- 32) (p @ d @ t) = t"
  using slice_from_neg [of 32 "p @ d @ t"] by simp

lemma slice_from_16_append: "length iv = 16 \<Longrightarrow> slice_from 16 (iv @ e) = e"
  using slice_from_nonneg [of 16 "iv @ e"] by simp

lemma slice_from_1: "slice_from 1 xs = drop 1 xs"
  using slice_from_nonneg [of 1 xs] by simp

lemma encryptMessage_eq:
  assumes x: "ecdhX c (remotePublicKey S) rk = Inr x"
      and p: "publicKeyCreate c rk = Some Rpub"
      and sl: "length (sha256 c ([0, 0, 0, 1] @ x)) = 32"
      and iv: "length IV = 16"
      and key: "key = sha256 c ([0, 0, 0, 1] @ x)"
  shows "encryptMessage c S rk IV data =
           Inr (Rpub @ (IV @ fst (cipher_update c \<lparr>ckey = take 16 key, civ = IV, cpos = 0\<rparr> data))
                  @ hmac_sha256 c (sha256 c (take 16 (drop 16 key)))
                      (IV @ fst (cipher_update c \<lparr>ckey = take 16 key, civ = IV, cpos = 0\<rparr> data)))"
  using sl iv
  by (simp add: encryptMessage_def x p concatKDF_32 key Let_def slice_0_16 slice_16_32 createCipheriv_def)

lemma decryptMessage_eq:
  assumes x: "ecdhX c (Some Rpub) (privateKey R) = Inr x"
      and pl: "length Rpub = 65"
      and sl: "length (sha256 c ([0, 0, 0, 1] @ x)) = 32"
      and iv: "length IV = 16"
      and key: "key = sha256 c ([0, 0, 0, 1] @ x)"
      and enc: "enc = fst (cipher_update c \<lparr>ckey = take 16 key, civ = IV, cpos = 0\<rparr> data)"
      and tag: "tag = hmac_sha256 c (sha256 c (take 16 (drop 16 key))) (IV @ enc)"
      and tl: "length tag = 32"
  shows "decryptMessage c R (Rpub @ (IV @ enc) @ tag) = Inr data"
proof -
  have a: "slice 0 65 (Rpub @ (IV @ enc) @ tag) = Rpub" using pl by (rule slice_0_65_append)
  have b: "slice 65 (- 32) (Rpub @ (IV @ enc) @ tag) = IV @ enc"
    using pl tl by (rule slice_65_m32_append)
  have d: "slice_from (- 32) (Rpub @ (IV @ enc) @ tag) = tag"
    using tl by (rule slice_from_m32_append)
  have e: "slice 0 16 (IV @ enc) = IV" using iv slice_0_16 [of "IV @ enc"] by simp
  have f: "slice_from 16 (IV @ enc) = enc" using iv by (rule slice_from_16_append)
  have g: "fst (cipher_update c \<lparr>ckey = take 16 key, civ = IV, cpos = 0\<rparr> enc) = data"
    unfolding enc by (rule cipher_update_inverse)
  show ?thesis
    unfolding decryptMessage_def Let_def a b d
    using sl iv tag g
    by (simp add: x concatKDF_32 key slice_0_16 slice_16_32
          assertEq_def e f createDecipheriv_def createCipheriv_def)
qed

lemma ecdhX_shared:
  assumes laws: "secp256k1_laws c"
      and "privateKeyVerify c a" "privateKeyVerify c b"
      and "publicKeyCreate c a = Some pa" "publicKeyCreate c b = Some pb"
  shows "\<exists>x. length x = 32 \<and> ecdhX c (Some pa) b = Inr x \<and> ecdhX c (Some pb) a = Inr x"
proof -
  from assms obtain z where z: "length z = 33" "ecdhUnsafe c pa b = Some z" "ecdhUnsafe c pb a = Some z"
    unfolding secp256k1_laws_def by blast
  then show ?thesis by (simp add: ecdhX_def slice_from_1)
qed

lemma publicKeyCreate_valid:
  assumes "secp256k1_laws c" "privateKeyVerify c k"
  shows "\<exists>p. publicKeyCreate c k = Some p \<and> length p = 65 \<and> hd p = 0x04"
  using assms unfolding secp256k1_laws_def by blast

lemma message_roundtrip:
  assumes dl: "digest_lengths c" and laws: "secp256k1_laws c"
      and priv: "privateKeyVerify c priv" and pub: "publicKeyCreate c priv = Some pub"
      and S: "remotePublicKey S = Some pub"
      and rk: "privateKeyVerify c rnd_key" and iv: "length rnd_IV = 16"
  shows "\<exists>Rpub C tag.
           encryptMessage c S rnd_key rnd_IV data = Inr (Rpub @ rnd_IV @ C @ tag) \<and>
           publicKeyCreate c rnd_key = Some Rpub \<and>
           length Rpub = 65 \<and> length C = length data \<and> length tag = 32 \<and>
           (\<forall>R. privateKey R = priv \<longrightarrow> decryptMessage c R (Rpub @ rnd_IV @ C @ tag) = Inr data)"
proof -
  from publicKeyCreate_valid [OF laws rk]
  obtain Rpub where Rpub: "publicKeyCreate c rnd_key = Some Rpub" "length Rpub = 65" by blast
  from ecdhX_shared [OF laws priv rk pub Rpub(1)]
  obtain x where x: "ecdhX c (Some pub) rnd_key = Inr x" "ecdhX c (Some Rpub) priv = Inr x" by blast
  define key where "key = sha256 c ([0, 0, 0, 1] @ x)"
  define C where "C = fst (cipher_update c \<lparr>ckey = take 16 key, civ = rnd_IV, cpos = 0\<rparr> data)"
  define tag where "tag = hmac_sha256 c (sha256 c (take 16 (drop 16 key))) (rnd_IV @ C)"
  have sl: "length (sha256 c ([0, 0, 0, 1] @ x)) = 32" using dl by (simp add: digest_lengths_def)
  have tl: "length tag = 32" using dl by (simp add: digest_lengths_def tag_def)
  have e: "encryptMessage c S rnd_key rnd_IV data = Inr (Rpub @ (rnd_IV @ C) @ tag)"
    unfolding C_def tag_def
    by (rule encryptMessage_eq [OF _ Rpub(1) sl iv key_def]) (simp add: S x)
  have d: "decryptMessage c R (Rpub @ (rnd_IV @ C) @ tag) = Inr data" if "privateKey R = priv" for R
    by (rule decryptMessage_eq [OF _ Rpub(2) sl iv key_def C_def tag_def tl]) (simp add: that x)
  have cl: "length C = length data" by (simp add: C_def cipher_update_length)
  from e d Rpub cl tl show ?thesis by auto
qed

subsection \<open>The handshake\<close>

lemma auth_fields:
  assumes "length sg = 64" "length h = 32" "length i = 64" "length n = 32"
  shows "length (sg @ r # h @ i @ n @ [z]) = 194"
    and "slice 0 64 (sg @ r # h @ i @ n @ [z]) = sg"
    and "(sg @ r # h @ i @ n @ [z]) ! 64 = r"
    and "slice 65 97 (sg @ r # h @ i @ n @ [z]) = h"
    and "slice 97 161 (sg @ r # h @ i @ n @ [z]) = i"
    and "slice 161 193 (sg @ r # h @ i @ n @ [z]) = n"
    and "(sg @ r # h @ i @ n @ [z]) ! 193 = z"
  using assms
    slice_nonneg [of 0 64 "sg @ r # h @ i @ n @ [z]"]
    slice_nonneg [of 65 97 "sg @ r # h @ i @ n @ [z]"]
    slice_nonneg [of 97 161 "sg @ r # h @ i @ n @ [z]"]
    slice_nonneg [of 161 193 "sg @ r # h @ i @ n @ [z]"]
  by (simp_all add: nth_append)

lemma ack_fields:
  assumes "length i = 64" "length n = 32"
  shows "length (i @ n @ [z]) = 97"
    and "slice 0 64 (i @ n @ [z]) = i"
    and "slice 64 96 (i @ n @ [z]) = n"
    and "(i @ n @ [z]) ! 96 = z"
  using assms
    slice_nonneg [of 0 64 "i @ n @ [z]"]
    slice_nonneg [of 64 96 "i @ n @ [z]"]
  by (simp_all add: nth_append)

lemma id2pk_pk2id: "length p = 65 \<Longrightarrow> hd p = 0x04 \<Longrightarrow> id2pk (pk2id p) = p"
  by (cases p) (simp_all add: id2pk_def pk2id_def slice_from_1)

lemma length_pk2id: "length p = 65 \<Longrightarrow> length (pk2id p) = 64"
  by (simp add: pk2id_def slice_from_1)

lemma length_xor_bytes: "length (xor_bytes a b) = min (length a) (length b)"
  by (simp add: xor_bytes_def)

lemma length_keccak256: "digest_lengths c \<Longrightarrow> length (keccak256 c parts) = 32"
  by (simp add: digest_lengths_def keccak256_def)

lemma frame_exchange:
  assumes k: "\<forall>x. length (keccak c x) = 32"
      and m: "mirrored S R" and m': "mirrored R S"
      and n: "length data < 2 ^ 24"
  shows "\<exists>f S' R'. sendFrame c S data = (Inr f, S') \<and> recvFrame c R f = (Inr data, R') \<and>
           mirrored S' R' \<and> mirrored R' S'"
proof -
  from header_roundtrip [OF k m n]
  obtain hdr S1 R1 where h: "createHeader c S (length data) = (Inr hdr, S1)"
    "parseHeader c R hdr = (Inr (length data), R1)" "bodySize R1 = Some (length data)"
    "mirrored S1 R1"
    "ingressAes S1 = ingressAes S" "ingressMac S1 = ingressMac S"
    "egressAes R1 = egressAes R" "egressMac R1 = egressMac R"
    by blast
  from body_roundtrip [OF k h(4) h(3)]
  obtain bdy S2 R2 where b: "createBody c S1 data = (Inr bdy, S2)"
    "parseBody c R1 bdy = (Inr data, R2)" "mirrored S2 R2"
    "ingressAes S2 = ingressAes S1" "ingressMac S2 = ingressMac S1"
    "egressAes R2 = egressAes R1" "egressMac R2 = egressMac R1"
    by blast
  have s: "sendFrame c S data = (Inr (hdr, bdy), S2)"
    by (simp add: sendFrame_def h(1) b(1))
  have r: "recvFrame c R (hdr, bdy) = (Inr data, R2)"
    by (simp add: recvFrame_def h(2) b(2))
  have "mirrored R2 S2"
    using m' h(5-8) b(4-7) by (simp add: mirrored_def)
  with s r b(3) show ?thesis by blast
qed

lemma frameSecrets_eq:
  assumes "remoteNonce st = Some rn" "ephemeralSharedSecret st = Some ess"
  shows "frameSecrets c st incoming =
           Inr (keccak256 c [ess, keccak256 c [if incoming then nonce st @ rn else rn @ nonce st]],
                keccak256 c [ess, keccak256 c [ess, keccak256 c [if incoming then nonce st @ rn else rn @ nonce st]]],
                keccak256 c [ess, keccak256 c [ess, keccak256 c [ess, keccak256 c [if incoming then nonce st @ rn else rn @ nonce st]]]])"
  using assms by (simp add: frameSecrets_def Let_def)

lemma setupFrame_ok:
  assumes fs: "frameSecrets c st incoming = Inr (ss, aesS, macS)"
      and al: "length aesS = 32"
      and rn: "remoteNonce st = Some rn"
      and im: "initMsg st = Some im"
  shows "setupFrame c st (Some rd) incoming =
           (Inr (), st\<lparr>ingressAes := Some \<lparr>ckey = aesS, civ = replicate 16 0, cpos = 0\<rparr>,
                       egressAes := Some \<lparr>ckey = aesS, civ = replicate 16 0, cpos = 0\<rparr>,
                       ingressMac := Some (MAC_update (MAC_new macS) (xor_bytes macS (nonce st) @ rd)),
                       egressMac := Some (MAC_update (MAC_new macS) (xor_bytes macS rn @ im))\<rparr>)"
  using al by (simp add: setupFrame_def fs Let_def createDecipheriv_def createCipheriv_def rn im)

lemma parseAuth_ok:
  assumes R: "privateKey R = kR" "ephemeralPrivateKey R = eR"
      and dec: "decryptMessage c (R\<lparr>remoteInitMsg := Some auth\<rparr>) auth
                  = Inr (sg @ [r] @ keccak256 c [pk2id epI] @ pk2id pubI @ nI @ [0])"
      and len: "length sg = 64" "length (keccak256 c [pk2id epI]) = 32" "length pubI = 65" "hd pubI = 0x04" "length nI = 32"
      and xs: "ecdhX c (Some pubI) kR = Inr xs"
      and rec: "recover c (xor_bytes xs nI) sg r = Some epI"
      and es: "ecdhX c (Some epI) eR = Inr es"
  shows "parseAuth c R auth =
           (Inr (), R\<lparr>remoteInitMsg := Some auth, remotePublicKey := Some pubI,
                      remoteNonce := Some nI, remoteEphemeralPublicKey := Some epI,
                      ephemeralSharedSecret := Some es\<rparr>)"
proof -
  note f = auth_fields [OF len(1) len(2) length_pk2id [OF len(3)] len(5), of r 0]
  show ?thesis
    unfolding parseAuth_def Let_def dec
    by (simp add: f assertEq_def id2pk_pk2id [OF len(3) len(4)] R xs rec es len
          length_pk2id [OF len(3)])
qed

lemma parseAck_decoded:
  assumes I: "ephemeralPrivateKey I = eI"
      and dec: "decryptMessage c I ack = Inr (pk2id epR @ nR @ [0])"
      and len: "length epR = 65" "hd epR = 0x04" "length nR = 32"
      and es: "ecdhX c (Some epR) eI = Inr es"
  shows "parseAck c I ack =
           setupFrame c (I\<lparr>remoteEphemeralPublicKey := Some epR, remoteNonce := Some nR,
                           ephemeralSharedSecret := Some es\<rparr>) (Some ack) False"
proof -
  note f = ack_fields [OF length_pk2id [OF len(1)] len(3), of 0]
  show ?thesis
    unfolding parseAck_def Let_def dec
    by (simp add: f assertEq_def id2pk_pk2id [OF len(1) len(2)] I es len
          length_pk2id [OF len(1)])
qed

lemma handshake_result:
  assumes dl: "digest_lengths c" and laws: "secp256k1_laws c"
      and kI: "privateKeyVerify c kI" and kR: "privateKeyVerify c kR"
      and eI: "privateKeyVerify c eI" and eR: "privateKeyVerify c eR"
      and rk1: "privateKeyVerify c rk1" and rk2: "privateKeyVerify c rk2"
      and pubI: "publicKeyCreate c kI = Some pubI" and pubR: "publicKeyCreate c kR = Some pubR"
      and nI: "length nI = 32" and nR: "length nR = 32"
      and iv1: "length iv1 = 16" and iv2: "length iv2 = 16"
  shows "\<exists>initiator responder auth ack epI epR es ss aesS macS.
           ECIES_new c kI (pk2id pubI) (Some (pk2id pubR)) nI eI = Inr initiator \<and>
           ECIES_new c kR (pk2id pubR) None nR eR = Inr responder \<and>
           length aesS = 32 \<and>
           publicKeyCreate c eI = Some epI \<and> publicKeyCreate c eR = Some epR \<and>
           ecdhX c (Some epR) eI = Inr es \<and> ecdhX c (Some epI) eR = Inr es \<and>
           ss = keccak256 c [es, keccak256 c [nR @ nI]] \<and>
           aesS = keccak256 c [es, ss] \<and> macS = keccak256 c [es, aesS] \<and>
           createAuth c initiator rk1 iv1 = (Inr auth, initiator\<lparr>initMsg := Some auth\<rparr>) \<and>
           fst (createAck c (snd (parseAuth c responder auth)) rk2 iv2) = Inr ack \<and>
           handshake c initiator responder rk1 iv1 rk2 iv2 =
             Inr (initiator\<lparr>initMsg := Some auth,
                    remoteEphemeralPublicKey := Some epR, remoteNonce := Some nR,
                    ephemeralSharedSecret := Some es,
                    ingressAes := Some \<lparr>ckey = aesS, civ = replicate 16 0, cpos = 0\<rparr>,
                    egressAes := Some \<lparr>ckey = aesS, civ = replicate 16 0, cpos = 0\<rparr>,
                    ingressMac := Some (MAC_update (MAC_new macS) (xor_bytes macS nI @ ack)),
                    egressMac := Some (MAC_update (MAC_new macS) (xor_bytes macS nR @ auth))\<rparr>,
                  responder\<lparr>remoteInitMsg := Some auth, remotePublicKey := Some pubI,
                    remoteNonce := Some nI, remoteEphemeralPublicKey := Some epI,
                    ephemeralSharedSecret := Some es,
                    initMsg := Some ack,
                    ingressAes := Some \<lparr>ckey = aesS, civ = replicate 16 0, cpos = 0\<rparr>,
                    egressAes := Some \<lparr>ckey = aesS, civ = replicate 16 0, cpos = 0\<rparr>,
                    ingressMac := Some (MAC_update (MAC_new macS) (xor_bytes macS nR @ auth)),
                    egressMac := Some (MAC_update (MAC_new macS) (xor_bytes macS nI @ ack))\<rparr>) \<and>
           frameSecrets c
             (initiator\<lparr>initMsg := Some auth,
                    remoteEphemeralPublicKey := Some epR, remoteNonce := Some nR,
                    ephemeralSharedSecret := Some es\<rparr>) False = Inr (ss, aesS, macS) \<and>
           frameSecrets c
             (responder\<lparr>remoteInitMsg := Some auth, remotePublicKey := Some pubI,
                    remoteNonce := Some nI, remoteEphemeralPublicKey := Some epI,
                    ephemeralSharedSecret := Some es,
                    initMsg := Some ack\<rparr>) True = Inr (ss, aesS, macS)"
proof -
  from publicKeyCreate_valid [OF laws kI] pubI
  have pI: "length pubI = 65" "hd pubI = 0x04" by auto
  from publicKeyCreate_valid [OF laws kR] pubR
  have pR: "length pubR = 65" "hd pubR = 0x04" by auto
  from publicKeyCreate_valid [OF laws eI]
  obtain epI where epI: "publicKeyCreate c eI = Some epI" "length epI = 65" "hd epI = 0x04" by blast
  from publicKeyCreate_valid [OF laws eR]
  obtain epR where epR: "publicKeyCreate c eR = Some epR" "length epR = 65" "hd epR = 0x04" by blast
  define initiator where "initiator =
     \<lparr>privateKey = kI, publicKey = pubI, remotePublicKey = Some pubR, nonce = nI,
      remoteNonce = None, initMsg = None, remoteInitMsg = None,
      ingressAes = None, egressAes = None, ingressMac = None, egressMac = None,
      ephemeralPrivateKey = eI, ephemeralPublicKey = epI,
      remoteEphemeralPublicKey = None, ephemeralSharedSecret = None, bodySize = None\<rparr>"
  define responder where "responder =
     \<lparr>privateKey = kR, publicKey = pubR, remotePublicKey = None, nonce = nR,
      remoteNonce = None, initMsg = None, remoteInitMsg = None,
      ingressAes = None, egressAes = None, ingressMac = None, egressMac = None,
      ephemeralPrivateKey = eR, ephemeralPublicKey = epR,
      remoteEphemeralPublicKey = None, ephemeralSharedSecret = None, bodySize = None\<rparr>"
  have newI: "ECIES_new c kI (pk2id pubI) (Some (pk2id pubR)) nI eI = Inr initiator"
    by (simp add: ECIES_new_def epI initiator_def id2pk_pk2id pI pR)
  have newR: "ECIES_new c kR (pk2id pubR) None nR eR = Inr responder"
    by (simp add: ECIES_new_def epR responder_def id2pk_pk2id pR)
  from ecdhX_shared [OF laws kR kI pubR pubI]
  obtain xs where xs: "length xs = 32" "ecdhX c (Some pubR) kI = Inr xs" "ecdhX c (Some pubI) kR = Inr xs"
    by blast
  from ecdhX_shared [OF laws eR eI epR(1) epI(1)]
  obtain es where es: "ecdhX c (Some epR) eI = Inr es" "ecdhX c (Some epI) eR = Inr es"
    by blast
  have "length (xor_bytes xs nI) = 32" by (simp add: length_xor_bytes xs nI)
  with laws eI obtain sg r where sg: "sign c (xor_bytes xs nI) eI = Some (sg, r)" "length sg = 64"
    "recover c (xor_bytes xs nI) sg r = publicKeyCreate c eI"
    unfolding secp256k1_laws_def by blast
  define data1 where "data1 = sg @ [r] @ keccak256 c [pk2id epI] @ pk2id pubI @ nI @ [0]"
  have rpI: "remotePublicKey initiator = Some pubR" by (simp add: initiator_def)
  from message_roundtrip [OF dl laws kR pubR rpI rk1 iv1, of data1]
  obtain auth where auth: "encryptMessage c initiator rk1 iv1 data1 = Inr auth"
    "\<And>R. privateKey R = kR \<Longrightarrow> decryptMessage c R auth = Inr data1"
    by blast
  have cAuth: "createAuth c initiator rk1 iv1 = (Inr auth, initiator\<lparr>initMsg := Some auth\<rparr>)"
    using auth(1) unfolding data1_def
    by (simp add: createAuth_def initiator_def xs sg Let_def)
  have dAuth: "decryptMessage c (responder\<lparr>remoteInitMsg := Some auth\<rparr>) auth
                 = Inr (sg @ [r] @ keccak256 c [pk2id epI] @ pk2id pubI @ nI @ [0])"
    unfolding data1_def [symmetric] by (rule auth(2)) (simp add: responder_def)
  define r1 where "r1 = responder\<lparr>remoteInitMsg := Some auth, remotePublicKey := Some pubI,
                      remoteNonce := Some nI, remoteEphemeralPublicKey := Some epI,
                      ephemeralSharedSecret := Some es\<rparr>"
  have pAuth: "parseAuth c responder auth = (Inr (), r1)"
    unfolding r1_def
    by (rule parseAuth_ok [OF _ _ dAuth sg(2) length_keccak256 [OF dl] pI nI xs(3) _ es(2)])
       (simp_all add: responder_def sg(3) epI)
  define data2 where "data2 = pk2id epR @ nR @ [0]"
  have rpR: "remotePublicKey r1 = Some pubI" by (simp add: r1_def)
  from message_roundtrip [OF dl laws kI pubI rpR rk2 iv2, of data2]
  obtain ack where ack: "encryptMessage c r1 rk2 iv2 data2 = Inr ack"
    "\<And>R. privateKey R = kI \<Longrightarrow> decryptMessage c R ack = Inr data2"
    by blast
  define ss where "ss = keccak256 c [es, keccak256 c [nR @ nI]]"
  define aesS where "aesS = keccak256 c [es, ss]"
  define macS where "macS = keccak256 c [es, aesS]"
  have al: "length aesS = 32" unfolding aesS_def by (rule length_keccak256 [OF dl])
  have fsR: "frameSecrets c (r1\<lparr>initMsg := Some ack\<rparr>) True = Inr (ss, aesS, macS)"
    by (simp add: frameSecrets_def Let_def r1_def responder_def ss_def aesS_def macS_def)
  define r2 where "r2 = r1\<lparr>initMsg := Some ack,
                    ingressAes := Some \<lparr>ckey = aesS, civ = replicate 16 0, cpos = 0\<rparr>,
                    egressAes := Some \<lparr>ckey = aesS, civ = replicate 16 0, cpos = 0\<rparr>,
                    ingressMac := Some (MAC_update (MAC_new macS) (xor_bytes macS nR @ auth)),
                    egressMac := Some (MAC_update (MAC_new macS) (xor_bytes macS nI @ ack))\<rparr>"
  have sfR: "setupFrame c (r1\<lparr>initMsg := Some ack\<rparr>) (Some auth) True = (Inr (), r2)"
    using setupFrame_ok [OF fsR al, of nI ack auth]
    by (simp add: r1_def responder_def r2_def)
  have cAck: "createAck c r1 rk2 iv2 = (Inr ack, r2)"
    using ack(1) sfR unfolding data2_def
    by (simp add: createAck_def Let_def r1_def responder_def)
  define i1 where "i1 = initiator\<lparr>initMsg := Some auth\<rparr>"
  define i1' where "i1' = i1\<lparr>remoteEphemeralPublicKey := Some epR, remoteNonce := Some nR,
                           ephemeralSharedSecret := Some es\<rparr>"
  have dAck: "decryptMessage c i1 ack = Inr (pk2id epR @ nR @ [0])"
    unfolding data2_def [symmetric] by (rule ack(2)) (simp add: i1_def initiator_def)
  have pAck0: "parseAck c i1 ack = setupFrame c i1' (Some ack) False"
    unfolding i1'_def
    by (rule parseAck_decoded [OF _ dAck epR(2) epR(3) nR es(1)]) (simp add: i1_def initiator_def)
  have fsI: "frameSecrets c i1' False = Inr (ss, aesS, macS)"
    by (simp add: frameSecrets_def Let_def i1'_def i1_def initiator_def ss_def aesS_def macS_def)
  define i2 where "i2 = i1'\<lparr>
                    ingressAes := Some \<lparr>ckey = aesS, civ = replicate 16 0, cpos = 0\<rparr>,
                    egressAes := Some \<lparr>ckey = aesS, civ = replicate 16 0, cpos = 0\<rparr>,
                    ingressMac := Some (MAC_update (MAC_new macS) (xor_bytes macS nI @ ack)),
                    egressMac := Some (MAC_update (MAC_new macS) (xor_bytes macS nR @ auth))\<rparr>"
  have sfI: "setupFrame c i1' (Some ack) False = (Inr (), i2)"
    using setupFrame_ok [OF fsI al, of nR auth ack]
    by (simp add: i1'_def i1_def initiator_def i2_def)
  have pAck: "parseAck c i1 ack = (Inr (), i2)"
    by (simp only: pAck0 sfI)
  have hs: "handshake c initiator responder rk1 iv1 rk2 iv2 = Inr (i2, r2)"
    by (simp add: handshake_def cAuth pAuth cAck i1_def [symmetric] pAck)
  show ?thesis
    apply (rule exI [of _ initiator], rule exI [of _ responder], rule exI [of _ auth],
           rule exI [of _ ack], rule exI [of _ epI], rule exI [of _ epR], rule exI [of _ es],
           rule exI [of _ ss], rule exI [of _ aesS], rule exI [of _ macS])
    using newI newR al hs fsI fsR epI(1) epR(1) es cAuth pAuth cAck
    by (simp add: i2_def i1'_def i1_def r2_def r1_def ss_def aesS_def macS_def)
qed

lemma xor_bytes_commute: "xor_bytes a b = xor_bytes b a"
  unfolding xor_bytes_def
proof (induction a arbitrary: b)
  case Nil then show ?case by simp
next
  case (Cons x a)
  then show ?case by (cases b) (simp_all add: xor.commute)
qed

lemma toy_digest_lengths: "digest_lengths toy_crypto"
  by (auto simp: digest_lengths_def toy_crypto_def)

lemma toy_secp256k1_laws: "secp256k1_laws toy_crypto"
  unfolding secp256k1_laws_def
proof (intro conjI allI impI)
  fix k assume "privateKeyVerify toy_crypto k"
  then show "\<exists>p. publicKeyCreate toy_crypto k = Some p \<and> length p = 65 \<and> hd p = 0x04"
    by (simp add: toy_crypto_def)
next
  fix a b pa pb
  assume "privateKeyVerify toy_crypto a \<and> privateKeyVerify toy_crypto b \<and>
          publicKeyCreate toy_crypto a = Some pa \<and> publicKeyCreate toy_crypto b = Some pb"
  then have "length a = 32" "length b = 32" "pa = 0x04 # a @ a" "pb = 0x04 # b @ b"
    by (auto simp: toy_crypto_def)
  then show "\<exists>z. length z = 33 \<and> ecdhUnsafe toy_crypto pa b = Some z \<and> ecdhUnsafe toy_crypto pb a = Some z"
    using xor_bytes_commute [of a b] by (simp add: toy_crypto_def length_xor_bytes)
next
  fix k m :: bytes assume "privateKeyVerify toy_crypto k \<and> length m = 32"
  then show "\<exists>sg r. sign toy_crypto m k = Some (sg, r) \<and> length sg = 64 \<and>
             recover toy_crypto m sg r = publicKeyCreate toy_crypto k"
    by (simp add: toy_crypto_def)
qed

lemma toy_privateKeyVerify: "privateKeyVerify toy_crypto (replicate 32 b)"
  by (simp add: toy_crypto_def)

lemma toy_publicKeyCreate: "publicKeyCreate toy_crypto (replicate 32 b) = Some (0x04 # replicate 32 b @ replicate 32 b)"
  by (simp add: toy_crypto_def)

subsection \<open>The handshake and the message codec: the claims\<close>

text \<open>
  Claim C5.  For every plaintext \<open>data\<close> and every secp256k1 key pair \<open>(priv, pub)\<close>,
  \<open>_decryptMessage\<close> run with the private key \<open>priv\<close> inverts \<open>_encryptMessage\<close> addressed to
  the public key \<open>pub\<close>: the envelope is \<open>R(65) || IV(16) || C || tag(32)\<close>, where \<open>R\<close> is the
  public key of the random key drawn for the message and \<open>C\<close> is as long as \<open>data\<close>, and
  decrypting the unmodified envelope returns exactly \<open>data\<close>.
\<close>

theorem decryptMessage_inverts_encryptMessage:
  assumes "digest_lengths c" and "secp256k1_laws c"
      and "privateKeyVerify c priv" and "publicKeyCreate c priv = Some pub"
      and "remotePublicKey sender = Some pub" and "privateKey receiver = priv"
      and "privateKeyVerify c rnd_key" and "length rnd_IV = 16"
  shows "\<exists>R C tag.
           encryptMessage c sender rnd_key rnd_IV data = Inr (R @ rnd_IV @ C @ tag) \<and>
           publicKeyCreate c rnd_key = Some R \<and>
           length R = 65 \<and> length C = length data \<and> length tag = 32 \<and>
           decryptMessage c receiver (R @ rnd_IV @ C @ tag) = Inr data"
  using message_roundtrip [OF assms(1-5) assms(7-8)] assms(6) by blast

theorem decryptMessage_inverts_encryptMessage_witness:
  "digest_lengths toy_crypto \<and> secp256k1_laws toy_crypto \<and>
   privateKeyVerify toy_crypto (replicate 32 0x01) \<and>
   publicKeyCreate toy_crypto (replicate 32 0x01) = Some (0x04 # replicate 32 0x01 @ replicate 32 0x01) \<and>
   privateKeyVerify toy_crypto (replicate 32 0x05) \<and>
   (\<exists>R C tag.
      encryptMessage toy_crypto (ex_ecies\<lparr>remotePublicKey := Some (0x04 # replicate 32 0x01 @ replicate 32 0x01)\<rparr>)
        (replicate 32 0x05) (replicate 16 0x08) [1, 2, 3] = Inr (R @ replicate 16 0x08 @ C @ tag) \<and>
      length R = 65 \<and> length C = length ([1, 2, 3] :: bytes) \<and> length tag = 32 \<and>
      decryptMessage toy_crypto ex_ecies (R @ replicate 16 0x08 @ C @ tag) = Inr [1, 2, 3])"
proof -
  have a: "remotePublicKey (ex_ecies\<lparr>remotePublicKey := Some (0x04 # replicate 32 0x01 @ replicate 32 0x01)\<rparr>)
             = Some (0x04 # replicate 32 0x01 @ replicate 32 0x01)"
    by simp
  have b: "privateKey ex_ecies = replicate 32 0x01" by (simp add: ex_ecies_def)
  have l: "length (replicate 16 (0x08 :: byte)) = 16" by simp
  from decryptMessage_inverts_encryptMessage [where rnd_key = "replicate 32 0x05" and data = "[1, 2, 3]",
      OF toy_digest_lengths toy_secp256k1_laws
      toy_privateKeyVerify toy_publicKeyCreate a b toy_privateKeyVerify l]
  have "\<exists>R C tag.
      encryptMessage toy_crypto (ex_ecies\<lparr>remotePublicKey := Some (0x04 # replicate 32 0x01 @ replicate 32 0x01)\<rparr>)
        (replicate 32 0x05) (replicate 16 0x08) [1, 2, 3] = Inr (R @ replicate 16 0x08 @ C @ tag) \<and>
      length R = 65 \<and> length C = length ([1, 2, 3] :: bytes) \<and> length tag = 32 \<and>
      decryptMessage toy_crypto ex_ecies (R @ replicate 16 0x08 @ C @ tag) = Inr [1, 2, 3]"
    by blast
  with toy_digest_lengths toy_secp256k1_laws toy_privateKeyVerify toy_publicKeyCreate
  show ?thesis by blast
qed


text \<open>
  Claim C1, as the code has it.  For all static key pairs, ephemeral key pairs and 32-byte
  nonces, when the initiator runs \<open>createAuth\<close> and then \<open>parseAck\<close> on the responder's ack,
  and the responder runs \<open>parseAuth\<close> on that auth and then \<open>createAck\<close>, all four calls
  succeed; both sides hold the same \<open>ephemeralSharedSecret\<close>, the ECDH of the two ephemeral
  keys, and derive from it the same \<open>sharedSecret\<close>, \<open>aesSecret\<close> and \<open>macSecret\<close>; the four
  AES states are fresh ciphers keyed with \<open>aesSecret\<close>, and the MAC states are seeded with
  \<open>macSecret\<close> and the two handshake messages, so that the frame states are mirrored in both
  directions.  Hence every frame of at most \<open>2^24 - 1\<close> bytes written by one side is read as
  the identical plaintext by the other, and the states are mirrored again after it.
\<close>

theorem handshake_agreement:
  assumes "digest_lengths c" and "secp256k1_laws c"
      and "privateKeyVerify c kI" and "privateKeyVerify c kR"
      and "privateKeyVerify c eI" and "privateKeyVerify c eR"
      and "privateKeyVerify c key_auth" and "privateKeyVerify c key_ack"
      and "publicKeyCreate c kI = Some pubI" and "publicKeyCreate c kR = Some pubR"
      and "length nI = 32" and "length nR = 32"
      and "length IV_auth = 16" and "length IV_ack = 16"
  shows "\<exists>initiator responder i2 r2 auth ack epI epR es sharedSecret aesSecret macSecret.
           ECIES_new c kI (pk2id pubI) (Some (pk2id pubR)) nI eI = Inr initiator \<and>
           ECIES_new c kR (pk2id pubR) None nR eR = Inr responder \<and>
           handshake c initiator responder key_auth IV_auth key_ack IV_ack = Inr (i2, r2) \<and>
           fst (createAuth c initiator key_auth IV_auth) = Inr auth \<and>
           fst (createAck c (snd (parseAuth c responder auth)) key_ack IV_ack) = Inr ack \<and>
           publicKeyCreate c eI = Some epI \<and> publicKeyCreate c eR = Some epR \<and>
           ecdhX c (Some epR) eI = Inr es \<and> ecdhX c (Some epI) eR = Inr es \<and>
           ephemeralSharedSecret i2 = Some es \<and> ephemeralSharedSecret r2 = Some es \<and>
           sharedSecret = keccak256 c [es, keccak256 c [nR @ nI]] \<and>
           aesSecret = keccak256 c [es, sharedSecret] \<and>
           macSecret = keccak256 c [es, aesSecret] \<and>
           frameSecrets c i2 False = Inr (sharedSecret, aesSecret, macSecret) \<and>
           frameSecrets c r2 True = Inr (sharedSecret, aesSecret, macSecret) \<and>
           egressAes i2 = Some \<lparr>ckey = aesSecret, civ = replicate 16 0, cpos = 0\<rparr> \<and>
           ingressAes i2 = Some \<lparr>ckey = aesSecret, civ = replicate 16 0, cpos = 0\<rparr> \<and>
           egressAes r2 = Some \<lparr>ckey = aesSecret, civ = replicate 16 0, cpos = 0\<rparr> \<and>
           ingressAes r2 = Some \<lparr>ckey = aesSecret, civ = replicate 16 0, cpos = 0\<rparr> \<and>
           egressMac i2 = Some (MAC_update (MAC_new macSecret) (xor_bytes macSecret nR @ auth)) \<and>
           ingressMac r2 = Some (MAC_update (MAC_new macSecret) (xor_bytes macSecret nR @ auth)) \<and>
           egressMac r2 = Some (MAC_update (MAC_new macSecret) (xor_bytes macSecret nI @ ack)) \<and>
           ingressMac i2 = Some (MAC_update (MAC_new macSecret) (xor_bytes macSecret nI @ ack)) \<and>
           mirrored i2 r2 \<and> mirrored r2 i2 \<and>
           (\<forall>data. length data < 2 ^ 24 \<longrightarrow>
              (\<exists>f i3 r3. sendFrame c i2 data = (Inr f, i3) \<and> recvFrame c r2 f = (Inr data, r3) \<and>
                 mirrored i3 r3 \<and> mirrored r3 i3)) \<and>
           (\<forall>data. length data < 2 ^ 24 \<longrightarrow>
              (\<exists>f r3 i3. sendFrame c r2 data = (Inr f, r3) \<and> recvFrame c i2 f = (Inr data, i3) \<and>
                 mirrored r3 i3 \<and> mirrored i3 r3))"
proof -
  from handshake_result [OF assms]
  obtain initiator responder auth ack epI epR es ss aesS macS i2 r2 where
    new: "ECIES_new c kI (pk2id pubI) (Some (pk2id pubR)) nI eI = Inr initiator"
         "ECIES_new c kR (pk2id pubR) None nR eR = Inr responder"
    and ep: "publicKeyCreate c eI = Some epI" "publicKeyCreate c eR = Some epR"
    and es: "ecdhX c (Some epR) eI = Inr es" "ecdhX c (Some epI) eR = Inr es"
    and sec: "ss = keccak256 c [es, keccak256 c [nR @ nI]]" "aesS = keccak256 c [es, ss]"
             "macS = keccak256 c [es, aesS]"
    and cAuth: "createAuth c initiator key_auth IV_auth = (Inr auth, initiator\<lparr>initMsg := Some auth\<rparr>)"
    and cAck: "fst (createAck c (snd (parseAuth c responder auth)) key_ack IV_ack) = Inr ack"
    and i2: "i2 = initiator\<lparr>initMsg := Some auth,
                    remoteEphemeralPublicKey := Some epR, remoteNonce := Some nR,
                    ephemeralSharedSecret := Some es,
                    ingressAes := Some \<lparr>ckey = aesS, civ = replicate 16 0, cpos = 0\<rparr>,
                    egressAes := Some \<lparr>ckey = aesS, civ = replicate 16 0, cpos = 0\<rparr>,
                    ingressMac := Some (MAC_update (MAC_new macS) (xor_bytes macS nI @ ack)),
                    egressMac := Some (MAC_update (MAC_new macS) (xor_bytes macS nR @ auth))\<rparr>"
    and r2: "r2 = responder\<lparr>remoteInitMsg := Some auth, remotePublicKey := Some pubI,
                    remoteNonce := Some nI, remoteEphemeralPublicKey := Some epI,
                    ephemeralSharedSecret := Some es,
                    initMsg := Some ack,
                    ingressAes := Some \<lparr>ckey = aesS, civ = replicate 16 0, cpos = 0\<rparr>,
                    egressAes := Some \<lparr>ckey = aesS, civ = replicate 16 0, cpos = 0\<rparr>,
                    ingressMac := Some (MAC_update (MAC_new macS) (xor_bytes macS nR @ auth)),
                    egressMac := Some (MAC_update (MAC_new macS) (xor_bytes macS nI @ ack))\<rparr>"
    and hs: "handshake c initiator responder key_auth IV_auth key_ack IV_ack = Inr (i2, r2)"
    and fsI: "frameSecrets c
             (initiator\<lparr>initMsg := Some auth,
                    remoteEphemeralPublicKey := Some epR, remoteNonce := Some nR,
                    ephemeralSharedSecret := Some es\<rparr>) False = Inr (ss, aesS, macS)"
    and fsR: "frameSecrets c
             (responder\<lparr>remoteInitMsg := Some auth, remotePublicKey := Some pubI,
                    remoteNonce := Some nI, remoteEphemeralPublicKey := Some epI,
                    ephemeralSharedSecret := Some es,
                    initMsg := Some ack\<rparr>) True = Inr (ss, aesS, macS)"
    by blast
  have ca: "fst (createAuth c initiator key_auth IV_auth) = Inr auth" by (simp add: cAuth)
  have e: "ephemeralSharedSecret i2 = Some es" "ephemeralSharedSecret r2 = Some es"
    by (simp_all add: i2 r2)
  have f1: "frameSecrets c i2 False = Inr (ss, aesS, macS)"
    using fsI by (simp add: frameSecrets_def i2)
  have f2: "frameSecrets c r2 True = Inr (ss, aesS, macS)"
    using fsR by (simp add: frameSecrets_def r2)
  have st: "egressAes i2 = Some \<lparr>ckey = aesS, civ = replicate 16 0, cpos = 0\<rparr>"
    "ingressAes i2 = Some \<lparr>ckey = aesS, civ = replicate 16 0, cpos = 0\<rparr>"
    "egressAes r2 = Some \<lparr>ckey = aesS, civ = replicate 16 0, cpos = 0\<rparr>"
    "ingressAes r2 = Some \<lparr>ckey = aesS, civ = replicate 16 0, cpos = 0\<rparr>"
    "egressMac i2 = Some (MAC_update (MAC_new macS) (xor_bytes macS nR @ auth))"
    "ingressMac r2 = Some (MAC_update (MAC_new macS) (xor_bytes macS nR @ auth))"
    "egressMac r2 = Some (MAC_update (MAC_new macS) (xor_bytes macS nI @ ack))"
    "ingressMac i2 = Some (MAC_update (MAC_new macS) (xor_bytes macS nI @ ack))"
    by (simp_all add: i2 r2)
  have m: "mirrored i2 r2" "mirrored r2 i2"
    by (simp_all add: mirrored_def i2 r2)
  have k: "\<forall>x. length (keccak c x) = 32" using assms(1) by (simp add: digest_lengths_def)
  have x1: "\<forall>data. length data < 2 ^ 24 \<longrightarrow>
              (\<exists>f i3 r3. sendFrame c i2 data = (Inr f, i3) \<and> recvFrame c r2 f = (Inr data, r3) \<and>
                 mirrored i3 r3 \<and> mirrored r3 i3)"
    using frame_exchange [OF k m] by blast
  have x2: "\<forall>data. length data < 2 ^ 24 \<longrightarrow>
              (\<exists>f r3 i3. sendFrame c r2 data = (Inr f, r3) \<and> recvFrame c i2 f = (Inr data, i3) \<and>
                 mirrored r3 i3 \<and> mirrored i3 r3)"
    using frame_exchange [OF k m(2) m(1)] by blast
  show ?thesis
    apply (rule exI [of _ initiator], rule exI [of _ responder], rule exI [of _ i2],
           rule exI [of _ r2], rule exI [of _ auth], rule exI [of _ ack], rule exI [of _ epI],
           rule exI [of _ epR], rule exI [of _ es], rule exI [of _ ss], rule exI [of _ aesS],
           rule exI [of _ macS])
    apply (intro conjI)
    apply (fact new hs ca cAck ep es e sec f1 f2 st m x1 x2)+
    done
qed

text \<open>Frames whose size does not fit the three bytes of the header.  \<open>createHeader\<close> writes a
  size of \<open>2^24\<close> bytes as the four bytes \<open>01 00 00 00\<close>, of which \<open>parseHeader\<close> reads the
  first three.\<close>

lemma intToBuffer_big: "intToBuffer 16777216 = [1, 0, 0, 0]"
  by code_simp

lemma big_header:
  assumes k: "\<forall>x. length (keccak c x) = 32"
      and m: "mirrored S R"
  shows "\<exists>hdr S1 R1. createHeader c S 16777216 = (Inr hdr, S1) \<and>
           parseHeader c R hdr = (Inr 65536, R1) \<and> bodySize R1 = Some 65536 \<and> mirrored S1 R1"
proof -
  from m obtain a mc where a: "egressAes S = Some a" "ingressAes R = Some a"
    and mc: "egressMac S = Some mc" "ingressMac R = Some mc"
    by (auto simp: mirrored_def)
  define h0 where "h0 = zfill (zfill (intToBuffer 16777216) 3 True @ rlp_encode_0_0) 16 False"
  define h1 where "h1 = fst (cipher_update c a h0)"
  define a' where "a' = snd (cipher_update c a h0)"
  define m' where "m' = MAC_updateHeader c mc h1"
  define tag where "tag = MAC_digest c m'"
  have h0: "h0 = [1, 0, 0, 0, 0xc2, 0x80, 0x80] @ replicate 9 0"
    by (simp add: h0_def intToBuffer_big zfill_def rlp_encode_0_0_def)
  have l0: "length h0 = 16" by (simp add: h0)
  have l1: "length h1 = 16" by (simp add: h1_def cipher_update_length l0)
  have lt: "length tag = 16" by (simp add: tag_def length_MAC_digest k)
  have cu: "cipher_update c a h0 = (h1, a')" by (simp add: h1_def a'_def)
  have a'_eq: "a' = a\<lparr>cpos := cpos a + 16\<rparr>" by (simp add: a'_def cipher_update_snd l0)
  have cu2: "cipher_update c a h1 = (h0, a')"
    using cipher_update_inverse [of c a h0] cipher_update_snd [of c a h1]
    by (simp add: h1_def [symmetric] l1 a'_eq prod_eq_iff)
  have "slice 0 3 h0 = [1, 0, 0]" using slice_0_take [of 3 h0] by (simp add: h0)
  then have sz: "bufferToInt (slice 0 3 h0) = 65536" by (simp add: bufferToInt_def)
  have ch: "createHeader c S 16777216 = (Inr (h1 @ tag), S\<lparr>egressAes := Some a', egressMac := Some m'\<rparr>)"
    by (simp add: createHeader_def Let_def a mc cu h0_def [symmetric] m'_def tag_def)
  have ph: "parseHeader c R (h1 @ tag)
              = (Inr 65536, R\<lparr>ingressMac := Some m', ingressAes := Some a', bodySize := Some 65536\<rparr>)"
    by (simp add: parseHeader_def Let_def a mc slice_0_16_append l1 lt slice_16_32_append
          m'_def [symmetric] tag_def [symmetric] assertEq_def cu2 sz)
  show ?thesis
    using ch ph by (simp add: mirrored_def)
qed

lemma body_truncated:
  assumes k: "\<forall>x. length (keccak c x) = 32"
      and m: "mirrored S R"
      and b: "bodySize R = Some sz" and le: "sz \<le> length data"
  shows "\<exists>bdy S1 R1. createBody c S data = (Inr bdy, S1) \<and>
           parseBody c R bdy = (Inr (take sz data), R1)"
proof -
  from m obtain a mc where a: "egressAes S = Some a" "ingressAes R = Some a"
    and mc: "egressMac S = Some mc" "ingressMac R = Some mc"
    by (auto simp: mirrored_def)
  define d0 where "d0 = zfill data (((length data + 15) div 16) * 16) False"
  define d1 where "d1 = fst (cipher_update c a d0)"
  define a' where "a' = snd (cipher_update c a d0)"
  define m' where "m' = MAC_updateBody c mc d1"
  define tag where "tag = MAC_digest c m'"
  have tk: "take sz d0 = take sz data"
    using le by (auto simp: d0_def zfill_def Let_def)
  have l1: "length d1 = length d0" by (simp add: d1_def cipher_update_length)
  have lt: "length tag = 16" by (simp add: tag_def length_MAC_digest k)
  have cu: "cipher_update c a d0 = (d1, a')" by (simp add: d1_def a'_def)
  have a'_eq: "a' = a\<lparr>cpos := cpos a + length d0\<rparr>" by (simp add: a'_def cipher_update_snd)
  have cu2: "cipher_update c a d1 = (d0, a')"
    using cipher_update_inverse [of c a d0] cipher_update_snd [of c a d1]
    by (simp add: d1_def [symmetric] l1 a'_eq prod_eq_iff)
  have cb: "createBody c S data = (Inr (d1 @ tag), S\<lparr>egressAes := Some a', egressMac := Some m'\<rparr>)"
    by (simp add: createBody_def Let_def a mc cu d0_def [symmetric] m'_def tag_def)
  have pb: "parseBody c R (d1 @ tag)
              = (Inr (take sz data), R\<lparr>ingressMac := Some m', bodySize := None, ingressAes := Some a'\<rparr>)"
    by (simp add: parseBody_def Let_def a mc b slice_0_m16_append lt slice_from_m16_append
          m'_def [symmetric] tag_def [symmetric] assertEq_def cu2 slice_0_take tk)
  show ?thesis
    using cb pb by blast
qed

lemma big_frame:
  assumes k: "\<forall>x. length (keccak c x) = 32"
      and m: "mirrored S R"
      and n: "length data = 16777216"
  shows "\<exists>f S' R'. sendFrame c S data = (Inr f, S') \<and> recvFrame c R f = (Inr (take 65536 data), R')"
proof -
  from big_header [OF k m]
  obtain hdr S1 R1 where h: "createHeader c S 16777216 = (Inr hdr, S1)"
    "parseHeader c R hdr = (Inr 65536, R1)" "bodySize R1 = Some 65536" "mirrored S1 R1"
    by blast
  have le: "65536 \<le> length data" by (simp add: n)
  from body_truncated [OF k h(4) h(3) le]
  obtain bdy S2 R2 where b: "createBody c S1 data = (Inr bdy, S2)"
    "parseBody c R1 bdy = (Inr (take 65536 data), R2)"
    by blast
  have s: "sendFrame c S data = (Inr (hdr, bdy), S2)"
    by (simp add: sendFrame_def n h(1) b(1))
  have r: "recvFrame c R (hdr, bdy) = (Inr (take 65536 data), R2)"
    by (simp add: recvFrame_def h(2) b(2))
  from s r show ?thesis by blast
qed

lemma ex_established_mirrored:
  "handshake toy_crypto ex_initiator ex_responder
     (replicate 32 0x07) (replicate 16 0x08) (replicate 32 0x09) (replicate 16 0x0a)
     = Inr ex_established"
  "mirrored (fst ex_established) (snd ex_established)"
proof -
  have n: "length (replicate 32 (b :: byte)) = 32" for b by simp
  have i: "length (replicate 16 (b :: byte)) = 16" for b by simp
  from handshake_result [where c = toy_crypto
      and kI = "replicate 32 0x01" and kR = "replicate 32 0x02"
      and eI = "replicate 32 0x05" and eR = "replicate 32 0x06"
      and ?rk1.0 = "replicate 32 0x07" and ?rk2.0 = "replicate 32 0x09"
      and nI = "replicate 32 0x03" and nR = "replicate 32 0x04"
      and ?iv1.0 = "replicate 16 0x08" and ?iv2.0 = "replicate 16 0x0a",
      OF toy_digest_lengths toy_secp256k1_laws
      toy_privateKeyVerify toy_privateKeyVerify toy_privateKeyVerify toy_privateKeyVerify
      toy_privateKeyVerify toy_privateKeyVerify toy_publicKeyCreate toy_publicKeyCreate
      n n i i]
  obtain initiator responder i2 r2 where
    a: "ECIES_new toy_crypto (replicate 32 0x01) (pk2id (0x04 # replicate 32 0x01 @ replicate 32 0x01))
        (Some (pk2id (0x04 # replicate 32 0x02 @ replicate 32 0x02))) (replicate 32 0x03) (replicate 32 0x05)
        = Inr initiator"
      "ECIES_new toy_crypto (replicate 32 0x02) (pk2id (0x04 # replicate 32 0x02 @ replicate 32 0x02))
        None (replicate 32 0x04) (replicate 32 0x06) = Inr responder"
      "handshake toy_crypto initiator responder (replicate 32 0x07) (replicate 16 0x08)
        (replicate 32 0x09) (replicate 16 0x0a) = Inr (i2, r2)"
      "egressAes i2 \<noteq> None" "egressMac i2 \<noteq> None"
      "ingressAes r2 = egressAes i2" "ingressMac r2 = egressMac i2"
    by fastforce
  have ei: "ex_initiator = initiator" by (simp add: ex_initiator_def a(1))
  have er: "ex_responder = responder" by (simp add: ex_responder_def a(2))
  have ee: "ex_established = (i2, r2)" by (simp add: ex_established_def ei er a(3))
  show "handshake toy_crypto ex_initiator ex_responder
     (replicate 32 0x07) (replicate 16 0x08) (replicate 32 0x09) (replicate 16 0x0a)
     = Inr ex_established"
    by (simp add: ei er ee a(3))
  show "mirrored (fst ex_established) (snd ex_established)"
    using a(4-7) by (simp add: ee mirrored_def)
qed

text \<open>The claim as stated fails: after the example handshake the initiator writes a frame
  of \<open>2^24\<close> zero bytes, and the responder reads it as a frame of 65536 bytes.\<close>

theorem big_frame_not_read_back:
  "handshake toy_crypto ex_initiator ex_responder
     (replicate 32 0x07) (replicate 16 0x08) (replicate 32 0x09) (replicate 16 0x0a)
     = Inr ex_established \<and>
   mirrored (fst ex_established) (snd ex_established) \<and>
   \<not> isl (fst (sendFrame toy_crypto (fst ex_established) (replicate (2 ^ 24) 0))) \<and>
   fst (recvFrame toy_crypto (snd ex_established)
          (projr (fst (sendFrame toy_crypto (fst ex_established) (replicate (2 ^ 24) 0)))))
     = Inr (replicate 65536 0) \<and>
   replicate 65536 (0 :: byte) \<noteq> replicate (2 ^ 24) 0"
proof -
  define data :: bytes where "data = replicate (2 ^ 24) 0"
  have n: "length data = 16777216" by (simp add: data_def)
  have k: "\<forall>x. length (keccak toy_crypto x) = 32"
    using toy_digest_lengths by (simp add: digest_lengths_def)
  from big_frame [OF k ex_established_mirrored(2) n]
  obtain f S' R' where f: "sendFrame toy_crypto (fst ex_established) data = (Inr f, S')"
    "recvFrame toy_crypto (snd ex_established) f = (Inr (take 65536 data), R')"
    by blast
  have t: "take 65536 data = replicate 65536 0" by (simp add: data_def)
  have d: "replicate 65536 (0 :: byte) \<noteq> replicate (2 ^ 24) 0" by simp
  show ?thesis
    using ex_established_mirrored f d unfolding t data_def by simp
qed

theorem handshake_agreement_witness:
  "digest_lengths toy_crypto \<and> secp256k1_laws toy_crypto \<and>
   privateKeyVerify toy_crypto (replicate 32 0x01) \<and> privateKeyVerify toy_crypto (replicate 32 0x02) \<and>
   publicKeyCreate toy_crypto (replicate 32 0x01) = Some (0x04 # replicate 32 0x01 @ replicate 32 0x01) \<and>
   publicKeyCreate toy_crypto (replicate 32 0x02) = Some (0x04 # replicate 32 0x02 @ replicate 32 0x02) \<and>
   (\<exists>initiator responder i2 r2 es aesSecret.
      ECIES_new toy_crypto (replicate 32 0x01) (pk2id (0x04 # replicate 32 0x01 @ replicate 32 0x01))
        (Some (pk2id (0x04 # replicate 32 0x02 @ replicate 32 0x02))) (replicate 32 0x03) (replicate 32 0x05)
        = Inr initiator \<and>
      ECIES_new toy_crypto (replicate 32 0x02) (pk2id (0x04 # replicate 32 0x02 @ replicate 32 0x02))
        None (replicate 32 0x04) (replicate 32 0x06) = Inr responder \<and>
      handshake toy_crypto initiator responder (replicate 32 0x07) (replicate 16 0x08)
        (replicate 32 0x09) (replicate 16 0x0a) = Inr (i2, r2) \<and>
      ephemeralSharedSecret i2 = Some es \<and> ephemeralSharedSecret r2 = Some es \<and>
      aesSecret = keccak256 toy_crypto
                    [es, keccak256 toy_crypto [es, keccak256 toy_crypto [replicate 32 0x04 @ replicate 32 0x03]]] \<and>
      egressAes i2 = Some \<lparr>ckey = aesSecret, civ = replicate 16 0, cpos = 0\<rparr> \<and>
      ingressAes r2 = Some \<lparr>ckey = aesSecret, civ = replicate 16 0, cpos = 0\<rparr> \<and>
      mirrored i2 r2 \<and> mirrored r2 i2 \<and>
      (\<exists>f i3 r3. sendFrame toy_crypto i2 [1, 2, 3] = (Inr f, i3) \<and>
         recvFrame toy_crypto r2 f = (Inr [1, 2, 3], r3)))"
proof -
  have n: "length (replicate 32 (b :: byte)) = 32" for b by simp
  have i: "length (replicate 16 (b :: byte)) = 16" for b by simp
  have d: "length ([1, 2, 3] :: bytes) < 2 ^ 24" by simp
  from handshake_agreement [where c = toy_crypto
      and kI = "replicate 32 0x01" and kR = "replicate 32 0x02"
      and eI = "replicate 32 0x05" and eR = "replicate 32 0x06"
      and key_auth = "replicate 32 0x07" and key_ack = "replicate 32 0x09"
      and nI = "replicate 32 0x03" and nR = "replicate 32 0x04"
      and IV_auth = "replicate 16 0x08" and IV_ack = "replicate 16 0x0a",
      OF toy_digest_lengths toy_secp256k1_laws
      toy_privateKeyVerify toy_privateKeyVerify toy_privateKeyVerify toy_privateKeyVerify
      toy_privateKeyVerify toy_privateKeyVerify toy_publicKeyCreate toy_publicKeyCreate
      n n i i]
  obtain initiator responder i2 r2 es sharedSecret aesSecret where
    a: "ECIES_new toy_crypto (replicate 32 0x01) (pk2id (0x04 # replicate 32 0x01 @ replicate 32 0x01))
        (Some (pk2id (0x04 # replicate 32 0x02 @ replicate 32 0x02))) (replicate 32 0x03) (replicate 32 0x05)
        = Inr initiator"
      "ECIES_new toy_crypto (replicate 32 0x02) (pk2id (0x04 # replicate 32 0x02 @ replicate 32 0x02))
        None (replicate 32 0x04) (replicate 32 0x06) = Inr responder"
      "handshake toy_crypto initiator responder (replicate 32 0x07) (replicate 16 0x08)
        (replicate 32 0x09) (replicate 16 0x0a) = Inr (i2, r2)"
      "mirrored i2 r2" "mirrored r2 i2"
      "\<forall>data. length data < 2 ^ 24 \<longrightarrow>
              (\<exists>f i3 r3. sendFrame toy_crypto i2 data = (Inr f, i3) \<and> recvFrame toy_crypto r2 f = (Inr data, r3) \<and>
                 mirrored i3 r3 \<and> mirrored r3 i3)"
      "ephemeralSharedSecret i2 = Some es" "ephemeralSharedSecret r2 = Some es"
      "sharedSecret = keccak256 toy_crypto [es, keccak256 toy_crypto [replicate 32 0x04 @ replicate 32 0x03]]"
      "aesSecret = keccak256 toy_crypto [es, sharedSecret]"
      "egressAes i2 = Some \<lparr>ckey = aesSecret, civ = replicate 16 0, cpos = 0\<rparr>"
      "ingressAes r2 = Some \<lparr>ckey = aesSecret, civ = replicate 16 0, cpos = 0\<rparr>"
    by blast
  from a(6) d have "\<exists>f i3 r3. sendFrame toy_crypto i2 [1, 2, 3] = (Inr f, i3) \<and>
         recvFrame toy_crypto r2 f = (Inr [1, 2, 3], r3)"
    by blast
  moreover have "aesSecret = keccak256 toy_crypto
                    [es, keccak256 toy_crypto [es, keccak256 toy_crypto [replicate 32 0x04 @ replicate 32 0x03]]]"
    using a(9,10) by simp
  ultimately show ?thesis
    using a(1-5,7,8,11,12) toy_digest_lengths toy_secp256k1_laws toy_privateKeyVerify toy_publicKeyCreate
    by blast
qed

section \<open>The discovery server: lemmas and claims\<close>

lemma send_cases:
  "send env s p d = (res, s') \<Longrightarrow>
     s' = s \<or> (\<exists>x. s' = s\<lparr>sent := sent s @ [x]\<rparr>)"
  by (auto simp: send_def socket_send_def split: option.splits if_splits prod.splits sum.splits)

lemma send_result_timers: "send env s p d = (res, s') \<Longrightarrow> timers s' = timers s"
  by (drule send_cases) auto

lemma send_timers: "timers (snd (send env s p d)) = timers s"
  using send_cases [of env s p d "fst (send env s p d)" "snd (send env s p d)"] by auto

lemma send_events: "events (snd (send env s p d)) = events s"
  using send_cases [of env s p d "fst (send env s p d)" "snd (send env s p d)"] by auto

lemma filter_peers_emit_error:
  "filter is_peers_event (events (emit s (ErrorEvent e))) = filter is_peers_event (events s)"
  by (simp add: emit_def is_peers_event_def)

lemma on_message_ping:
  assumes "decode env msg = Some dec" and "info_data dec = Ping v from to"
  shows "timers (on_message env s msg r) = timers (handler_add_peer env s dec (pk2id (info_publicKey dec)))"
    and "filter is_peers_event (events (on_message env s msg r))
           = filter is_peers_event (events (handler_add_peer env s dec (pk2id (info_publicKey dec))))"
proof -
  define s1 where "s1 = handler_add_peer env s dec (pk2id (info_publicKey dec))"
  define q where "q = send env s1 (rinfo_peer r (pk2id (info_publicKey dec)))
                  (Pong \<lparr>peer_id = None, address = rinfo_address r,
                          udpPort = Some (rinfo_port r), tcpPort = tcpPort from\<rparr>
                        (slice 0 32 msg))"
  have t: "timers (snd q) = timers s1" and e: "events (snd q) = events s1"
    unfolding q_def by (rule send_timers, rule send_events)
  have om: "on_message env s msg r =
              (case q of (Inl e, s2) \<Rightarrow> emit s2 (ErrorEvent e) | (Inr _, s2) \<Rightarrow> s2)"
    using assms
    by (simp add: on_message_def handler_def Let_def s1_def q_def split: prod.splits sum.splits)
  show "timers (on_message env s msg r) = timers (handler_add_peer env s dec (pk2id (info_publicKey dec)))"
    unfolding om s1_def [symmetric] using t
    by (cases q) (auto simp: emit_def split: sum.splits)
  show "filter is_peers_event (events (on_message env s msg r))
           = filter is_peers_event (events (handler_add_peer env s dec (pk2id (info_publicKey dec))))"
    unfolding om s1_def [symmetric] using e
    by (cases q) (auto simp: emit_def is_peers_event_def split: sum.splits)
qed

lemma run_timer_timers: "timers (run_timer s t) = filter (\<lambda>t'. t' \<noteq> t) (timers s)"
  by (cases "action t") (simp_all add: run_timer_def Let_def reject_def emit_def)

lemma ping_timers_mono: "set (timers s) \<subseteq> set (timers (snd (ping env s p)))"
  by (auto simp: ping_def Let_def isAliveCheck_def createDeferred_def setTimeout_def
      dest!: send_result_timers
      split: option.splits if_splits prod.splits sum.splits)

lemma findneighbours_timers: "timers (snd (findneighbours env s p i)) = timers s"
  using send_timers [of env s p "FindNeighbours i"]
  by (auto simp: findneighbours_def isAliveCheck_def split: prod.splits sum.splits)

lemma destroy_timers: "timers (snd (destroy s)) = timers s"
  by (simp add: destroy_def isAliveCheck_def)

lemma handler_add_peer_timers_mono: "set (timers s) \<subseteq> set (timers (handler_add_peer env s dec i))"
  by (auto simp: handler_add_peer_def setTimeout_def split: msgdata.splits)

lemma resolve_timers: "timers (resolve s d v) = timers s"
  by (simp add: resolve_def)

lemma on_message_timers_mono: "set (timers s) \<subseteq> set (timers (on_message env s msg r))"
proof (cases "decode env msg")
  case None
  then show ?thesis by (simp add: on_message_def handler_def emit_def)
next
  case (Some dec)
  define s1 where "s1 = handler_add_peer env s dec (pk2id (info_publicKey dec))"
  have m: "set (timers s) \<subseteq> set (timers s1)"
    unfolding s1_def by (rule handler_add_peer_timers_mono)
  have "timers (on_message env s msg r) = timers s1"
  proof (cases "info_data dec")
    case (Ping v frm tgt)
    then show ?thesis using on_message_ping(1) [OF Some Ping] by (simp add: s1_def)
  next
    case (Pong tgt hash)
    then show ?thesis using Some
      by (simp add: on_message_def handler_def Let_def s1_def [symmetric] resolve_def
          split: option.splits)
  next
    case (FindNeighbours i)
    then show ?thesis using Some
        send_timers [of env s1 "rinfo_peer r (pk2id (info_publicKey dec))" "Neighbours (getClosestPeers env i)"]
      by (auto simp: on_message_def handler_def Let_def s1_def [symmetric] emit_def
          split: prod.splits sum.splits)
  next
    case (Neighbours ps)
    then show ?thesis using Some
      by (simp add: on_message_def handler_def Let_def s1_def [symmetric] emit_def)
  qed
  with m show ?thesis by simp
qed

lemma step_timer_removed:
  assumes "step env a b" and "t \<in> set (timers a)" and "t \<notin> set (timers b)"
  shows "due t \<le> now a"
  using assms
proof (induction rule: step.induct)
  case (step_tick s d)
  then show ?case by simp
next
  case (step_timer t' s)
  then show ?case by (auto simp: run_timer_timers)
next
  case (step_message s msg r)
  then show ?case using on_message_timers_mono [of s env msg r] by auto
next
  case (step_ping s p)
  then show ?case using ping_timers_mono [of s env p] by auto
next
  case (step_findneighbours s p ident)
  then show ?case by (simp add: findneighbours_timers)
next
  case (step_destroy s)
  then show ?case by (simp add: destroy_timers)
qed

lemma handler_add_peer_unknown:
  assumes "info_data dec = Ping v from to" and "getPeer env i = None" and "udpPort from \<noteq> None"
  shows "handler_add_peer env s dec i =
           s\<lparr>timers := timers s @ [\<lparr>timer_id = next_timer s, due = now s + 100, action = EmitPeers [from]\<rparr>],
             next_timer := next_timer s + 1\<rparr>"
  using assms by (simp add: handler_add_peer_def setTimeout_def)

lemma handler_add_peer_known:
  assumes "info_data dec = Ping v from to" and "getPeer env i \<noteq> None \<or> udpPort from = None"
  shows "handler_add_peer env s dec i = s"
  using assms by (auto simp: handler_add_peer_def)

lemma run_timer_EmitPeers:
  "action t = EmitPeers ps \<Longrightarrow> events (run_timer s t) = events s @ [PeersEvent ps]"
  by (simp add: run_timer_def Let_def emit_def)

text \<open>
  Claim C8.  For every received ping whose sender is absent from the routing table
  (\<open>getPeer\<close> returns \<open>null\<close>) and whose declared \<open>from.udpPort\<close> is not \<open>null\<close>, the server arms
  exactly one timer, due 100 ms later, whose callback emits exactly one \<open>peers\<close> event
  holding exactly that \<open>from\<close> endpoint; handling the ping emits no \<open>peers\<close> event at once,
  the timer is gone once it has run, and it cannot leave the list of timers before it is
  due.  If the sender is known or \<open>from.udpPort\<close> is \<open>null\<close>, handling the ping arms no
  timer and emits no \<open>peers\<close> event.
\<close>

theorem ping_of_unknown_sender_emits_peers:
  assumes "decode env msg = Some dec" and "info_data dec = Ping v from to"
  shows "(getPeer env (pk2id (info_publicKey dec)) = None \<and> udpPort from \<noteq> None \<longrightarrow>
            timers (on_message env s msg r) =
              timers s @ [\<lparr>timer_id = next_timer s, due = now s + 100, action = EmitPeers [from]\<rparr>] \<and>
            (\<forall>a. events (run_timer a \<lparr>timer_id = next_timer s, due = now s + 100, action = EmitPeers [from]\<rparr>)
                   = events a @ [PeersEvent [from]] \<and>
                 \<lparr>timer_id = next_timer s, due = now s + 100, action = EmitPeers [from]\<rparr>
                   \<notin> set (timers (run_timer a \<lparr>timer_id = next_timer s, due = now s + 100, action = EmitPeers [from]\<rparr>))) \<and>
            (\<forall>a b. step env a b \<and>
                   \<lparr>timer_id = next_timer s, due = now s + 100, action = EmitPeers [from]\<rparr> \<in> set (timers a) \<and>
                   \<lparr>timer_id = next_timer s, due = now s + 100, action = EmitPeers [from]\<rparr> \<notin> set (timers b)
                   \<longrightarrow> now s + 100 \<le> now a))
       \<and> (getPeer env (pk2id (info_publicKey dec)) \<noteq> None \<or> udpPort from = None \<longrightarrow>
            timers (on_message env s msg r) = timers s)
       \<and> filter is_peers_event (events (on_message env s msg r)) = filter is_peers_event (events s)"
proof (intro conjI impI allI)
  assume u: "getPeer env (pk2id (info_publicKey dec)) = None \<and> udpPort from \<noteq> None"
  show "timers (on_message env s msg r) =
          timers s @ [\<lparr>timer_id = next_timer s, due = now s + 100, action = EmitPeers [from]\<rparr>]"
    using u by (simp add: on_message_ping(1) [OF assms] handler_add_peer_unknown [OF assms(2)])
next
  fix a
  show "events (run_timer a \<lparr>timer_id = next_timer s, due = now s + 100, action = EmitPeers [from]\<rparr>)
          = events a @ [PeersEvent [from]]"
    by (simp add: run_timer_EmitPeers)
  show "\<lparr>timer_id = next_timer s, due = now s + 100, action = EmitPeers [from]\<rparr>
          \<notin> set (timers (run_timer a \<lparr>timer_id = next_timer s, due = now s + 100, action = EmitPeers [from]\<rparr>))"
    by (simp add: run_timer_timers)
next
  fix a b
  assume "step env a b \<and>
          \<lparr>timer_id = next_timer s, due = now s + 100, action = EmitPeers [from]\<rparr> \<in> set (timers a) \<and>
          \<lparr>timer_id = next_timer s, due = now s + 100, action = EmitPeers [from]\<rparr> \<notin> set (timers b)"
  then show "now s + 100 \<le> now a"
    using step_timer_removed [of env a b "\<lparr>timer_id = next_timer s, due = now s + 100, action = EmitPeers [from]\<rparr>"]
    by simp
next
  assume "getPeer env (pk2id (info_publicKey dec)) \<noteq> None \<or> udpPort from = None"
  then show "timers (on_message env s msg r) = timers s"
    by (simp add: on_message_ping(1) [OF assms] handler_add_peer_known [OF assms(2)])
next
  show "filter is_peers_event (events (on_message env s msg r)) = filter is_peers_event (events s)"
    unfolding on_message_ping(2) [OF assms]
    by (cases "getPeer env (pk2id (info_publicKey dec)) = None \<and> udpPort from \<noteq> None")
       (simp_all add: handler_add_peer_unknown [OF assms(2)] handler_add_peer_known [OF assms(2)])
qed

lemma ex_decode_1:
  "decode ex_env [0x01] = Some \<lparr>info_data = Ping 4 ex_from ex_peer, info_publicKey = ex_pk\<rparr>"
  by (simp add: ex_env_def)

lemma ex_decode_3:
  "decode ex_env [0x03] = Some \<lparr>info_data = Ping 4 ex_from_null ex_peer, info_publicKey = ex_pk\<rparr>"
  by (simp add: ex_env_def)

theorem ping_of_unknown_sender_emits_peers_witness:
  "getPeer ex_env (pk2id ex_pk) = None \<and> udpPort ex_from \<noteq> None \<and> udpPort ex_from_null = None \<and>
   timers (on_message ex_env ex_server [0x01] ex_rinfo)
     = [\<lparr>timer_id = 0, due = 100, action = EmitPeers [ex_from]\<rparr>] \<and>
   events (run_timer (on_message ex_env ex_server [0x01] ex_rinfo)
             \<lparr>timer_id = 0, due = 100, action = EmitPeers [ex_from]\<rparr>)
     = events (on_message ex_env ex_server [0x01] ex_rinfo) @ [PeersEvent [ex_from]] \<and>
   timers (on_message ex_env ex_server [0x03] ex_rinfo) = []"
proof -
  have g: "getPeer ex_env (pk2id ex_pk) = None" by (simp add: ex_env_def)
  have u: "udpPort ex_from \<noteq> None" by (simp add: ex_from_def)
  have n: "udpPort ex_from_null = None" by (simp add: ex_from_null_def)
  have s: "timers ex_server = []" "next_timer ex_server = 0" "now ex_server = 0"
    by (simp_all add: ex_server_def Server_new_def)
  from ping_of_unknown_sender_emits_peers [OF ex_decode_1, of 4 ex_from ex_peer ex_server ex_rinfo] g u s
  have a: "timers (on_message ex_env ex_server [0x01] ex_rinfo)
             = [\<lparr>timer_id = 0, due = 100, action = EmitPeers [ex_from]\<rparr>]"
    and b: "events (run_timer (on_message ex_env ex_server [0x01] ex_rinfo)
             \<lparr>timer_id = 0, due = 100, action = EmitPeers [ex_from]\<rparr>)
     = events (on_message ex_env ex_server [0x01] ex_rinfo) @ [PeersEvent [ex_from]]"
    by simp_all
  from ping_of_unknown_sender_emits_peers [OF ex_decode_3, of 4 ex_from_null ex_peer ex_server ex_rinfo] n s
  have c: "timers (on_message ex_env ex_server [0x03] ex_rinfo) = []"
    by simp
  from g u n a b c show ?thesis by simp
qed









lemma ex_pinged_promises: "promises ex_pinged = [Pending]"
  by code_simp













lemma send_frame:
  "socket (snd (send env s p d)) = socket s \<and> now (snd (send env s p d)) = now s \<and>
   requestsCache (snd (send env s p d)) = requestsCache s \<and>
   promises (snd (send env s p d)) = promises s"
  using send_cases [of env s p d "fst (send env s p d)" "snd (send env s p d)"] by auto

lemma handler_add_peer_frame:
  "socket (handler_add_peer env s dec i) = socket s \<and> now (handler_add_peer env s dec i) = now s \<and>
   requestsCache (handler_add_peer env s dec i) = requestsCache s \<and>
   promises (handler_add_peer env s dec i) = promises s"
  by (auto simp: handler_add_peer_def setTimeout_def split: msgdata.splits)

text \<open>A datagram changes neither the socket, the clock nor the dedup cache, and of the
  promises it can only resolve one.\<close>

lemma on_message_frame:
  "socket (on_message env s msg r) = socket s \<and> now (on_message env s msg r) = now s \<and>
   requestsCache (on_message env s msg r) = requestsCache s \<and>
   (promises (on_message env s msg r) = promises s \<or>
    (\<exists>d v. promises (on_message env s msg r) = settle (promises s) d (Resolved v)))"
proof (cases "decode env msg")
  case None
  then show ?thesis by (simp add: on_message_def handler_def emit_def)
next
  case (Some dec)
  define s1 where "s1 = handler_add_peer env s dec (pk2id (info_publicKey dec))"
  have f1: "socket s1 = socket s \<and> now s1 = now s \<and> requestsCache s1 = requestsCache s \<and>
            promises s1 = promises s"
    unfolding s1_def by (rule handler_add_peer_frame)
  have "socket (on_message env s msg r) = socket s1 \<and> now (on_message env s msg r) = now s1 \<and>
   requestsCache (on_message env s msg r) = requestsCache s1 \<and>
   (promises (on_message env s msg r) = promises s1 \<or>
    (\<exists>d v. promises (on_message env s msg r) = settle (promises s1) d (Resolved v)))"
  proof (cases "info_data dec")
    case (Ping v frm tgt)
    then show ?thesis using Some
        send_frame [of env s1 "rinfo_peer r (pk2id (info_publicKey dec))"
          "Pong \<lparr>peer_id = None, address = rinfo_address r,
                          udpPort = Some (rinfo_port r), tcpPort = tcpPort frm\<rparr>
                        (slice 0 32 msg)"]
      by (auto simp: on_message_def handler_def Let_def s1_def [symmetric] emit_def
          split: prod.splits sum.splits)
  next
    case (Pong tgt hash)
    then show ?thesis using Some
      by (auto simp: on_message_def handler_def Let_def s1_def [symmetric] resolve_def
          split: option.splits)
  next
    case (FindNeighbours i)
    then show ?thesis using Some
        send_frame [of env s1 "rinfo_peer r (pk2id (info_publicKey dec))" "Neighbours (getClosestPeers env i)"]
      by (auto simp: on_message_def handler_def Let_def s1_def [symmetric] emit_def
          split: prod.splits sum.splits)
  next
    case (Neighbours ps)
    then show ?thesis using Some
      by (simp add: on_message_def handler_def Let_def s1_def [symmetric] emit_def)
  qed
  with f1 show ?thesis by simp
qed





lemma ex_pinged_socket: "socket ex_pinged"
  by code_simp




lemma find_fst_Some: "find (\<lambda>e. fst e = k) cache = Some (k', v, created) \<Longrightarrow> k' = k \<and> (k, v, created) \<in> set cache"
  by (induction cache) (auto split: if_splits)

lemma LRU_get_live:
  assumes "find (\<lambda>e. fst e = k) cache = Some (k, v, created)" and "t - created \<le> DEFAULT_CACHE_maxAge"
  shows "LRU_get cache t k = (Some v, (k, v, created) # filter (\<lambda>e. fst e \<noteq> k) cache)"
  using assms by (simp add: LRU_get_def)

lemma LRU_get_Some:
  assumes "LRU_get cache t k = (Some v, cache')"
  shows "\<exists>created. (k, v, created) \<in> set cache \<and> t - created \<le> DEFAULT_CACHE_maxAge \<and>
           cache' = (k, v, created) # filter (\<lambda>e. fst e \<noteq> k) cache"
  using assms
  by (auto simp: LRU_get_def split: option.splits if_splits dest!: find_fst_Some)

lemma find_LRU_set: "find (\<lambda>e. fst e = k) (LRU_set cache t k v) = Some (k, v, t)"
  by (simp add: LRU_set_def DEFAULT_CACHE_max_def take_Cons')

lemma cache_rank_LRU_set: "cache_rank k (LRU_set cache t k v) = 0"
  by (simp add: LRU_set_def DEFAULT_CACHE_max_def take_Cons' cache_rank_def)

text \<open>The entry of a key \<open>k\<close> when the cache is used for another key \<open>k'\<close>.\<close>

lemma find_filter_other:
  "k' \<noteq> k \<Longrightarrow> find (\<lambda>e. fst e = k) (filter (\<lambda>e. fst e \<noteq> k') xs) = find (\<lambda>e. fst e = k) xs"
  by (induction xs) auto

lemma cache_rank_filter:
  "k' \<noteq> k \<Longrightarrow> cache_rank k (filter (\<lambda>e. fst e \<noteq> k') xs) \<le> cache_rank k xs"
  unfolding cache_rank_def by (induction xs) auto

lemma find_take_rank:
  "find (\<lambda>e. fst e = k) xs = Some e \<Longrightarrow> cache_rank k xs < n \<Longrightarrow>
     find (\<lambda>e. fst e = k) (take n xs) = Some e"
  unfolding cache_rank_def
  by (induction xs arbitrary: n) (auto simp: take_Cons' split: if_splits)

lemma cache_rank_take: "cache_rank k (take n xs) \<le> cache_rank k xs"
  unfolding cache_rank_def
  by (induction xs arbitrary: n) (auto simp: take_Cons')

lemma LRU_get_other:
  assumes "k' \<noteq> k"
  shows "find (\<lambda>e. fst e = k) (snd (LRU_get cache t k')) = find (\<lambda>e. fst e = k) cache"
    and "cache_rank k (snd (LRU_get cache t k')) \<le> Suc (cache_rank k cache)"
    and "fst (LRU_get cache t k') = None \<Longrightarrow> cache_rank k (snd (LRU_get cache t k')) \<le> cache_rank k cache"
proof -
  have c: "cache_rank k ((k', v, c) # xs) = Suc (cache_rank k xs)" for v c xs
    using assms by (simp add: cache_rank_def)
  note r = cache_rank_filter [OF assms, of cache]
  show "find (\<lambda>e. fst e = k) (snd (LRU_get cache t k')) = find (\<lambda>e. fst e = k) cache"
    using assms by (auto simp: LRU_get_def find_filter_other split: option.splits)
  show "cache_rank k (snd (LRU_get cache t k')) \<le> Suc (cache_rank k cache)"
    using r by (auto simp: LRU_get_def c split: option.splits)
  show "fst (LRU_get cache t k') = None \<Longrightarrow> cache_rank k (snd (LRU_get cache t k')) \<le> cache_rank k cache"
    using r by (auto simp: LRU_get_def split: option.splits if_splits)
qed

lemma LRU_set_other:
  assumes "k' \<noteq> k" and "find (\<lambda>e. fst e = k) cache = Some e" and "Suc (cache_rank k cache) < 1000"
  shows "find (\<lambda>e. fst e = k) (LRU_set cache t k' v) = Some e"
    and "cache_rank k (LRU_set cache t k' v) \<le> Suc (cache_rank k cache)"
proof -
  define xs where "xs = (k', v, t) # filter (\<lambda>e. fst e \<noteq> k') cache"
  have f: "find (\<lambda>e. fst e = k) xs = Some e"
    using assms(1,2) by (simp add: xs_def find_filter_other)
  have r: "cache_rank k xs \<le> Suc (cache_rank k cache)"
    using assms(1) cache_rank_filter [OF assms(1), of cache] by (simp add: xs_def cache_rank_def)
  have s: "LRU_set cache t k' v = take 1000 xs"
    by (simp add: LRU_set_def DEFAULT_CACHE_max_def xs_def)
  show "find (\<lambda>e. fst e = k) (LRU_set cache t k' v) = Some e"
    unfolding s using f r assms(3) by (intro find_take_rank) simp_all
  show "cache_rank k (LRU_set cache t k' v) \<le> Suc (cache_rank k cache)"
    unfolding s using cache_rank_take [of k 1000 xs] r by simp
qed

lemma ping_cached:
  assumes "socket s" and "LRU_get (requestsCache s) (now s) (rckey_of p) = (Some d, cache')"
  shows "ping env s p = (Inr d, s\<lparr>requestsCache := cache'\<rparr>)"
  using assms by (simp add: ping_def isAliveCheck_def Let_def)

lemma ping_first:
  assumes "socket s" and "fst (LRU_get (requestsCache s) (now s) (rckey_of p)) = None"
      and "encode env (Ping VERSION (srv_endpoint s) p) (srv_privateKey s) = Some msg"
      and "udpPort p = Some port" and "0 < port" and "port \<le> 65535"
  shows "\<exists>s'. ping env s p = (Inr (length (promises s)), s') \<and> socket s' \<and> now s' = now s \<and>
           sent s' = sent s @ [(msg, port, address p)] \<and>
           promises s' = promises s @ [Pending] \<and>
           srv_endpoint s' = srv_endpoint s \<and> srv_privateKey s' = srv_privateKey s \<and>
           requestsCache s' =
             LRU_set (snd (LRU_get (requestsCache s) (now s) (rckey_of p))) (now s) (rckey_of p)
               (length (promises s))"
proof -
  obtain c0 where c0: "LRU_get (requestsCache s) (now s) (rckey_of p) = (None, c0)"
    using assms(2) by (cases "LRU_get (requestsCache s) (now s) (rckey_of p)") simp
  have sd: "send env (s\<lparr>requestsCache := c0\<rparr>) p (Ping VERSION (srv_endpoint s) p)
              = (Inr (slice 0 32 msg), s\<lparr>requestsCache := c0, sent := sent s @ [(msg, port, address p)]\<rparr>)"
    using assms by (simp add: send_def socket_send_def)
  show ?thesis
    using assms(1)
    by (simp add: ping_def isAliveCheck_def Let_def c0 sd createDeferred_def setTimeout_def)
qed

text \<open>What a \<open>ping\<close> on a live server does to the socket, the clock and the dedup cache.\<close>

lemma ping_state:
  assumes "socket s"
  shows "socket (snd (ping env s q)) \<and> now (snd (ping env s q)) = now s \<and>
         (requestsCache (snd (ping env s q)) = snd (LRU_get (requestsCache s) (now s) (rckey_of q)) \<or>
          fst (LRU_get (requestsCache s) (now s) (rckey_of q)) = None \<and>
          (\<exists>d. requestsCache (snd (ping env s q))
                 = LRU_set (snd (LRU_get (requestsCache s) (now s) (rckey_of q))) (now s) (rckey_of q) d))"
proof -
  obtain r c1 where g: "LRU_get (requestsCache s) (now s) (rckey_of q) = (r, c1)"
    by (cases "LRU_get (requestsCache s) (now s) (rckey_of q)") simp
  show ?thesis
  proof (cases r)
    case (Some d)
    then show ?thesis using assms g by (simp add: ping_def isAliveCheck_def Let_def)
  next
    case None
    define s1 where "s1 = s\<lparr>requestsCache := c1\<rparr>"
    obtain res s2 where sd: "send env s1 q (Ping VERSION (srv_endpoint s) q) = (res, s2)"
      by (cases "send env s1 q (Ping VERSION (srv_endpoint s) q)") simp
    from send_cases [OF sd] have s2: "socket s2 = socket s" "now s2 = now s" "requestsCache s2 = c1"
      by (auto simp: s1_def)
    show ?thesis
    proof (cases res)
      case (Inl e)
      then show ?thesis using assms g None sd s2
        by (simp add: ping_def isAliveCheck_def Let_def s1_def [symmetric])
    next
      case (Inr h)
      then show ?thesis using assms g None sd s2
        by (auto simp: ping_def isAliveCheck_def Let_def s1_def [symmetric] createDeferred_def
            setTimeout_def)
    qed
  qed
qed

lemma findneighbours_frame:
  "socket (snd (findneighbours env s q i)) = socket s \<and> now (snd (findneighbours env s q i)) = now s \<and>
   requestsCache (snd (findneighbours env s q i)) = requestsCache s"
  using send_frame [of env s q "FindNeighbours i"]
  by (auto simp: findneighbours_def isAliveCheck_def split: prod.splits sum.splits)

lemma run_timer_frame:
  "socket (run_timer s t) = socket s \<and> now (run_timer s t) = now s \<and>
   requestsCache (run_timer s t) = requestsCache s"
  by (cases "action t") (simp_all add: run_timer_def Let_def reject_def emit_def)

text \<open>A live entry of the dedup cache survives every action but \<open>destroy\<close>; only a \<open>ping\<close> of
  another endpoint moves it towards the end of the cache, by one place at most.\<close>

lemma perform_keeps_entry:
  assumes "socket s" and "find (\<lambda>e. fst e = k) (requestsCache s) = Some (k, d, t0)"
      and "a \<noteq> CallDestroy"
      and "cache_rank k (requestsCache s) + (if is_ping_of_other k a then 1 else 0) < 1000"
      and "now s + wait_of a \<le> t0 + 1000"
  shows "socket (perform env s a) \<and>
         find (\<lambda>e. fst e = k) (requestsCache (perform env s a)) = Some (k, d, t0) \<and>
         now (perform env s a) = now s + wait_of a \<and>
         cache_rank k (requestsCache (perform env s a))
           \<le> cache_rank k (requestsCache s) + (if is_ping_of_other k a then 1 else 0)"
proof (cases a)
  case (Wait x)
  then show ?thesis using assms by simp
next
  case (Fire t)
  then show ?thesis using assms run_timer_frame [of s t] by auto
next
  case (Deliver msg r)
  then show ?thesis using assms on_message_frame [of env s msg r] by auto
next
  case (CallPing q)
  note ps = ping_state [OF assms(1), of env q]
  show ?thesis
  proof (cases "rckey_of q = k")
    case True
    have age: "now s - t0 \<le> DEFAULT_CACHE_maxAge"
      using assms(5) by (simp add: DEFAULT_CACHE_maxAge_def)
    have "ping env s q = (Inr d, s\<lparr>requestsCache := (k, d, t0) # filter (\<lambda>e. fst e \<noteq> k) (requestsCache s)\<rparr>)"
      using ping_cached [OF assms(1)] LRU_get_live [OF assms(2) age] True by simp
    then show ?thesis using CallPing assms(1) by (simp add: cache_rank_def)
  next
    case False
    define c1 where "c1 = snd (LRU_get (requestsCache s) (now s) (rckey_of q))"
    have rk: "cache_rank k (requestsCache s) + 1 < 1000" using assms(4) CallPing False by simp
    have f1: "find (\<lambda>e. fst e = k) c1 = Some (k, d, t0)"
      unfolding c1_def using LRU_get_other(1) [OF False] assms(2) by simp
    have r1: "cache_rank k c1 \<le> Suc (cache_rank k (requestsCache s))"
      unfolding c1_def by (rule LRU_get_other(2) [OF False])
    have r0: "fst (LRU_get (requestsCache s) (now s) (rckey_of q)) = None \<Longrightarrow>
               cache_rank k c1 \<le> cache_rank k (requestsCache s)"
      unfolding c1_def by (rule LRU_get_other(3) [OF False])
    from ps consider
        (same) "requestsCache (snd (ping env s q)) = c1"
      | (new) dd where "fst (LRU_get (requestsCache s) (now s) (rckey_of q)) = None"
          "requestsCache (snd (ping env s q)) = LRU_set c1 (now s) (rckey_of q) dd"
      unfolding c1_def by blast
    then have "find (\<lambda>e. fst e = k) (requestsCache (snd (ping env s q))) = Some (k, d, t0) \<and>
               cache_rank k (requestsCache (snd (ping env s q))) \<le> Suc (cache_rank k (requestsCache s))"
    proof cases
      case same
      then show ?thesis using f1 r1 by simp
    next
      case new
      have lt: "Suc (cache_rank k c1) < 1000" using r0 [OF new(1)] rk by simp
      show ?thesis
        unfolding new(2)
        using LRU_set_other [OF False f1 lt, of "now s" dd] r0 [OF new(1)] by simp
    qed
    then show ?thesis using CallPing False ps by simp
  qed
next
  case (CallFindNeighbours q i)
  then show ?thesis using assms findneighbours_frame [of env s q i] by auto
next
  case CallDestroy
  then show ?thesis using assms(3) by simp
qed

lemma ping_log_cached:
  assumes "socket s" and "find (\<lambda>e. fst e = k) (requestsCache s) = Some (k, d, t0)"
      and "CallDestroy \<notin> set acts"
      and "cache_rank k (requestsCache s) + length (filter (is_ping_of_other k) acts) < 1000"
      and "now s + sum_list (map wait_of acts) \<le> t0 + 1000"
  shows "\<forall>e \<in> set (ping_log env s acts). rckey_of (fst e) = k \<longrightarrow> fst (snd e) = Inr d \<and> snd (snd e) = 0"
  using assms
proof (induction acts arbitrary: s)
  case Nil
  then show ?case by simp
next
  case (Cons a acts)
  have hd: "\<forall>e \<in> set (case a of
        CallPing q \<Rightarrow>
          [(q, fst (ping env s q), length (sent (snd (ping env s q))) - length (sent s))]
      | _ \<Rightarrow> []). rckey_of (fst e) = k \<longrightarrow> fst (snd e) = Inr d \<and> snd (snd e) = 0"
  proof (cases a)
    case (CallPing q)
    have age: "now s - t0 \<le> DEFAULT_CACHE_maxAge"
      using Cons.prems(5) by (simp add: DEFAULT_CACHE_maxAge_def)
    have "rckey_of q = k \<Longrightarrow>
      ping env s q = (Inr d, s\<lparr>requestsCache := (k, d, t0) # filter (\<lambda>e. fst e \<noteq> k) (requestsCache s)\<rparr>)"
      using ping_cached [OF Cons.prems(1)] LRU_get_live [OF Cons.prems(2) age] by simp
    then show ?thesis using CallPing by simp
  qed simp_all
  have a1: "a \<noteq> CallDestroy" using Cons.prems(3) by auto
  have a2: "cache_rank k (requestsCache s) + (if is_ping_of_other k a then 1 else 0) < 1000"
    using Cons.prems(4) by (simp split: if_splits)
  have a3: "now s + wait_of a \<le> t0 + 1000" using Cons.prems(5) by simp
  note p = perform_keeps_entry [OF Cons.prems(1,2) a1 a2 a3, of env]
  have i1: "socket (perform env s a)"
    and i2: "find (\<lambda>e. fst e = k) (requestsCache (perform env s a)) = Some (k, d, t0)"
    using p by blast+
  have i3: "CallDestroy \<notin> set acts" using Cons.prems(3) by simp
  have i4: "cache_rank k (requestsCache (perform env s a)) + length (filter (is_ping_of_other k) acts) < 1000"
    using p Cons.prems(4) by (simp split: if_splits)
  have i5: "now (perform env s a) + sum_list (map wait_of acts) \<le> t0 + 1000"
    using p Cons.prems(5) by simp
  note ih = Cons.IH [OF i1 i2 i3 i4 i5]
  show ?case using hd ih by (simp add: ball_Un)
qed

text \<open>
  Claim C4, as the code has it.  On a server that has not been destroyed, if \<open>ping(peer)\<close>
  is called while the dedup cache (maximum age 1 second, no stale reads) holds a live entry
  for the key \<open>address:udpPort\<close>, the call returns the cached future and does nothing else
  but mark the entry as recently used: no datagram is encoded or sent, and the
  pending-request map, the futures and the timers are as before.  Hence, after a \<open>ping\<close>
  that found no live entry and whose datagram was encoded and sent, every further \<open>ping\<close>
  of the same \<open>(address, udpPort)\<close> returns the future of that first \<open>ping\<close> and sends
  nothing, whatever else happens in between (time passing, timers, datagrams received,
  \<open>findneighbours\<close>, pings of other endpoints), as long as the server is not destroyed, no
  more than 1 second has passed, and fewer than 1000 pings (the capacity of the cache) of
  other endpoints were made.
\<close>

theorem ping_dedup:
  assumes "socket s"
  shows "(\<forall>d cache'. LRU_get (requestsCache s) (now s) (rckey_of p) = (Some d, cache') \<longrightarrow>
            ping env s p = (Inr d, s\<lparr>requestsCache := cache'\<rparr>) \<and>
            sent (snd (ping env s p)) = sent s \<and>
            requests (snd (ping env s p)) = requests s \<and>
            promises (snd (ping env s p)) = promises s \<and>
            timers (snd (ping env s p)) = timers s)
       \<and> (\<forall>msg port acts.
            fst (LRU_get (requestsCache s) (now s) (rckey_of p)) = None \<and>
            encode env (Ping VERSION (srv_endpoint s) p) (srv_privateKey s) = Some msg \<and>
            udpPort p = Some port \<and> 0 < port \<and> port \<le> 65535 \<and>
            CallDestroy \<notin> set acts \<and>
            sum_list (map wait_of acts) \<le> 1000 \<and>
            length (filter (is_ping_of_other (rckey_of p)) acts) < 1000 \<longrightarrow>
            fst (ping env s p) = Inr (length (promises s)) \<and>
            sent (snd (ping env s p)) = sent s @ [(msg, port, address p)] \<and>
            (\<forall>e \<in> set (ping_log env (snd (ping env s p)) acts).
               rckey_of (fst e) = rckey_of p \<longrightarrow>
                 fst (snd e) = Inr (length (promises s)) \<and> snd (snd e) = 0))
       \<and> (\<forall>cache t k v cache'. LRU_get cache t k = (Some v, cache') \<longrightarrow>
            (\<exists>created. (k, v, created) \<in> set cache \<and> t - created \<le> 1000))"
proof (intro conjI allI impI)
  fix d cache'
  assume g: "LRU_get (requestsCache s) (now s) (rckey_of p) = (Some d, cache')"
  show pc: "ping env s p = (Inr d, s\<lparr>requestsCache := cache'\<rparr>)"
    by (rule ping_cached [OF assms g])
  show "sent (snd (ping env s p)) = sent s" "requests (snd (ping env s p)) = requests s"
    "promises (snd (ping env s p)) = promises s" "timers (snd (ping env s p)) = timers s"
    by (simp_all add: pc)
next
  fix msg port acts
  assume a: "fst (LRU_get (requestsCache s) (now s) (rckey_of p)) = None \<and>
            encode env (Ping VERSION (srv_endpoint s) p) (srv_privateKey s) = Some msg \<and>
            udpPort p = Some port \<and> 0 < port \<and> port \<le> 65535 \<and>
            CallDestroy \<notin> set acts \<and>
            sum_list (map wait_of acts) \<le> 1000 \<and>
            length (filter (is_ping_of_other (rckey_of p)) acts) < 1000"
  from a have a': "fst (LRU_get (requestsCache s) (now s) (rckey_of p)) = None"
    "encode env (Ping VERSION (srv_endpoint s) p) (srv_privateKey s) = Some msg"
    "udpPort p = Some port" "0 < port" "port \<le> 65535"
    by simp_all
  from ping_first [OF assms a']
  obtain s1 where s1: "ping env s p = (Inr (length (promises s)), s1)" "socket s1" "now s1 = now s"
    "sent s1 = sent s @ [(msg, port, address p)]"
    "requestsCache s1 =
       LRU_set (snd (LRU_get (requestsCache s) (now s) (rckey_of p))) (now s) (rckey_of p)
               (length (promises s))"
    by blast
  have f: "find (\<lambda>e. fst e = rckey_of p) (requestsCache s1) = Some (rckey_of p, length (promises s), now s)"
    unfolding s1(5) by (rule find_LRU_set)
  have r: "cache_rank (rckey_of p) (requestsCache s1) + length (filter (is_ping_of_other (rckey_of p)) acts) < 1000"
    unfolding s1(5) using a by (simp add: cache_rank_LRU_set)
  have w: "now s1 + sum_list (map wait_of acts) \<le> now s + 1000" using a s1(3) by simp
  have d: "CallDestroy \<notin> set acts" using a by simp
  show "fst (ping env s p) = Inr (length (promises s))" by (simp add: s1(1))
  show "sent (snd (ping env s p)) = sent s @ [(msg, port, address p)]" by (simp add: s1(1) s1(4))
  show "\<forall>e \<in> set (ping_log env (snd (ping env s p)) acts).
               rckey_of (fst e) = rckey_of p \<longrightarrow>
                 fst (snd e) = Inr (length (promises s)) \<and> snd (snd e) = 0"
    using ping_log_cached [OF s1(2) f d r w, of env] by (simp add: s1(1))
next
  fix cache t k v cache'
  assume "LRU_get cache t k = (Some v, cache')"
  from LRU_get_Some [OF this]
  show "\<exists>created. (k, v, created) \<in> set cache \<and> t - created \<le> 1000"
    by (auto simp: DEFAULT_CACHE_maxAge_def)
qed

lemma ex_pinged_cache:
  "LRU_get (requestsCache ex_pinged) (now ex_pinged) (rckey_of ex_peer)
     = (Some 0, [(''127.0.0.1:30303'', 0, 0)])"
  by code_simp

lemma ex_server_facts:
  "socket ex_server"
  "fst (LRU_get (requestsCache ex_server) (now ex_server) (rckey_of ex_peer)) = None"
  "encode ex_env (Ping VERSION (srv_endpoint ex_server) ex_peer) (srv_privateKey ex_server)
     = Some (replicate 32 0x01 @ [0x00])"
  "udpPort ex_peer = Some 30303"
  "promises ex_server = []"
  "sent ex_server = []"
  "address ex_peer = ''127.0.0.1''"
  by (simp_all add: ex_server_def Server_new_def LRU_get_def ex_env_def ex_peer_def)

lemma ex_ping_log:
  "ping_log ex_env ex_pinged
     [CallPing ex_peer, Wait 500, CallPing (ex_other 1), Deliver [0x02] ex_rinfo,
      CallPing ex_peer, Wait 500, CallPing ex_peer]
   = [(ex_peer, Inr 0, 0), (ex_other 1, Inr 1, 1), (ex_peer, Inr 0, 0), (ex_peer, Inr 0, 0)]"
  by code_simp

theorem ping_dedup_witness:
  "socket ex_pinged \<and>
   LRU_get (requestsCache ex_pinged) (now ex_pinged) (rckey_of ex_peer)
     = (Some 0, [(''127.0.0.1:30303'', 0, 0)]) \<and>
   ping ex_env ex_pinged ex_peer = (Inr 0, ex_pinged\<lparr>requestsCache := [(''127.0.0.1:30303'', 0, 0)]\<rparr>) \<and>
   sent (snd (ping ex_env ex_pinged ex_peer)) = sent ex_pinged \<and>
   socket ex_server \<and>
   fst (ping ex_env ex_server ex_peer) = Inr 0 \<and>
   sent (snd (ping ex_env ex_server ex_peer)) = [(replicate 32 0x01 @ [0x00], 30303, ''127.0.0.1'')] \<and>
   ping_log ex_env (snd (ping ex_env ex_server ex_peer))
     [CallPing ex_peer, Wait 500, CallPing (ex_other 1), Deliver [0x02] ex_rinfo,
      CallPing ex_peer, Wait 500, CallPing ex_peer]
   = [(ex_peer, Inr 0, 0), (ex_other 1, Inr 1, 1), (ex_peer, Inr 0, 0), (ex_peer, Inr 0, 0)] \<and>
   fst (snd (last (ping_log ex_env (snd (ping ex_env ex_server ex_peer))
     [CallPing ex_peer, Wait 500, CallPing (ex_other 1), Deliver [0x02] ex_rinfo,
      CallPing ex_peer, Wait 500, CallPing ex_peer]))) = Inr 0 \<and>
   snd (snd (last (ping_log ex_env (snd (ping ex_env ex_server ex_peer))
     [CallPing ex_peer, Wait 500, CallPing (ex_other 1), Deliver [0x02] ex_rinfo,
      CallPing ex_peer, Wait 500, CallPing ex_peer]))) = 0"
proof -
  define acts where "acts = [CallPing ex_peer, Wait 500, CallPing (ex_other 1), Deliver [0x02] ex_rinfo,
      CallPing ex_peer, Wait 500, CallPing ex_peer]"
  from ping_dedup [OF ex_pinged_socket, of ex_peer ex_env] ex_pinged_cache
  have a: "ping ex_env ex_pinged ex_peer = (Inr 0, ex_pinged\<lparr>requestsCache := [(''127.0.0.1:30303'', 0, 0)]\<rparr>)"
    and b: "sent (snd (ping ex_env ex_pinged ex_peer)) = sent ex_pinged"
    by blast+
  have h: "CallDestroy \<notin> set acts" "sum_list (map wait_of acts) \<le> 1000"
    "length (filter (is_ping_of_other (rckey_of ex_peer)) acts) < 1000"
    by (simp_all add: acts_def)
  have p: "(0::nat) < 30303 \<and> (30303::nat) \<le> 65535" by simp
  from ping_dedup [OF ex_server_facts(1), of ex_peer ex_env]
  have "\<forall>msg port acts.
            fst (LRU_get (requestsCache ex_server) (now ex_server) (rckey_of ex_peer)) = None \<and>
            encode ex_env (Ping VERSION (srv_endpoint ex_server) ex_peer) (srv_privateKey ex_server) = Some msg \<and>
            udpPort ex_peer = Some port \<and> 0 < port \<and> port \<le> 65535 \<and>
            CallDestroy \<notin> set acts \<and>
            sum_list (map wait_of acts) \<le> 1000 \<and>
            length (filter (is_ping_of_other (rckey_of ex_peer)) acts) < 1000 \<longrightarrow>
            fst (ping ex_env ex_server ex_peer) = Inr (length (promises ex_server)) \<and>
            sent (snd (ping ex_env ex_server ex_peer)) = sent ex_server @ [(msg, port, address ex_peer)] \<and>
            (\<forall>e \<in> set (ping_log ex_env (snd (ping ex_env ex_server ex_peer)) acts).
               rckey_of (fst e) = rckey_of ex_peer \<longrightarrow>
                 fst (snd e) = Inr (length (promises ex_server)) \<and> snd (snd e) = 0)"
    by blast
  from this [rule_format, of "replicate 32 0x01 @ [0x00]" 30303 acts]
    ex_server_facts(2-4) h p
  have c: "fst (ping ex_env ex_server ex_peer) = Inr (length (promises ex_server)) \<and>
            sent (snd (ping ex_env ex_server ex_peer))
              = sent ex_server @ [(replicate 32 0x01 @ [0x00], 30303, address ex_peer)] \<and>
            (\<forall>e \<in> set (ping_log ex_env (snd (ping ex_env ex_server ex_peer)) acts).
               rckey_of (fst e) = rckey_of ex_peer \<longrightarrow>
                 fst (snd e) = Inr (length (promises ex_server)) \<and> snd (snd e) = 0)"
    by blast
  have l: "ping_log ex_env (snd (ping ex_env ex_server ex_peer)) acts
             = [(ex_peer, Inr 0, 0), (ex_other 1, Inr 1, 1), (ex_peer, Inr 0, 0), (ex_peer, Inr 0, 0)]"
    using ex_ping_log by (simp add: acts_def ex_pinged_def)
  have m: "last (ping_log ex_env (snd (ping ex_env ex_server ex_peer)) acts)
             \<in> set (ping_log ex_env (snd (ping ex_env ex_server ex_peer)) acts)"
    by (rule last_in_set) (simp add: l)
  have k: "rckey_of (fst (last (ping_log ex_env (snd (ping ex_env ex_server ex_peer)) acts))) = rckey_of ex_peer"
    by (simp add: l)
  from c m k have e: "fst (snd (last (ping_log ex_env (snd (ping ex_env ex_server ex_peer)) acts)))
                        = Inr (length (promises ex_server)) \<and>
                      snd (snd (last (ping_log ex_env (snd (ping ex_env ex_server ex_peer)) acts))) = 0"
    by blast
  from c have c1: "fst (ping ex_env ex_server ex_peer) = Inr 0"
    and c2: "sent (snd (ping ex_env ex_server ex_peer)) = [(replicate 32 0x01 @ [0x00], 30303, ''127.0.0.1'')]"
    by (simp_all add: ex_server_facts(5-7))
  from e have e': "fst (snd (last (ping_log ex_env (snd (ping ex_env ex_server ex_peer)) acts))) = Inr 0"
    "snd (snd (last (ping_log ex_env (snd (ping ex_env ex_server ex_peer)) acts))) = 0"
    by (simp_all add: ex_server_facts(5))
  from ex_pinged_socket ex_pinged_cache a b ex_server_facts(1) c1 c2 l e'
  show ?thesis unfolding acts_def by blast
qed

text \<open>The decimal digits of a number determine it, so the thousand other endpoints have a
  thousand keys, none of them the key of the example peer.\<close>

lemma digit_char_val: "d < 10 \<Longrightarrow> of_char (digit_char d) = (48 + d :: nat)"
proof -
  assume "d < 10"
  then have "d = 0 \<or> d = 1 \<or> d = 2 \<or> d = 3 \<or> d = 4 \<or> d = 5 \<or> d = 6 \<or> d = 7 \<or> d = 8 \<or> d = 9"
    by arith
  then show ?thesis by (elim disjE) (simp_all add: digit_char_def)
qed

lemma show_nat_inverse: "foldl (\<lambda>a ch. a * 10 + (of_char ch - 48)) 0 (show_nat n) = n"
proof (induction n rule: show_nat.induct)
  case (1 n)
  show ?case
  proof (cases "n < 10")
    case True
    then show ?thesis by (simp add: show_nat.simps [of n] digit_char_val)
  next
    case False
    then show ?thesis using 1 by (simp add: show_nat.simps [of n] digit_char_val)
  qed
qed

lemma show_nat_inj: "show_nat m = show_nat n \<Longrightarrow> m = n"
  by (metis show_nat_inverse)

lemma rckey_of_ex_other: "rckey_of (ex_other i) = ''10.0.0.2:'' @ show_nat i"
  by (simp add: rckey_of_def ex_other_def show_port_def)

lemma rckey_of_ex_peer: "rckey_of ex_peer = ''127.0.0.1:30303''"
  by code_simp

lemma ex_others_keys:
  "distinct (map rckey_of ex_others)" "rckey_of ex_peer \<notin> set (map rckey_of ex_others)"
  "length ex_others = 1000"
  "length (filter (is_ping_of_other (rckey_of ex_peer)) (map CallPing ex_others)) = 1000"
proof -
  have "inj_on (\<lambda>i. rckey_of (ex_other i)) (set [1 ..< 1001])"
    by (rule inj_onI) (simp add: rckey_of_ex_other show_nat_inj)
  then show "distinct (map rckey_of ex_others)"
    by (simp add: ex_others_def distinct_map comp_def)
  show n: "rckey_of ex_peer \<notin> set (map rckey_of ex_others)"
    by (auto simp: ex_others_def rckey_of_ex_other rckey_of_ex_peer)
  show "length ex_others = 1000" by (simp add: ex_others_def)
  have "\<forall>q \<in> set ex_others. rckey_of q \<noteq> rckey_of ex_peer"
    using n by (auto simp: image_iff)
  then have "filter (is_ping_of_other (rckey_of ex_peer)) (map CallPing ex_others) = map CallPing ex_others"
    by (simp add: filter_id_conv)
  then show "length (filter (is_ping_of_other (rckey_of ex_peer)) (map CallPing ex_others)) = 1000"
    by (simp add: ex_others_def)
qed

text \<open>Pings of endpoints that the dedup cache does not hold, all of which can be sent: each
  puts its key in front of the cache.\<close>

lemma map_fst_LRU_set:
  "k \<notin> set (map fst cache) \<Longrightarrow> map fst (LRU_set cache t k v) = take 1000 (k # map fst cache)"
proof -
  assume "k \<notin> set (map fst cache)"
  then have "\<forall>e \<in> set cache. fst e \<noteq> k" by force
  then have "filter (\<lambda>e. fst e \<noteq> k) cache = cache" by (simp add: filter_id_conv)
  then show ?thesis by (simp add: LRU_set_def DEFAULT_CACHE_max_def take_map)
qed

lemma LRU_get_absent:
  "k \<notin> set (map fst cache) \<Longrightarrow> LRU_get cache t k = (None, cache)"
proof -
  assume "k \<notin> set (map fst cache)"
  then have "\<forall>e \<in> set cache. fst e \<noteq> k" by force
  then have "find (\<lambda>e. fst e = k) cache = None" by (force simp: find_None_iff)
  then show ?thesis by (simp add: LRU_get_def)
qed

lemma take_append_take: "take n (xs @ take n ys) = take n (xs @ ys)"
  by simp

lemma fresh_pings:
  assumes "socket s"
      and "\<forall>q \<in> set qs. \<exists>port. udpPort q = Some port \<and> 0 < port \<and> port \<le> 65535"
      and "\<forall>d k. encode env d k \<noteq> None"
      and "distinct (map rckey_of qs)"
      and "set (map rckey_of qs) \<inter> set (map fst (requestsCache s)) = {}"
      and "length (requestsCache s) \<le> 1000"
  shows "socket (run env s (map CallPing qs)) \<and> now (run env s (map CallPing qs)) = now s \<and>
         map fst (requestsCache (run env s (map CallPing qs)))
           = take 1000 (rev (map rckey_of qs) @ map fst (requestsCache s)) \<and>
         length (promises (run env s (map CallPing qs))) = length (promises s) + length qs \<and>
         srv_endpoint (run env s (map CallPing qs)) = srv_endpoint s \<and>
         srv_privateKey (run env s (map CallPing qs)) = srv_privateKey s"
  using assms
proof (induction qs arbitrary: s)
  case Nil
  then show ?case by (simp add: run_def)
next
  case (Cons q qs)
  define k where "k = rckey_of q"
  have kn: "k \<notin> set (map fst (requestsCache s))" using Cons.prems(5) by (auto simp: k_def)
  have g: "LRU_get (requestsCache s) (now s) (rckey_of q) = (None, requestsCache s)"
    using LRU_get_absent [OF kn] by (simp add: k_def)
  obtain msg where msg: "encode env (Ping VERSION (srv_endpoint s) q) (srv_privateKey s) = Some msg"
    using Cons.prems(3) by fastforce
  obtain port where port: "udpPort q = Some port" "0 < port" "port \<le> 65535"
    using Cons.prems(2) by auto
  have g1: "fst (LRU_get (requestsCache s) (now s) (rckey_of q)) = None" by (simp add: g)
  from ping_first [OF Cons.prems(1) g1 msg port]
  obtain s1 where s1: "ping env s q = (Inr (length (promises s)), s1)" "socket s1" "now s1 = now s"
    "promises s1 = promises s @ [Pending]"
    "srv_endpoint s1 = srv_endpoint s" "srv_privateKey s1 = srv_privateKey s"
    "requestsCache s1 = LRU_set (requestsCache s) (now s) k (length (promises s))"
    unfolding g k_def by auto
  have keys: "map fst (requestsCache s1) = take 1000 (k # map fst (requestsCache s))"
    unfolding s1(7) by (rule map_fst_LRU_set [OF kn])
  have r: "run env s (map CallPing (q # qs)) = run env s1 (map CallPing qs)"
    by (simp add: run_def s1(1))
  have p2: "\<forall>q \<in> set qs. \<exists>port. udpPort q = Some port \<and> 0 < port \<and> port \<le> 65535"
    using Cons.prems(2) by simp
  have p4: "distinct (map rckey_of qs)" using Cons.prems(4) by simp
  have "set (map fst (requestsCache s1)) \<subseteq> insert k (set (map fst (requestsCache s)))"
    unfolding keys using set_take_subset [of 1000 "k # map fst (requestsCache s)"] by simp
  moreover have "k \<notin> set (map rckey_of qs)" using Cons.prems(4) by (simp add: k_def)
  moreover have "set (map rckey_of qs) \<inter> set (map fst (requestsCache s)) = {}"
    using Cons.prems(5) by auto
  ultimately have p5: "set (map rckey_of qs) \<inter> set (map fst (requestsCache s1)) = {}"
    by blast
  have p6: "length (requestsCache s1) \<le> 1000"
    by (simp add: s1(7) LRU_set_def DEFAULT_CACHE_max_def)
  note ih = Cons.IH [OF s1(2) p2 Cons.prems(3) p4 p5 p6]
  have t: "take 1000 (rev (map rckey_of qs) @ map fst (requestsCache s1))
             = take 1000 (rev (map rckey_of (q # qs)) @ map fst (requestsCache s))"
    unfolding keys take_append_take by (simp add: k_def)
  show ?case unfolding r using ih t by (simp add: s1)
qed

text \<open>The claim as stated fails.  A destroyed server whose dedup cache still holds a live
  entry for the peer does not return the cached future.  On a live server, a thousand
  pings of other endpoints between two pings of the peer, all at the same millisecond,
  evict the entry: the second ping sends a second datagram and returns another future.  A
  ping of a peer without \<open>udpPort\<close> sends nothing, however often it is repeated, and neither
  does a ping whose packet cannot be encoded.  And pings that start while the entry is live
  send nothing at all.\<close>

theorem ping_dedup_fails:
  "fst (LRU_get (requestsCache ex_destroyed) (now ex_destroyed) (rckey_of ex_peer)) = Some 0 \<and>
   fst (ping ex_env ex_destroyed ex_peer) = Inl (Error ''Server already destroyed'') \<and>
   fst (ping ex_env ex_server ex_peer) = Inr 0 \<and>
   length (sent ex_pinged) = 1 \<and>
   CallDestroy \<notin> set (map CallPing ex_others) \<and>
   sum_list (map wait_of (map CallPing ex_others)) = 0 \<and>
   length (filter (is_ping_of_other (rckey_of ex_peer)) (map CallPing ex_others)) = 1000 \<and>
   socket (run ex_env ex_pinged (map CallPing ex_others)) \<and>
   now (run ex_env ex_pinged (map CallPing ex_others)) = now ex_pinged \<and>
   fst (ping ex_env (run ex_env ex_pinged (map CallPing ex_others)) ex_peer) = Inr 1001 \<and>
   sent (snd (ping ex_env (run ex_env ex_pinged (map CallPing ex_others)) ex_peer))
     = sent (run ex_env ex_pinged (map CallPing ex_others))
       @ [(replicate 32 0x01 @ [0x00], 30303, ''127.0.0.1'')] \<and>
   socket ex_server \<and>
   ping_log ex_env ex_server [CallPing ex_from_null, CallPing ex_from_null]
     = [(ex_from_null, Inl RangeError, 0), (ex_from_null, Inl RangeError, 0)] \<and>
   ping_log ex_env_failing ex_server [CallPing ex_peer, CallPing ex_peer]
     = [(ex_peer, Inl CodecError, 0), (ex_peer, Inl CodecError, 0)] \<and>
   ping_log ex_env ex_pinged [CallPing ex_peer, CallPing ex_peer]
     = [(ex_peer, Inr 0, 0), (ex_peer, Inr 0, 0)]"
proof -
  define s' where "s' = run ex_env ex_pinged (map CallPing ex_others)"
  have c: "requestsCache ex_pinged = [(''127.0.0.1:30303'', 0, 0)]" by code_simp
  have pr: "length (promises ex_pinged) = 1" by (simp add: ex_pinged_promises)
  have h2: "\<forall>q \<in> set ex_others. \<exists>port. udpPort q = Some port \<and> 0 < port \<and> port \<le> 65535"
    by (auto simp: ex_others_def ex_other_def)
  have h3: "\<forall>d k. encode ex_env d k \<noteq> None" by (simp add: ex_env_def)
  have h5: "set (map rckey_of ex_others) \<inter> set (map fst (requestsCache ex_pinged)) = {}"
    using ex_others_keys(2) by (simp add: c rckey_of_ex_peer)
  have h6: "length (requestsCache ex_pinged) \<le> 1000" by (simp add: c)
  from fresh_pings [OF ex_pinged_socket h2 h3 ex_others_keys(1) h5 h6]
  have f: "socket s'" "now s' = now ex_pinged"
    "map fst (requestsCache s') = take 1000 (rev (map rckey_of ex_others) @ map fst (requestsCache ex_pinged))"
    "length (promises s') = length (promises ex_pinged) + length ex_others"
    "srv_endpoint s' = srv_endpoint ex_pinged" "srv_privateKey s' = srv_privateKey ex_pinged"
    unfolding s'_def by blast+
  have "map fst (requestsCache s') = rev (map rckey_of ex_others)"
    unfolding f(3) using ex_others_keys(3) by simp
  then have "rckey_of ex_peer \<notin> set (map fst (requestsCache s'))"
    using ex_others_keys(2) by simp
  then have g: "fst (LRU_get (requestsCache s') (now s') (rckey_of ex_peer)) = None"
    by (simp add: LRU_get_absent)
  have e: "encode ex_env (Ping VERSION (srv_endpoint s') ex_peer) (srv_privateKey s')
             = Some (replicate 32 0x01 @ [0x00])"
    by (simp add: ex_env_def)
  have p: "(0::nat) < 30303" "(30303::nat) \<le> 65535" by simp_all
  from ping_first [OF f(1) g e ex_server_facts(4) p]
  have r: "fst (ping ex_env s' ex_peer) = Inr (length (promises s'))"
    "sent (snd (ping ex_env s' ex_peer)) = sent s' @ [(replicate 32 0x01 @ [0x00], 30303, address ex_peer)]"
    by auto
  have r1: "fst (ping ex_env s' ex_peer) = Inr 1001"
    unfolding r(1) f(4) pr ex_others_keys(3) by simp
  have r2: "sent (snd (ping ex_env s' ex_peer)) = sent s' @ [(replicate 32 0x01 @ [0x00], 30303, ''127.0.0.1'')]"
    unfolding r(2) by (simp add: ex_server_facts(7))
  have a1: "fst (LRU_get (requestsCache ex_destroyed) (now ex_destroyed) (rckey_of ex_peer)) = Some 0"
    by code_simp
  have a2: "fst (ping ex_env ex_destroyed ex_peer) = Inl (Error ''Server already destroyed'')"
    by code_simp
  have a3: "fst (ping ex_env ex_server ex_peer) = Inr 0" by code_simp
  have a4: "length (sent ex_pinged) = 1" by code_simp
  have a5: "CallDestroy \<notin> set (map CallPing ex_others)" by auto
  have a6: "sum_list (map wait_of (map CallPing ex_others)) = 0" by (simp add: comp_def)
  have b1: "ping_log ex_env ex_server [CallPing ex_from_null, CallPing ex_from_null]
     = [(ex_from_null, Inl RangeError, 0), (ex_from_null, Inl RangeError, 0)]"
    by code_simp
  have b2: "ping_log ex_env ex_pinged [CallPing ex_peer, CallPing ex_peer]
     = [(ex_peer, Inr 0, 0), (ex_peer, Inr 0, 0)]"
    by code_simp
  have b3: "ping_log ex_env_failing ex_server [CallPing ex_peer, CallPing ex_peer]
     = [(ex_peer, Inl CodecError, 0), (ex_peer, Inl CodecError, 0)]"
    by code_simp
  from a1 a2 a3 a4 a5 a6 ex_others_keys(4) f(1,2) r1 r2 ex_server_facts(1) b1 b3 b2
  show ?thesis unfolding s'_def by blast
qed

end
